theory Spec2Isabelle
  imports Main "HOL-Library.Word"
begin

unbundle bit_operations_syntax

section \<open>Machine integers and raw memory\<close>

text \<open>
  ProgramVk.cpp moves bytes between client arrays and the per-stage default uniform
  block with pointer arithmetic and \<^verbatim>\<open>memcpy\<close>. A pointer is modelled as an
  integer byte address relative to the base of the object it points into
  (\<^verbatim>\<open>uniformData->data()\<close>, the client array \<^verbatim>\<open>v\<close>), and the memory around
  that base as a total function from addresses to bytes: an address at or beyond
  the buffer's size is the memory next to the buffer.

  C++ \<^verbatim>\<open>int\<close>, \<^verbatim>\<open>GLint\<close> and \<^verbatim>\<open>GLsizei\<close> values are HOL integers; every
  arithmetic result is brought back into its C++ type by the conversion that the
  expression's type asks for: \<open>to_uint32\<close> for \<^verbatim>\<open>uint32_t\<close>, \<open>to_int\<close> for
  \<^verbatim>\<open>int\<close> (two's complement), \<open>to_size_t\<close> for the length argument of
  \<^verbatim>\<open>memcpy\<close>. \<^verbatim>\<open>unsigned int\<close> fields are 32-bit words.
\<close>

type_synonym byte = "8 word"
type_synonym mem = "int \<Rightarrow> byte"

definition to_uint32 :: "int \<Rightarrow> int" where
  "to_uint32 x = x mod 2 ^ 32"

definition to_int :: "int \<Rightarrow> int" where
  "to_int x = (x + 2 ^ 31) mod 2 ^ 32 - 2 ^ 31"

definition to_size_t :: "int \<Rightarrow> int" where
  "to_size_t x = x mod 2 ^ 64"

text \<open>\<^verbatim>\<open>memcpy(dst + d, src + s, n)\<close>: the \<open>n\<close> bytes from \<open>s\<close> on land at \<open>d\<close> on.\<close>

definition memcpy :: "mem \<Rightarrow> int \<Rightarrow> mem \<Rightarrow> int \<Rightarrow> int \<Rightarrow> mem" where
  "memcpy dst d src s n = (\<lambda>a. if d \<le> a \<and> a < d + n then src (s + (a - d)) else dst a)"

text \<open>
  A \<^verbatim>\<open>GLfloat\<close>, \<^verbatim>\<open>GLint\<close> or \<^verbatim>\<open>GLuint\<close> occupies four bytes
  (\<^verbatim>\<open>sizeof(T) == 4\<close> for the three instantiations of the templates), least
  significant byte first.
\<close>

definition sizeof_T :: int where
  "sizeof_T = 4"

definition load32 :: "mem \<Rightarrow> int \<Rightarrow> 32 word" where
  "load32 m a =
     ucast (m a) OR push_bit 8 (ucast (m (a + 1))) OR
     push_bit 16 (ucast (m (a + 2))) OR push_bit 24 (ucast (m (a + 3)))"

definition store32 :: "mem \<Rightarrow> int \<Rightarrow> 32 word \<Rightarrow> mem" where
  "store32 m a w =
     m(a := ucast w, a + 1 := ucast (drop_bit 8 w),
       a + 2 := ucast (drop_bit 16 w), a + 3 := ucast (drop_bit 24 w))"

text \<open>
  The template parameter \<^verbatim>\<open>T\<close> of the accessors. The comparison
  \<^verbatim>\<open>source[c] == static_cast<T>(0)\<close> is on the bit pattern for the integer
  types; for \<^verbatim>\<open>GLfloat\<close> both signed zeros compare equal to zero and nothing
  else does.
\<close>

datatype CType = GLfloat | GLint | GLuint

fun equals_zero :: "CType \<Rightarrow> 32 word \<Rightarrow> bool" where
  "equals_zero GLfloat w = (w AND 0x7FFFFFFF = 0)"
| "equals_zero GLint w = (w = 0)"
| "equals_zero GLuint w = (w = 0)"

definition GL_FALSE :: "32 word" where
  "GL_FALSE = 0"

definition GL_TRUE :: "32 word" where
  "GL_TRUE = 1"

section \<open>Errors\<close>

text \<open>
  \<^verbatim>\<open>ASSERT\<close> is modelled with assertions enabled: a failed assertion ends the call
  with \<open>AssertionFailure\<close>. Indexing a \<^verbatim>\<open>std::vector\<close> outside its range is
  undefined in C++; the model ends the call with \<open>OutOfRange\<close>.
\<close>

datatype error = AssertionFailure | OutOfRange

definition at_index :: "'a list \<Rightarrow> int \<Rightarrow> error + 'a" where
  "at_index xs i = (if 0 \<le> i \<and> i < int (length xs) then Inr (xs ! nat i) else Inl OutOfRange)"

section \<open>Layout records and block storage\<close>

text \<open>
  Modelled from the spec: \<^verbatim>\<open>sh::BlockMemberInfo\<close> is declared outside
  ProgramVk.cpp; the spec's LayoutRecord gives its fields, and its
  default-constructed value is the all \<open>-1\<close> record.
\<close>

record BlockMemberInfo =
  offset :: int
  arrayStride :: int
  matrixStride :: int
  isRowMajorMatrix :: bool

definition kDefaultBlockMemberInfo :: BlockMemberInfo where
  "kDefaultBlockMemberInfo =
     \<lparr>offset = - 1, arrayStride = - 1, matrixStride = - 1, isRowMajorMatrix = False\<rparr>"

text \<open>\<^verbatim>\<open>angle::MemoryBuffer\<close>: the bytes at \<^verbatim>\<open>data()\<close> and \<^verbatim>\<open>size()\<close>.\<close>

record MemoryBuffer =
  mData :: mem
  mSize :: int

record DefaultUniformBlock =
  uniformData :: MemoryBuffer
  uniformLayout :: "BlockMemberInfo list"

section \<open>UpdateDefaultUniformBlock\<close>

definition elementSize_of :: "int \<Rightarrow> int" where
  "elementSize_of componentCount = to_int (to_size_t (sizeof_T * componentCount))"

function UpdateDefaultUniformBlock_loop ::
  "int \<Rightarrow> int \<Rightarrow> int \<Rightarrow> int \<Rightarrow> mem \<Rightarrow> BlockMemberInfo \<Rightarrow> MemoryBuffer \<Rightarrow> error + MemoryBuffer"
where
  "UpdateDefaultUniformBlock_loop writeIndex readIndex maxIndex componentCount v layoutInfo buffer =
     (if writeIndex < maxIndex then
        (let elementSize = elementSize_of componentCount;
             arrayOffset = to_int (writeIndex * arrayStride layoutInfo);
             writePtr = offset layoutInfo + arrayOffset;
             readPtr = sizeof_T * to_int (readIndex * componentCount)
         in if writePtr + elementSize \<le> mSize buffer
            then UpdateDefaultUniformBlock_loop (writeIndex + 1) (to_int (readIndex + 1)) maxIndex
                   componentCount v layoutInfo
                   (buffer\<lparr>mData :=
                      memcpy (mData buffer) writePtr v readPtr (to_size_t elementSize)\<rparr>)
            else Inl AssertionFailure)
      else Inr buffer)"
  by pat_completeness auto
termination
  by (relation "measure (\<lambda>(writeIndex, readIndex, maxIndex, rest). nat (maxIndex - writeIndex))") auto

declare UpdateDefaultUniformBlock_loop.simps [simp del]

definition UpdateDefaultUniformBlock ::
  "int \<Rightarrow> 32 word \<Rightarrow> int \<Rightarrow> mem \<Rightarrow> BlockMemberInfo \<Rightarrow> MemoryBuffer \<Rightarrow> error + MemoryBuffer"
where
  "UpdateDefaultUniformBlock count arrayIndex componentCount v layoutInfo buffer =
     (let elementSize = elementSize_of componentCount;
          dst = offset layoutInfo
      in if arrayStride layoutInfo = 0 \<or> arrayStride layoutInfo = elementSize then
           (let arrayOffset = to_uint32 (uint arrayIndex * arrayStride layoutInfo);
                writePtr = dst + arrayOffset
            in if writePtr + to_int (elementSize * count) \<le> mSize buffer
               then Inr (buffer\<lparr>mData :=
                      memcpy (mData buffer) writePtr v 0 (to_size_t (to_int (elementSize * count)))\<rparr>)
               else Inl AssertionFailure)
         else
           (let maxIndex = to_int (to_uint32 (uint arrayIndex + count))
            in UpdateDefaultUniformBlock_loop (to_int (uint arrayIndex)) 0 maxIndex
                 componentCount v layoutInfo buffer))"

section \<open>ReadFromDefaultUniformBlock\<close>

text \<open>The two arms of the stride test, named after what the source does in each.\<close>

definition ReadFromDefaultUniformBlock_tight ::
  "int \<Rightarrow> 32 word \<Rightarrow> mem \<Rightarrow> BlockMemberInfo \<Rightarrow> MemoryBuffer \<Rightarrow> mem"
where
  "ReadFromDefaultUniformBlock_tight componentCount arrayIndex dst layoutInfo buffer =
     (let elementSize = elementSize_of componentCount;
          source = offset layoutInfo;
          readPtr = source + to_uint32 (uint arrayIndex * arrayStride layoutInfo)
      in memcpy dst 0 (mData buffer) readPtr (to_size_t elementSize))"

definition ReadFromDefaultUniformBlock_strided ::
  "int \<Rightarrow> 32 word \<Rightarrow> mem \<Rightarrow> BlockMemberInfo \<Rightarrow> MemoryBuffer \<Rightarrow> mem"
where
  "ReadFromDefaultUniformBlock_strided componentCount arrayIndex dst layoutInfo buffer =
     (let elementSize = elementSize_of componentCount;
          source = offset layoutInfo;
          arrayOffset = to_int (to_uint32 (uint arrayIndex * arrayStride layoutInfo));
          readPtr = source + arrayOffset
      in memcpy dst 0 (mData buffer) readPtr (to_size_t elementSize))"

definition ReadFromDefaultUniformBlock ::
  "int \<Rightarrow> 32 word \<Rightarrow> mem \<Rightarrow> BlockMemberInfo \<Rightarrow> MemoryBuffer \<Rightarrow> error + mem"
where
  "ReadFromDefaultUniformBlock componentCount arrayIndex dst layoutInfo buffer =
     (if offset layoutInfo = - 1 then Inl AssertionFailure
      else if arrayStride layoutInfo = 0 \<or> arrayStride layoutInfo = elementSize_of componentCount
      then Inr (ReadFromDefaultUniformBlock_tight componentCount arrayIndex dst layoutInfo buffer)
      else Inr (ReadFromDefaultUniformBlock_strided componentCount arrayIndex dst layoutInfo buffer))"

section \<open>GL types, shader stages and program state\<close>

text \<open>
  Modelled from the spec: the \<^verbatim>\<open>GLenum\<close> type constants and the helpers of
  common/utilities.h are not part of ProgramVk.cpp. The enumeration lists the
  scalar, vector and matrix types of the set-uniform entry points, the boolean
  vectors, and one representative of each opaque family (samplers, images, atomic
  counters). \<open>VariableBoolVectorType\<close> gives the boolean vector of the same arity
  as an integer or float vector (the spec's permitted coercion), \<open>IsMatrixType\<close>
  recognises the matrix types, \<open>IsOpaqueType\<close> the types without a representation
  in the default block.
\<close>

datatype GLenum =
    GL_NONE
  | GL_FLOAT | GL_FLOAT_VEC2 | GL_FLOAT_VEC3 | GL_FLOAT_VEC4
  | GL_INT | GL_INT_VEC2 | GL_INT_VEC3 | GL_INT_VEC4
  | GL_UNSIGNED_INT | GL_UNSIGNED_INT_VEC2 | GL_UNSIGNED_INT_VEC3 | GL_UNSIGNED_INT_VEC4
  | GL_BOOL | GL_BOOL_VEC2 | GL_BOOL_VEC3 | GL_BOOL_VEC4
  | GL_FLOAT_MAT2 | GL_FLOAT_MAT3 | GL_FLOAT_MAT4
  | GL_FLOAT_MAT2x3 | GL_FLOAT_MAT3x2 | GL_FLOAT_MAT2x4
  | GL_FLOAT_MAT4x2 | GL_FLOAT_MAT3x4 | GL_FLOAT_MAT4x3
  | GL_SAMPLER_2D | GL_SAMPLER_CUBE | GL_IMAGE_2D | GL_UNSIGNED_INT_ATOMIC_COUNTER

fun VariableBoolVectorType :: "GLenum \<Rightarrow> GLenum" where
  "VariableBoolVectorType GL_FLOAT = GL_BOOL"
| "VariableBoolVectorType GL_INT = GL_BOOL"
| "VariableBoolVectorType GL_UNSIGNED_INT = GL_BOOL"
| "VariableBoolVectorType GL_FLOAT_VEC2 = GL_BOOL_VEC2"
| "VariableBoolVectorType GL_INT_VEC2 = GL_BOOL_VEC2"
| "VariableBoolVectorType GL_UNSIGNED_INT_VEC2 = GL_BOOL_VEC2"
| "VariableBoolVectorType GL_FLOAT_VEC3 = GL_BOOL_VEC3"
| "VariableBoolVectorType GL_INT_VEC3 = GL_BOOL_VEC3"
| "VariableBoolVectorType GL_UNSIGNED_INT_VEC3 = GL_BOOL_VEC3"
| "VariableBoolVectorType GL_FLOAT_VEC4 = GL_BOOL_VEC4"
| "VariableBoolVectorType GL_INT_VEC4 = GL_BOOL_VEC4"
| "VariableBoolVectorType GL_UNSIGNED_INT_VEC4 = GL_BOOL_VEC4"
| "VariableBoolVectorType _ = GL_NONE"

definition IsMatrixType :: "GLenum \<Rightarrow> bool" where
  "IsMatrixType t \<longleftrightarrow>
     t \<in> {GL_FLOAT_MAT2, GL_FLOAT_MAT3, GL_FLOAT_MAT4, GL_FLOAT_MAT2x3, GL_FLOAT_MAT3x2,
          GL_FLOAT_MAT2x4, GL_FLOAT_MAT4x2, GL_FLOAT_MAT3x4, GL_FLOAT_MAT4x3}"

definition IsOpaqueType :: "GLenum \<Rightarrow> bool" where
  "IsOpaqueType t \<longleftrightarrow>
     t \<in> {GL_SAMPLER_2D, GL_SAMPLER_CUBE, GL_IMAGE_2D, GL_UNSIGNED_INT_ATOMIC_COUNTER}"

text \<open>
  Modelled from the spec: \<^verbatim>\<open>gl::ShaderType\<close> is declared outside ProgramVk.cpp;
  the stages are iterated in one fixed order, and \<open>InvalidEnum\<close> is the value that
  names no stage.
\<close>

datatype ShaderType =
  Vertex | TessControl | TessEvaluation | Geometry | Fragment | Compute | InvalidEnum

definition kAllShaderTypes :: "ShaderType list" where
  "kAllShaderTypes = [Vertex, TessControl, TessEvaluation, Geometry, Fragment, Compute]"

text \<open>
  Modelled from the spec: \<^verbatim>\<open>gl::VariableLocation\<close>, \<^verbatim>\<open>gl::UniformTypeInfo\<close>,
  \<^verbatim>\<open>sh::ShaderVariable\<close> and \<^verbatim>\<open>gl::LinkedUniform\<close> (a shader variable with link
  information) are declared outside ProgramVk.cpp. The records hold the members
  that ProgramVk.cpp reads. A location is used when its index is not
  \<^verbatim>\<open>GL_INVALID_INDEX\<close>; a variable is an array when it has array sizes, and
  the product of its array sizes is an \<^verbatim>\<open>unsigned int\<close>. The member functions
  \<^verbatim>\<open>isInDefaultBlock()\<close> and \<^verbatim>\<open>getFirstShaderTypeWhereActive()\<close> report stored
  link information and are the fields of those names. The field \<open>type'\<close> is
  \<^verbatim>\<open>typeInfo->type\<close>, the field \<open>type\<close> the variable's own \<^verbatim>\<open>type\<close>.
\<close>

record VariableLocation =
  arrayIndex :: "32 word"
  index :: "32 word"
  ignored :: bool

definition GL_INVALID_INDEX :: "32 word" where
  "GL_INVALID_INDEX = 0xFFFFFFFF"

definition used :: "VariableLocation \<Rightarrow> bool" where
  "used location \<longleftrightarrow> index location \<noteq> GL_INVALID_INDEX"

record UniformTypeInfo =
  type' :: GLenum
  componentType :: GLenum
  componentCount :: int
  isSampler :: bool
  isImageType :: bool

record ShaderVariable =
  type :: GLenum
  name :: string
  arraySizes :: "nat list"
  isRowMajorLayout :: bool
  isFragmentInOut :: bool

record LinkedUniform = ShaderVariable +
  typeInfo :: UniformTypeInfo
  isInDefaultBlock :: bool
  getFirstShaderTypeWhereActive :: ShaderType

definition isArray :: "'a ShaderVariable_scheme \<Rightarrow> bool" where
  "isArray variable \<longleftrightarrow> arraySizes variable \<noteq> []"

definition getArraySizeProduct :: "'a ShaderVariable_scheme \<Rightarrow> 32 word" where
  "getArraySizeProduct variable = word_of_nat (prod_list (arraySizes variable))"

text \<open>
  The part of the \<^verbatim>\<open>ProgramVk\<close> object and of its \<^verbatim>\<open>gl::ProgramState\<close> that the
  uniform accessors use: the location table, the linked uniforms, the set of linked
  stages, and per stage the default uniform block and its dirty bit.
\<close>

record ProgramVk =
  getUniformLocations :: "VariableLocation list"
  getUniforms :: "LinkedUniform list"
  linkedShaderStages :: "ShaderType set"
  mDefaultUniformBlocks :: "ShaderType \<Rightarrow> DefaultUniformBlock"
  mDefaultUniformBlocksDirty :: "ShaderType set"

definition getLinkedShaderStages :: "ProgramVk \<Rightarrow> ShaderType list" where
  "getLinkedShaderStages st = filter (\<lambda>s. s \<in> linkedShaderStages st) kAllShaderTypes"

text \<open>
  \<^verbatim>\<open>for (const gl::ShaderType shaderType : glExecutable.getLinkedShaderStages())\<close>:
  the body runs once per linked stage, in order; a failure ends the call.
\<close>

fun for_each_stage ::
  "(ShaderType \<Rightarrow> 's \<Rightarrow> error + 's) \<Rightarrow> ShaderType list \<Rightarrow> 's \<Rightarrow> error + 's"
where
  "for_each_stage body [] st = Inr st"
| "for_each_stage body (shaderType # rest) st =
     (case body shaderType st of
        Inl e \<Rightarrow> Inl e
      | Inr st' \<Rightarrow> for_each_stage body rest st')"

definition setBlock :: "ShaderType \<Rightarrow> MemoryBuffer \<Rightarrow> ProgramVk \<Rightarrow> ProgramVk" where
  "setBlock shaderType buffer st =
     st\<lparr>mDefaultUniformBlocks :=
          (mDefaultUniformBlocks st)
            (shaderType := (mDefaultUniformBlocks st shaderType)\<lparr>uniformData := buffer\<rparr>),
        mDefaultUniformBlocksDirty := insert shaderType (mDefaultUniformBlocksDirty st)\<rparr>"

section \<open>setUniformImpl\<close>

text \<open>The loop over the components of one element on the boolean path.\<close>

function setUniformImpl_components ::
  "int \<Rightarrow> int \<Rightarrow> CType \<Rightarrow> mem \<Rightarrow> int \<Rightarrow> mem \<Rightarrow> int \<Rightarrow> mem"
where
  "setUniformImpl_components c count T v source block dst =
     (if c < count then
        setUniformImpl_components (c + 1) count T v source
          (store32 block (dst + sizeof_T * c)
             (if equals_zero T (load32 v (source + sizeof_T * c)) then GL_FALSE else GL_TRUE))
          dst
      else block)"
  by pat_completeness auto
termination
  by (relation "measure (\<lambda>(c, count, rest). nat (count - c))") auto

declare setUniformImpl_components.simps [simp del]

text \<open>The loop over the elements on the boolean path.\<close>

function setUniformImpl_elements ::
  "int \<Rightarrow> int \<Rightarrow> int \<Rightarrow> CType \<Rightarrow> mem \<Rightarrow> BlockMemberInfo \<Rightarrow> int \<Rightarrow> mem \<Rightarrow> mem"
where
  "setUniformImpl_elements i count components T v layoutInfo initialArrayOffset block =
     (if i < count then
        (let elementOffset = to_int (to_int (i * arrayStride layoutInfo) + initialArrayOffset);
             source = sizeof_T * to_int (i * components)
         in setUniformImpl_elements (i + 1) count components T v layoutInfo initialArrayOffset
              (setUniformImpl_components 0 components T v source block elementOffset))
      else block)"
  by pat_completeness auto
termination
  by (relation "measure (\<lambda>(i, count, rest). nat (count - i))") auto

declare setUniformImpl_elements.simps [simp del]

text \<open>The body of the loop over the linked stages when the types match.\<close>

definition setUniformImpl_matching ::
  "int \<Rightarrow> int \<Rightarrow> mem \<Rightarrow> VariableLocation \<Rightarrow> LinkedUniform \<Rightarrow> ShaderType \<Rightarrow> ProgramVk
   \<Rightarrow> error + ProgramVk"
where
  "setUniformImpl_matching location count v locationInfo linkedUniform shaderType st =
     (let uniformBlock = mDefaultUniformBlocks st shaderType
      in case at_index (uniformLayout uniformBlock) location of
           Inl e \<Rightarrow> Inl e
         | Inr layoutInfo \<Rightarrow>
             if offset layoutInfo = - 1 then Inr st
             else
               (case UpdateDefaultUniformBlock count (arrayIndex locationInfo)
                       (componentCount (typeInfo linkedUniform)) v layoutInfo
                       (uniformData uniformBlock) of
                  Inl e \<Rightarrow> Inl e
                | Inr buffer \<Rightarrow> Inr (setBlock shaderType buffer st)))"

text \<open>The body of the loop over the linked stages when the types differ.\<close>

definition setUniformImpl_coercing ::
  "CType \<Rightarrow> int \<Rightarrow> int \<Rightarrow> mem \<Rightarrow> GLenum \<Rightarrow> VariableLocation \<Rightarrow> LinkedUniform \<Rightarrow> ShaderType
   \<Rightarrow> ProgramVk \<Rightarrow> error + ProgramVk"
where
  "setUniformImpl_coercing T location count v entryPointType locationInfo linkedUniform
       shaderType st =
     (let uniformBlock = mDefaultUniformBlocks st shaderType
      in case at_index (uniformLayout uniformBlock) location of
           Inl e \<Rightarrow> Inl e
         | Inr layoutInfo \<Rightarrow>
             if offset layoutInfo = - 1 then Inr st
             else if type' (typeInfo linkedUniform) \<noteq> VariableBoolVectorType entryPointType
             then Inl AssertionFailure
             else
               (let initialArrayOffset =
                      to_int (to_uint32 (to_uint32 (uint (arrayIndex locationInfo) *
                                arrayStride layoutInfo) + offset layoutInfo));
                    buffer = uniformData uniformBlock
                in Inr (setBlock shaderType
                          (buffer\<lparr>mData :=
                             setUniformImpl_elements 0 count
                               (componentCount (typeInfo linkedUniform)) T v layoutInfo
                               initialArrayOffset (mData buffer)\<rparr>)
                          st)))"

definition setUniformImpl ::
  "CType \<Rightarrow> int \<Rightarrow> int \<Rightarrow> mem \<Rightarrow> GLenum \<Rightarrow> ProgramVk \<Rightarrow> error + ProgramVk"
where
  "setUniformImpl T location count v entryPointType st =
     (case at_index (getUniformLocations st) location of
        Inl e \<Rightarrow> Inl e
      | Inr locationInfo \<Rightarrow>
          (case at_index (getUniforms st) (uint (index locationInfo)) of
             Inl e \<Rightarrow> Inl e
           | Inr linkedUniform \<Rightarrow>
               if isSampler (typeInfo linkedUniform) then Inl AssertionFailure
               else if type' (typeInfo linkedUniform) = entryPointType then
                 for_each_stage
                   (setUniformImpl_matching location count v locationInfo linkedUniform)
                   (getLinkedShaderStages st) st
               else
                 for_each_stage
                   (setUniformImpl_coercing T location count v entryPointType locationInfo
                      linkedUniform)
                   (getLinkedShaderStages st) st))"

definition setUniform1iv :: "int \<Rightarrow> int \<Rightarrow> mem \<Rightarrow> ProgramVk \<Rightarrow> error + ProgramVk" where
  "setUniform1iv location count v st =
     (case at_index (getUniformLocations st) location of
        Inl e \<Rightarrow> Inl e
      | Inr locationInfo \<Rightarrow>
          (case at_index (getUniforms st) (uint (index locationInfo)) of
             Inl e \<Rightarrow> Inl e
           | Inr linkedUniform \<Rightarrow>
               if isSampler (typeInfo linkedUniform) then Inr st
               else setUniformImpl GLint location count v GL_INT st))"

definition setUniform4iv :: "int \<Rightarrow> int \<Rightarrow> mem \<Rightarrow> ProgramVk \<Rightarrow> error + ProgramVk" where
  "setUniform4iv location count v st = setUniformImpl GLint location count v GL_INT_VEC4 st"

definition setUniform4fv :: "int \<Rightarrow> int \<Rightarrow> mem \<Rightarrow> ProgramVk \<Rightarrow> error + ProgramVk" where
  "setUniform4fv location count v st = setUniformImpl GLfloat location count v GL_FLOAT_VEC4 st"

definition setUniform4uiv :: "int \<Rightarrow> int \<Rightarrow> mem \<Rightarrow> ProgramVk \<Rightarrow> error + ProgramVk" where
  "setUniform4uiv location count v st =
     setUniformImpl GLuint location count v GL_UNSIGNED_INT_VEC4 st"

section \<open>setUniformMatrixfv\<close>

text \<open>
  \<^verbatim>\<open>SetFloatUniformMatrixGLSL<cols, rows>::Run\<close> is defined outside ProgramVk.cpp
  and is a parameter here: given the array index, the element count, the count,
  the transpose flag, the client values, and the block memory with the address
  \<^verbatim>\<open>data() + layoutInfo.offset\<close>, it returns the block memory it leaves.
\<close>

type_synonym matrix_writer =
  "32 word \<Rightarrow> 32 word \<Rightarrow> int \<Rightarrow> bool \<Rightarrow> mem \<Rightarrow> mem \<Rightarrow> int \<Rightarrow> mem"

definition setUniformMatrixfv_stage ::
  "matrix_writer \<Rightarrow> int \<Rightarrow> int \<Rightarrow> bool \<Rightarrow> mem \<Rightarrow> VariableLocation \<Rightarrow> LinkedUniform
   \<Rightarrow> ShaderType \<Rightarrow> ProgramVk \<Rightarrow> error + ProgramVk"
where
  "setUniformMatrixfv_stage Run location count transposed val locationInfo linkedUniform
       shaderType st =
     (let uniformBlock = mDefaultUniformBlocks st shaderType
      in case at_index (uniformLayout uniformBlock) location of
           Inl e \<Rightarrow> Inl e
         | Inr layoutInfo \<Rightarrow>
             if offset layoutInfo = - 1 then Inr st
             else
               (let buffer = uniformData uniformBlock
                in Inr (setBlock shaderType
                          (buffer\<lparr>mData :=
                             Run (arrayIndex locationInfo) (getArraySizeProduct linkedUniform)
                               count transposed val (mData buffer) (offset layoutInfo)\<rparr>)
                          st)))"

definition setUniformMatrixfv ::
  "matrix_writer \<Rightarrow> int \<Rightarrow> int \<Rightarrow> bool \<Rightarrow> mem \<Rightarrow> ProgramVk \<Rightarrow> error + ProgramVk"
where
  "setUniformMatrixfv Run location count transposed val st =
     (case at_index (getUniformLocations st) location of
        Inl e \<Rightarrow> Inl e
      | Inr locationInfo \<Rightarrow>
          (case at_index (getUniforms st) (uint (index locationInfo)) of
             Inl e \<Rightarrow> Inl e
           | Inr linkedUniform \<Rightarrow>
               for_each_stage
                 (setUniformMatrixfv_stage Run location count transposed val locationInfo
                    linkedUniform)
                 (getLinkedShaderStages st) st))"

section \<open>getUniformImpl\<close>

text \<open>
  \<^verbatim>\<open>GetMatrixUniform\<close> is defined outside ProgramVk.cpp and is a parameter here:
  given the type, the destination, the block memory with the address of the
  element, and the transpose flag, it returns the destination it leaves.
\<close>

type_synonym matrix_reader = "GLenum \<Rightarrow> mem \<Rightarrow> mem \<Rightarrow> int \<Rightarrow> bool \<Rightarrow> mem"

definition getUniformImpl ::
  "matrix_reader \<Rightarrow> int \<Rightarrow> mem \<Rightarrow> GLenum \<Rightarrow> ProgramVk \<Rightarrow> error + mem"
where
  "getUniformImpl GetMatrixUniform location v entryPointType st =
     (case at_index (getUniformLocations st) location of
        Inl e \<Rightarrow> Inl e
      | Inr locationInfo \<Rightarrow>
          (case at_index (getUniforms st) (uint (index locationInfo)) of
             Inl e \<Rightarrow> Inl e
           | Inr linkedUniform \<Rightarrow>
               if isSampler (typeInfo linkedUniform) \<or> isImageType (typeInfo linkedUniform)
               then Inl AssertionFailure
               else
                 (let shaderType = getFirstShaderTypeWhereActive linkedUniform
                  in if shaderType = InvalidEnum then Inl AssertionFailure
                     else
                       (let uniformBlock = mDefaultUniformBlocks st shaderType
                        in case at_index (uniformLayout uniformBlock) location of
                             Inl e \<Rightarrow> Inl e
                           | Inr layoutInfo \<Rightarrow>
                               if \<not> (componentType (typeInfo linkedUniform) = entryPointType \<or>
                                     componentType (typeInfo linkedUniform) =
                                       VariableBoolVectorType entryPointType)
                               then Inl AssertionFailure
                               else if IsMatrixType (type linkedUniform) then
                                 Inr (GetMatrixUniform (type linkedUniform) v
                                        (mData (uniformData uniformBlock))
                                        (offset layoutInfo +
                                           to_uint32 (uint (arrayIndex locationInfo) *
                                              arrayStride layoutInfo))
                                        False)
                               else
                                 ReadFromDefaultUniformBlock
                                   (componentCount (typeInfo linkedUniform))
                                   (arrayIndex locationInfo) v layoutInfo
                                   (uniformData uniformBlock)))))"

definition getUniformfv :: "matrix_reader \<Rightarrow> int \<Rightarrow> mem \<Rightarrow> ProgramVk \<Rightarrow> error + mem" where
  "getUniformfv GetMatrixUniform location params st =
     getUniformImpl GetMatrixUniform location params GL_FLOAT st"

definition getUniformiv :: "matrix_reader \<Rightarrow> int \<Rightarrow> mem \<Rightarrow> ProgramVk \<Rightarrow> error + mem" where
  "getUniformiv GetMatrixUniform location params st =
     getUniformImpl GetMatrixUniform location params GL_INT st"

section \<open>initDefaultUniformLayoutMapping\<close>

text \<open>
  Modelled from the spec: \<^verbatim>\<open>gl::StripLastArrayIndex\<close> is defined outside
  ProgramVk.cpp. The spec has the trailing \<^verbatim>\<open>[0]\<close>-style suffix removed before
  the lookup: a name that ends in a closing bracket loses everything from its last
  opening bracket on, any other name is left as it is.
\<close>

definition StripLastArrayIndex :: "string \<Rightarrow> string" where
  "StripLastArrayIndex nm =
     (if nm \<noteq> [] \<and> last nm = CHR '']'' \<and> CHR ''['' \<in> set nm
      then rev (tl (dropWhile (\<lambda>c. c \<noteq> CHR ''['') (rev nm)))
      else nm)"

type_synonym BlockLayoutMap = "string \<rightharpoonup> BlockMemberInfo"

text \<open>
  The loop that looks the name up in every linked stage; the state of the loop is
  the flag \<^verbatim>\<open>found\<close> and the per-stage record \<^verbatim>\<open>layoutInfo\<close>.
\<close>

fun initDefaultUniformLayoutMapping_find ::
  "(ShaderType \<Rightarrow> BlockLayoutMap) \<Rightarrow> string \<Rightarrow> ShaderType list
   \<Rightarrow> bool \<times> (ShaderType \<Rightarrow> BlockMemberInfo) \<Rightarrow> bool \<times> (ShaderType \<Rightarrow> BlockMemberInfo)"
where
  "initDefaultUniformLayoutMapping_find layoutMap uniformName [] (found, layoutInfo) =
     (found, layoutInfo)"
| "initDefaultUniformLayoutMapping_find layoutMap uniformName (shaderType # rest)
       (found, layoutInfo) =
     (case layoutMap shaderType uniformName of
        None \<Rightarrow> initDefaultUniformLayoutMapping_find layoutMap uniformName rest (found, layoutInfo)
      | Some info \<Rightarrow>
          initDefaultUniformLayoutMapping_find layoutMap uniformName rest
            (True, layoutInfo(shaderType := info)))"

text \<open>The first part of the body of the loop over the locations: the record of one location.\<close>

definition initDefaultUniformLayoutMapping_location ::
  "(ShaderType \<Rightarrow> BlockLayoutMap) \<Rightarrow> ProgramVk \<Rightarrow> VariableLocation
   \<Rightarrow> error + (ShaderType \<Rightarrow> BlockMemberInfo)"
where
  "initDefaultUniformLayoutMapping_location layoutMap st location =
     (let layoutInfo = (\<lambda>shaderType. kDefaultBlockMemberInfo)
      in if used location \<and> \<not> ignored location then
           (case at_index (getUniforms st) (uint (index location)) of
              Inl e \<Rightarrow> Inl e
            | Inr uniform \<Rightarrow>
                if isInDefaultBlock uniform \<and> \<not> isSampler (typeInfo uniform) \<and>
                   \<not> isImageType (typeInfo uniform) \<and> \<not> isFragmentInOut uniform
                then
                  (if isArray uniform \<and>
                      length (StripLastArrayIndex (name uniform)) = length (name uniform)
                   then Inl AssertionFailure
                   else
                     (let uniformName =
                            (if isArray uniform then StripLastArrayIndex (name uniform)
                             else name uniform);
                          result = initDefaultUniformLayoutMapping_find layoutMap uniformName
                                     (getLinkedShaderStages st) (False, layoutInfo)
                      in if fst result then Inr (snd result) else Inl AssertionFailure))
                else Inr layoutInfo)
         else Inr layoutInfo)"

text \<open>The second part of the body: one \<^verbatim>\<open>push_back\<close> per linked stage.\<close>

fun initDefaultUniformLayoutMapping_push ::
  "(ShaderType \<Rightarrow> BlockMemberInfo) \<Rightarrow> ShaderType list \<Rightarrow> ProgramVk \<Rightarrow> ProgramVk"
where
  "initDefaultUniformLayoutMapping_push layoutInfo [] st = st"
| "initDefaultUniformLayoutMapping_push layoutInfo (shaderType # rest) st =
     initDefaultUniformLayoutMapping_push layoutInfo rest
       (st\<lparr>mDefaultUniformBlocks :=
             (mDefaultUniformBlocks st)
               (shaderType := (mDefaultUniformBlocks st shaderType)
                  \<lparr>uniformLayout :=
                     uniformLayout (mDefaultUniformBlocks st shaderType) @
                       [layoutInfo shaderType]\<rparr>)\<rparr>)"

fun initDefaultUniformLayoutMapping_locations ::
  "(ShaderType \<Rightarrow> BlockLayoutMap) \<Rightarrow> VariableLocation list \<Rightarrow> ProgramVk \<Rightarrow> error + ProgramVk"
where
  "initDefaultUniformLayoutMapping_locations layoutMap [] st = Inr st"
| "initDefaultUniformLayoutMapping_locations layoutMap (location # rest) st =
     (case initDefaultUniformLayoutMapping_location layoutMap st location of
        Inl e \<Rightarrow> Inl e
      | Inr layoutInfo \<Rightarrow>
          initDefaultUniformLayoutMapping_locations layoutMap rest
            (initDefaultUniformLayoutMapping_push layoutInfo (getLinkedShaderStages st) st))"

definition initDefaultUniformLayoutMapping ::
  "(ShaderType \<Rightarrow> BlockLayoutMap) \<Rightarrow> ProgramVk \<Rightarrow> error + ProgramVk"
where
  "initDefaultUniformLayoutMapping layoutMap st =
     initDefaultUniformLayoutMapping_locations layoutMap (getUniformLocations st) st"

section \<open>The layout encoder\<close>

text \<open>
  Modelled from the spec: \<^verbatim>\<open>sh::Std140BlockEncoder\<close> and
  \<^verbatim>\<open>sh::GetActiveUniformBlockInfo\<close> are defined outside ProgramVk.cpp. After the
  spec's Layout Encoder: a running byte cursor; a scalar aligns to its size, a
  vector to 2 or 4 scalar units (3 components align as 4), array elements and
  matrix columns (rows, when row-major) to 16 bytes; the record of a variable is
  its aligned offset with its strides; the cursor then advances by the array
  stride times the array length, or by the matrix stride times the number of
  columns (rows), or by the size of the scalar or vector. An opaque-typed variable
  is skipped: it gets no record and no space.
\<close>

definition kBytesPerComponent :: nat where
  "kBytesPerComponent = 4"

fun VariableComponentCount :: "GLenum \<Rightarrow> nat" where
  "VariableComponentCount GL_FLOAT_VEC2 = 2"
| "VariableComponentCount GL_INT_VEC2 = 2"
| "VariableComponentCount GL_UNSIGNED_INT_VEC2 = 2"
| "VariableComponentCount GL_BOOL_VEC2 = 2"
| "VariableComponentCount GL_FLOAT_VEC3 = 3"
| "VariableComponentCount GL_INT_VEC3 = 3"
| "VariableComponentCount GL_UNSIGNED_INT_VEC3 = 3"
| "VariableComponentCount GL_BOOL_VEC3 = 3"
| "VariableComponentCount GL_FLOAT_VEC4 = 4"
| "VariableComponentCount GL_INT_VEC4 = 4"
| "VariableComponentCount GL_UNSIGNED_INT_VEC4 = 4"
| "VariableComponentCount GL_BOOL_VEC4 = 4"
| "VariableComponentCount _ = 1"

fun VariableColumnCount :: "GLenum \<Rightarrow> nat" where
  "VariableColumnCount GL_FLOAT_MAT2 = 2"
| "VariableColumnCount GL_FLOAT_MAT2x3 = 2"
| "VariableColumnCount GL_FLOAT_MAT2x4 = 2"
| "VariableColumnCount GL_FLOAT_MAT3 = 3"
| "VariableColumnCount GL_FLOAT_MAT3x2 = 3"
| "VariableColumnCount GL_FLOAT_MAT3x4 = 3"
| "VariableColumnCount GL_FLOAT_MAT4 = 4"
| "VariableColumnCount GL_FLOAT_MAT4x2 = 4"
| "VariableColumnCount GL_FLOAT_MAT4x3 = 4"
| "VariableColumnCount _ = 0"

fun VariableRowCount :: "GLenum \<Rightarrow> nat" where
  "VariableRowCount GL_FLOAT_MAT2 = 2"
| "VariableRowCount GL_FLOAT_MAT3x2 = 2"
| "VariableRowCount GL_FLOAT_MAT4x2 = 2"
| "VariableRowCount GL_FLOAT_MAT3 = 3"
| "VariableRowCount GL_FLOAT_MAT2x3 = 3"
| "VariableRowCount GL_FLOAT_MAT4x3 = 3"
| "VariableRowCount GL_FLOAT_MAT4 = 4"
| "VariableRowCount GL_FLOAT_MAT2x4 = 4"
| "VariableRowCount GL_FLOAT_MAT3x4 = 4"
| "VariableRowCount _ = 0"

definition MatrixRegisterCount :: "GLenum \<Rightarrow> bool \<Rightarrow> nat" where
  "MatrixRegisterCount t isRowMajorMatrix' =
     (if isRowMajorMatrix' then VariableRowCount t else VariableColumnCount t)"

definition ComponentAlignment :: "nat \<Rightarrow> nat" where
  "ComponentAlignment numComponents = (if numComponents = 3 then 4 else numComponents)"

definition roundUp :: "nat \<Rightarrow> nat \<Rightarrow> nat" where
  "roundUp x alignment = ((x + alignment - 1) div alignment) * alignment"

text \<open>The aligned cursor, the array stride and the matrix stride of a variable, in bytes.\<close>

definition Std140BlockEncoder_getBlockLayoutInfo ::
  "GLenum \<Rightarrow> nat list \<Rightarrow> bool \<Rightarrow> nat \<Rightarrow> nat \<times> nat \<times> nat"
where
  "Std140BlockEncoder_getBlockLayoutInfo t sizes isRowMajorMatrix' mCurrentOffset =
     (if IsMatrixType t then
        (roundUp mCurrentOffset 16,
         (if sizes \<noteq> [] then 16 * MatrixRegisterCount t isRowMajorMatrix' else 0),
         16)
      else if sizes \<noteq> [] then (roundUp mCurrentOffset 16, 16, 0)
      else
        (roundUp mCurrentOffset
           (kBytesPerComponent * ComponentAlignment (VariableComponentCount t)), 0, 0))"

definition Std140BlockEncoder_advanceOffset ::
  "GLenum \<Rightarrow> nat list \<Rightarrow> bool \<Rightarrow> nat \<Rightarrow> nat \<Rightarrow> nat \<Rightarrow> nat"
where
  "Std140BlockEncoder_advanceOffset t sizes isRowMajorMatrix' arrayStride' matrixStride'
       mCurrentOffset =
     (if sizes \<noteq> [] then mCurrentOffset + arrayStride' * prod_list sizes
      else if IsMatrixType t
      then mCurrentOffset + matrixStride' * MatrixRegisterCount t isRowMajorMatrix'
      else mCurrentOffset + kBytesPerComponent * VariableComponentCount t)"

text \<open>
  \<^verbatim>\<open>VulkanDefaultBlockEncoder::advanceOffset\<close>, from ProgramVk.cpp: the std140
  encoder, except that an opaque type leaves the cursor where it is.
\<close>

definition VulkanDefaultBlockEncoder_advanceOffset ::
  "GLenum \<Rightarrow> nat list \<Rightarrow> bool \<Rightarrow> nat \<Rightarrow> nat \<Rightarrow> nat \<Rightarrow> nat"
where
  "VulkanDefaultBlockEncoder_advanceOffset t sizes isRowMajorMatrix' arrayStride' matrixStride'
       mCurrentOffset =
     (if IsOpaqueType t then mCurrentOffset
      else Std140BlockEncoder_advanceOffset t sizes isRowMajorMatrix' arrayStride' matrixStride'
             mCurrentOffset)"

fun GetActiveUniformBlockInfo ::
  "ShaderVariable list \<Rightarrow> nat \<times> BlockLayoutMap \<Rightarrow> nat \<times> BlockLayoutMap"
where
  "GetActiveUniformBlockInfo [] (mCurrentOffset, blockInfoOut) = (mCurrentOffset, blockInfoOut)"
| "GetActiveUniformBlockInfo (uniform # rest) (mCurrentOffset, blockInfoOut) =
     (if IsOpaqueType (type uniform)
      then GetActiveUniformBlockInfo rest (mCurrentOffset, blockInfoOut)
      else
        (case Std140BlockEncoder_getBlockLayoutInfo (type uniform) (arraySizes uniform)
                (isRowMajorLayout uniform) mCurrentOffset of
           (aligned, arrayStride', matrixStride') \<Rightarrow>
             GetActiveUniformBlockInfo rest
               (VulkanDefaultBlockEncoder_advanceOffset (type uniform) (arraySizes uniform)
                  (isRowMajorLayout uniform) arrayStride' matrixStride' aligned,
                blockInfoOut(name uniform \<mapsto>
                  \<lparr>offset = int aligned, arrayStride = int arrayStride',
                   matrixStride = int matrixStride',
                   isRowMajorMatrix = isRowMajorLayout uniform\<rparr>))))"

text \<open>
  \<^verbatim>\<open>InitDefaultUniformBlock\<close>, from ProgramVk.cpp; the two out-parameters are the
  result. An empty list leaves the map as it was passed in.
\<close>

definition InitDefaultUniformBlock ::
  "ShaderVariable list \<Rightarrow> BlockLayoutMap \<Rightarrow> BlockLayoutMap \<times> nat"
where
  "InitDefaultUniformBlock uniforms blockLayoutMapOut =
     (if uniforms = [] then (blockLayoutMapOut, 0)
      else
        (case GetActiveUniformBlockInfo uniforms (0, blockLayoutMapOut) of
           (blockSize, blockLayoutMap) \<Rightarrow>
             if blockSize = 0 then (blockLayoutMap, 0) else (blockLayoutMap, blockSize)))"

section \<open>The matrix helpers\<close>

text \<open>
  Modelled from the spec: \<^verbatim>\<open>SetFloatUniformMatrixGLSL<cols, rows>::Run\<close> and
  \<^verbatim>\<open>GetMatrixUniform\<close> are defined outside ProgramVk.cpp. After the spec's
  Layout Encoder and Read/Write Engine: in the block a matrix column is padded to
  16 bytes, so an array element of \<open>cols\<close> columns takes \<open>16 * cols\<close> bytes. The
  write is given the address \<^verbatim>\<open>data() + layoutInfo.offset\<close>, the array index, the
  array length and the count; it stores the entries of as many matrices as the
  count allows inside the array, entry \<open>(col, row)\<close> at
  \<open>16 * col + 4 * row\<close> of its element, taken from the client array in its own
  order (column after column, or row after row for a transposed write). The spec
  says nothing about the padding of a column; it is left as it was. The un-pack
  routine restores the client order: it reads entry \<open>(col, row)\<close> of the element
  at the given address into position \<open>col * rows + row\<close> of the destination.
\<close>

definition SetFloatUniformMatrixGLSL_Run :: "int \<Rightarrow> int \<Rightarrow> matrix_writer" where
  "SetFloatUniformMatrixGLSL_Run cols rows arrayElementOffset elementCount countIn transposed
       val targetData target =
     (let count = min (to_uint32 (uint elementCount - uint arrayElementOffset)) (to_uint32 countIn);
          matrixSize = 16 * cols;
          first = target + uint arrayElementOffset * matrixSize
      in (\<lambda>a. if first \<le> a \<and> a < first + count * matrixSize \<and> (a - first) mod 16 < 4 * rows
              then (let i = (a - first) div matrixSize;
                        col = ((a - first) mod matrixSize) div 16;
                        row = ((a - first) mod 16) div 4
                    in val (4 * (i * (cols * rows) +
                                  (if transposed then row * cols + col else col * rows + row)) +
                            (a - first) mod 4))
              else targetData a))"

definition GetMatrixUniform :: matrix_reader where
  "GetMatrixUniform t dataOut source p transposed =
     (let columns = int (VariableColumnCount t);
          rows = int (VariableRowCount t)
      in (\<lambda>a. if 0 \<le> a \<and> a < 4 * (columns * rows)
              then (let col = (a div 4) div rows;
                        row = (a div 4) mod rows
                    in source (p + 4 * (if transposed then row * 4 + col else col * 4 + row) +
                               a mod 4))
              else dataOut a))"

text \<open>
  Two of the entry points of ProgramVk.cpp that instantiate
  \<^verbatim>\<open>setUniformMatrixfv<cols, rows>\<close>.
\<close>

definition setUniformMatrix2fv ::
  "int \<Rightarrow> int \<Rightarrow> bool \<Rightarrow> mem \<Rightarrow> ProgramVk \<Rightarrow> error + ProgramVk"
where
  "setUniformMatrix2fv location count transposed val st =
     setUniformMatrixfv (SetFloatUniformMatrixGLSL_Run 2 2) location count transposed val st"

definition setUniformMatrix2x3fv ::
  "int \<Rightarrow> int \<Rightarrow> bool \<Rightarrow> mem \<Rightarrow> ProgramVk \<Rightarrow> error + ProgramVk"
where
  "setUniformMatrix2x3fv location count transposed val st =
     setUniformMatrixfv (SetFloatUniformMatrixGLSL_Run 2 3) location count transposed val st"

section \<open>Notions used to state the properties\<close>

text \<open>
  The three loops over the linked stages (the two of \<^verbatim>\<open>setUniformImpl\<close> and the one
  of \<^verbatim>\<open>setUniformMatrixfv\<close>) have one shape: fetch the stage's record for the
  location, skip the stage when its offset is \<open>-1\<close>, else write into the stage's
  buffer and set the stage's dirty bit. \<open>updateStage\<close> is that shape with the write
  as a parameter; the bodies above are shown to be instances of it.
\<close>

definition updateStage ::
  "int \<Rightarrow> (BlockMemberInfo \<Rightarrow> MemoryBuffer \<Rightarrow> error + MemoryBuffer) \<Rightarrow> ShaderType \<Rightarrow> ProgramVk
   \<Rightarrow> error + ProgramVk"
where
  "updateStage location write shaderType st =
     (case at_index (uniformLayout (mDefaultUniformBlocks st shaderType)) location of
        Inl e \<Rightarrow> Inl e
      | Inr layoutInfo \<Rightarrow>
          if offset layoutInfo = - 1 then Inr st
          else
            (case write layoutInfo (uniformData (mDefaultUniformBlocks st shaderType)) of
               Inl e \<Rightarrow> Inl e
             | Inr buffer \<Rightarrow> Inr (setBlock shaderType buffer st)))"

text \<open>
  A write to a location touches a stage when the stage is linked and its record
  for the location exists and is not the \<open>-1\<close> sentinel: these are the stages
  whose buffer the write reaches.
\<close>

definition layoutUsed :: "ProgramVk \<Rightarrow> int \<Rightarrow> ShaderType \<Rightarrow> bool" where
  "layoutUsed st location shaderType =
     (case at_index (uniformLayout (mDefaultUniformBlocks st shaderType)) location of
        Inl e \<Rightarrow> False
      | Inr layoutInfo \<Rightarrow> offset layoutInfo \<noteq> - 1)"

definition touchesStage :: "ProgramVk \<Rightarrow> int \<Rightarrow> ShaderType \<Rightarrow> bool" where
  "touchesStage st location shaderType \<longleftrightarrow>
     shaderType \<in> set (getLinkedShaderStages st) \<and> layoutUsed st location shaderType"

text \<open>
  The \<open>n\<close> elements from an array index on lie inside a buffer, and the buffer is
  smaller than 2 GiB: the last of them ends at or before the buffer's size.
\<close>

definition elementsInBlock ::
  "BlockMemberInfo \<Rightarrow> 32 word \<Rightarrow> int \<Rightarrow> int \<Rightarrow> MemoryBuffer \<Rightarrow> bool"
where
  "elementsInBlock layoutInfo ai n components buffer \<longleftrightarrow>
     0 \<le> offset layoutInfo \<and> 0 \<le> arrayStride layoutInfo \<and>
     offset layoutInfo + (uint ai + n - 1) * arrayStride layoutInfo + sizeof_T * components
       \<le> mSize buffer \<and>
     mSize buffer < 2 ^ 31"

text \<open>
  The name under which \<^verbatim>\<open>initDefaultUniformLayoutMapping\<close> looks a variable up:
  the name of an array without its last array index, any other name as it is.
\<close>

definition lookupName :: "LinkedUniform \<Rightarrow> string" where
  "lookupName uniform =
     (if isArray uniform then StripLastArrayIndex (name uniform) else name uniform)"

section \<open>Concrete inputs\<close>

text \<open>The inputs at which the theorems below are evaluated.\<close>

definition zero_mem :: mem where
  "zero_mem = (\<lambda>a. 0)"

text \<open>A record at offset 0 whose elements are 16 bytes apart.\<close>

definition stride16_record :: BlockMemberInfo where
  "stride16_record = \<lparr>offset = 0, arrayStride = 16, matrixStride = 0, isRowMajorMatrix = False\<rparr>"

text \<open>
  A buffer of 2 GiB and 16 bytes that holds \<open>0x55\<close> everywhere; the memory in front
  of it holds \<open>0xAA\<close>.
\<close>

definition huge_buffer :: MemoryBuffer where
  "huge_buffer = \<lparr>mData = (\<lambda>a. if a < 0 then 0xAA else 0x55), mSize = 2 ^ 31 + 16\<rparr>"

text \<open>A buffer of 64 bytes whose byte at address \<open>a\<close> is \<open>a\<close>.\<close>

definition counting_buffer :: MemoryBuffer where
  "counting_buffer = \<lparr>mData = (\<lambda>a. word_of_int a), mSize = 64\<rparr>"

text \<open>
  A program with a vertex and a fragment stage and five uniforms: a \<^verbatim>\<open>vec4\<close> used
  in both stages, a \<^verbatim>\<open>bvec4\<close> array of two elements used in the fragment stage, a
  sampler, an image, and an \<^verbatim>\<open>ivec4\<close> array of two elements used in the vertex
  stage. Each array has one location per element.
\<close>

definition color_uniform :: LinkedUniform where
  "color_uniform =
     \<lparr>type = GL_FLOAT_VEC4, name = ''color'', arraySizes = [], isRowMajorLayout = False,
      isFragmentInOut = False,
      typeInfo = \<lparr>type' = GL_FLOAT_VEC4, componentType = GL_FLOAT, componentCount = 4,
                  isSampler = False, isImageType = False\<rparr>,
      isInDefaultBlock = True, getFirstShaderTypeWhereActive = Vertex\<rparr>"

definition flags_uniform :: LinkedUniform where
  "flags_uniform =
     \<lparr>type = GL_BOOL_VEC4, name = ''flags[0]'', arraySizes = [2], isRowMajorLayout = False,
      isFragmentInOut = False,
      typeInfo = \<lparr>type' = GL_BOOL_VEC4, componentType = GL_BOOL, componentCount = 4,
                  isSampler = False, isImageType = False\<rparr>,
      isInDefaultBlock = True, getFirstShaderTypeWhereActive = Fragment\<rparr>"

definition tex_uniform :: LinkedUniform where
  "tex_uniform =
     \<lparr>type = GL_SAMPLER_2D, name = ''tex'', arraySizes = [], isRowMajorLayout = False,
      isFragmentInOut = False,
      typeInfo = \<lparr>type' = GL_SAMPLER_2D, componentType = GL_INT, componentCount = 1,
                  isSampler = True, isImageType = False\<rparr>,
      isInDefaultBlock = True, getFirstShaderTypeWhereActive = Fragment\<rparr>"

definition img_uniform :: LinkedUniform where
  "img_uniform =
     \<lparr>type = GL_IMAGE_2D, name = ''img'', arraySizes = [], isRowMajorLayout = False,
      isFragmentInOut = False,
      typeInfo = \<lparr>type' = GL_IMAGE_2D, componentType = GL_INT, componentCount = 1,
                  isSampler = False, isImageType = True\<rparr>,
      isInDefaultBlock = True, getFirstShaderTypeWhereActive = Fragment\<rparr>"

definition offsets_uniform :: LinkedUniform where
  "offsets_uniform =
     \<lparr>type = GL_INT_VEC4, name = ''offsets[0]'', arraySizes = [2], isRowMajorLayout = False,
      isFragmentInOut = False,
      typeInfo = \<lparr>type' = GL_INT_VEC4, componentType = GL_INT, componentCount = 4,
                  isSampler = False, isImageType = False\<rparr>,
      isInDefaultBlock = True, getFirstShaderTypeWhereActive = Vertex\<rparr>"

definition example_locations :: "VariableLocation list" where
  "example_locations =
     [\<lparr>arrayIndex = 0, index = 0, ignored = False\<rparr>,
      \<lparr>arrayIndex = 0, index = 1, ignored = False\<rparr>,
      \<lparr>arrayIndex = 1, index = 1, ignored = False\<rparr>,
      \<lparr>arrayIndex = 0, index = 2, ignored = False\<rparr>,
      \<lparr>arrayIndex = 0, index = 3, ignored = False\<rparr>,
      \<lparr>arrayIndex = 0, index = 4, ignored = False\<rparr>,
      \<lparr>arrayIndex = 1, index = 4, ignored = False\<rparr>]"

definition color_record :: BlockMemberInfo where
  "color_record = \<lparr>offset = 0, arrayStride = 0, matrixStride = 0, isRowMajorMatrix = False\<rparr>"

definition array_record :: BlockMemberInfo where
  "array_record = \<lparr>offset = 16, arrayStride = 16, matrixStride = 0, isRowMajorMatrix = False\<rparr>"

definition empty_block :: DefaultUniformBlock where
  "empty_block = \<lparr>uniformData = \<lparr>mData = zero_mem, mSize = 0\<rparr>, uniformLayout = []\<rparr>"

text \<open>The program before its layout table is built: no records, no buffers.\<close>

definition unlinked_program :: ProgramVk where
  "unlinked_program =
     \<lparr>getUniformLocations = example_locations,
      getUniforms = [color_uniform, flags_uniform, tex_uniform, img_uniform, offsets_uniform],
      linkedShaderStages = {Vertex, Fragment},
      mDefaultUniformBlocks = (\<lambda>shaderType. empty_block),
      mDefaultUniformBlocksDirty = {}\<rparr>"

text \<open>
  The linked program: each stage has a zeroed buffer of 48 bytes; the vertex stage
  holds \<^verbatim>\<open>color\<close> at 0 and \<^verbatim>\<open>offsets\<close> at 16, the fragment stage \<^verbatim>\<open>color\<close> at
  0 and \<^verbatim>\<open>flags\<close> at 16.
\<close>

definition vertex_block :: DefaultUniformBlock where
  "vertex_block =
     \<lparr>uniformData = \<lparr>mData = zero_mem, mSize = 48\<rparr>,
      uniformLayout =
        [color_record, kDefaultBlockMemberInfo, kDefaultBlockMemberInfo,
         kDefaultBlockMemberInfo, kDefaultBlockMemberInfo, array_record, array_record]\<rparr>"

definition fragment_block :: DefaultUniformBlock where
  "fragment_block =
     \<lparr>uniformData = \<lparr>mData = zero_mem, mSize = 48\<rparr>,
      uniformLayout =
        [color_record, array_record, array_record,
         kDefaultBlockMemberInfo, kDefaultBlockMemberInfo, kDefaultBlockMemberInfo,
         kDefaultBlockMemberInfo]\<rparr>"

definition example_program :: ProgramVk where
  "example_program =
     \<lparr>getUniformLocations = example_locations,
      getUniforms = [color_uniform, flags_uniform, tex_uniform, img_uniform, offsets_uniform],
      linkedShaderStages = {Vertex, Fragment},
      mDefaultUniformBlocks =
        (\<lambda>shaderType. if shaderType = Vertex then vertex_block
                      else if shaderType = Fragment then fragment_block else empty_block),
      mDefaultUniformBlocksDirty = {}\<rparr>"

text \<open>The per-stage layout maps of the example, as the encoder gives them.\<close>

definition example_layoutMap :: "ShaderType \<Rightarrow> BlockLayoutMap" where
  "example_layoutMap shaderType =
     (if shaderType = Vertex then [''color'' \<mapsto> color_record, ''offsets'' \<mapsto> array_record]
      else if shaderType = Fragment then [''color'' \<mapsto> color_record, ''flags'' \<mapsto> array_record]
      else Map.empty)"

text \<open>Client arrays: four 32-bit values each, and eight for a write of two elements.\<close>

definition values_0_5_m3_0 :: mem where
  "values_0_5_m3_0 = store32 (store32 (store32 (store32 zero_mem 0 0) 4 5) 8 (- 3)) 12 0"

text \<open>
  The floats \<open>0.0\<close>, \<open>5.0\<close>, \<open>-3.0\<close> and \<open>-0.0\<close> in IEEE 754 single precision.
\<close>

definition values_0f_5f_m3f_m0f :: mem where
  "values_0f_5f_m3f_m0f =
     store32 (store32 (store32 (store32 zero_mem 0 0) 4 0x40A00000) 8 0xC0400000) 12 0x80000000"

definition values_1_2_3_4 :: mem where
  "values_1_2_3_4 = store32 (store32 (store32 (store32 zero_mem 0 1) 4 2) 8 3) 12 4"

definition values_eight :: mem where
  "values_eight = (\<lambda>a. if 0 \<le> a \<and> a < 32 then 7 else 0)"

text \<open>The matrix helpers are parameters; these stand-ins leave the memory as it is.\<close>

definition no_matrix_reader :: matrix_reader where
  "no_matrix_reader t dst block element transposed = dst"

definition no_matrix_writer :: matrix_writer where
  "no_matrix_writer ai elements n transposed val block target = block"

text \<open>
  Inputs for the array write: two elements of 16 bytes that hold 1 and 2, three
  elements that hold 7, a zeroed buffer of 32 bytes, a buffer of 128 bytes that
  holds \<open>0xEE\<close>, and a record at offset 0 whose elements are 32 bytes apart.
\<close>

definition values_two_elements :: mem where
  "values_two_elements = (\<lambda>a. if 0 \<le> a \<and> a < 16 then 1 else if a < 32 then 2 else 0)"

definition values_three_elements :: mem where
  "values_three_elements = (\<lambda>a. if 0 \<le> a \<and> a < 48 then 7 else 0)"

definition two_element_buffer :: MemoryBuffer where
  "two_element_buffer = \<lparr>mData = zero_mem, mSize = 32\<rparr>"

definition marked_buffer :: MemoryBuffer where
  "marked_buffer = \<lparr>mData = (\<lambda>a. 0xEE), mSize = 128\<rparr>"

definition stride32_record :: BlockMemberInfo where
  "stride32_record = \<lparr>offset = 0, arrayStride = 32, matrixStride = 0, isRowMajorMatrix = False\<rparr>"

text \<open>
  A program with one fragment in/out variable and no layout for it, and the
  shader variables of the example for the encoder.
\<close>

definition inout_uniform :: LinkedUniform where
  "inout_uniform =
     \<lparr>type = GL_FLOAT_VEC4, name = ''lastColor'', arraySizes = [], isRowMajorLayout = False,
      isFragmentInOut = True,
      typeInfo = \<lparr>type' = GL_FLOAT_VEC4, componentType = GL_FLOAT, componentCount = 4,
                  isSampler = False, isImageType = False\<rparr>,
      isInDefaultBlock = True, getFirstShaderTypeWhereActive = Fragment\<rparr>"

definition inout_program :: ProgramVk where
  "inout_program =
     \<lparr>getUniformLocations = [\<lparr>arrayIndex = 0, index = 0, ignored = False\<rparr>],
      getUniforms = [inout_uniform],
      linkedShaderStages = {Fragment},
      mDefaultUniformBlocks = (\<lambda>shaderType. empty_block),
      mDefaultUniformBlocksDirty = {}\<rparr>"

definition no_layoutMap :: "ShaderType \<Rightarrow> BlockLayoutMap" where
  "no_layoutMap shaderType = Map.empty"

definition color_variable :: ShaderVariable where
  "color_variable =
     \<lparr>type = GL_FLOAT_VEC4, name = ''color'', arraySizes = [], isRowMajorLayout = False,
      isFragmentInOut = False\<rparr>"

definition flags_variable :: ShaderVariable where
  "flags_variable =
     \<lparr>type = GL_BOOL_VEC4, name = ''flags'', arraySizes = [2], isRowMajorLayout = False,
      isFragmentInOut = False\<rparr>"

definition tex_variable :: ShaderVariable where
  "tex_variable =
     \<lparr>type = GL_SAMPLER_2D, name = ''tex'', arraySizes = [], isRowMajorLayout = False,
      isFragmentInOut = False\<rparr>"

definition img_variable :: ShaderVariable where
  "img_variable =
     \<lparr>type = GL_IMAGE_2D, name = ''img'', arraySizes = [], isRowMajorLayout = False,
      isFragmentInOut = False\<rparr>"


text \<open>The booleans false, true, true, false as the integers a client passes.\<close>

definition values_0_1_1_0 :: mem where
  "values_0_1_1_0 = store32 (store32 (store32 (store32 zero_mem 0 0) 4 1) 8 1) 12 0"

text \<open>
  A program with one array of two \<^verbatim>\<open>mat2\<close>: the vertex stage holds it at offset
  16 of a block of 80 bytes, 32 bytes per element and 16 per column; the fragment
  stage does not hold it.
\<close>

definition transforms_uniform :: LinkedUniform where
  "transforms_uniform =
     \<lparr>type = GL_FLOAT_MAT2, name = ''transforms[0]'', arraySizes = [2],
      isRowMajorLayout = False, isFragmentInOut = False,
      typeInfo = \<lparr>type' = GL_FLOAT_MAT2, componentType = GL_FLOAT, componentCount = 4,
                  isSampler = False, isImageType = False\<rparr>,
      isInDefaultBlock = True, getFirstShaderTypeWhereActive = Vertex\<rparr>"

definition transforms_record :: BlockMemberInfo where
  "transforms_record =
     \<lparr>offset = 16, arrayStride = 32, matrixStride = 16, isRowMajorMatrix = False\<rparr>"

definition matrix_program :: ProgramVk where
  "matrix_program =
     \<lparr>getUniformLocations =
        [\<lparr>arrayIndex = 0, index = 0, ignored = False\<rparr>,
         \<lparr>arrayIndex = 1, index = 0, ignored = False\<rparr>],
      getUniforms = [transforms_uniform],
      linkedShaderStages = {Vertex, Fragment},
      mDefaultUniformBlocks =
        (\<lambda>shaderType.
           if shaderType = Vertex
           then \<lparr>uniformData = \<lparr>mData = zero_mem, mSize = 80\<rparr>,
                 uniformLayout = [transforms_record, transforms_record]\<rparr>
           else \<lparr>uniformData = \<lparr>mData = zero_mem, mSize = 0\<rparr>,
                 uniformLayout = [kDefaultBlockMemberInfo, kDefaultBlockMemberInfo]\<rparr>),
      mDefaultUniformBlocksDirty = {}\<rparr>"

section \<open>Conversions that change nothing\<close>

lemma to_int_id: "- (2 ^ 31) \<le> x \<Longrightarrow> x < 2 ^ 31 \<Longrightarrow> to_int x = x"
  by (simp add: to_int_def)

lemma to_uint32_id: "0 \<le> x \<Longrightarrow> x < 2 ^ 32 \<Longrightarrow> to_uint32 x = x"
  by (simp add: to_uint32_def)

lemma to_size_t_id: "0 \<le> x \<Longrightarrow> x < 2 ^ 64 \<Longrightarrow> to_size_t x = x"
  by (simp add: to_size_t_def)

lemma elementSize_of_small:
  assumes "0 \<le> cc" "cc < 2 ^ 29"
  shows "elementSize_of cc = 4 * cc"
proof -
  have "to_size_t (4 * cc) = 4 * cc"
    using assms by (intro to_size_t_id) auto
  moreover have "to_int (4 * cc) = 4 * cc"
    using assms by (intro to_int_id) auto
  ultimately show ?thesis
    by (simp add: elementSize_of_def sizeof_T_def)
qed

lemma to_size_t_elementSize:
  assumes "0 \<le> cc" "cc < 2 ^ 29"
  shows "to_size_t (elementSize_of cc) = 4 * cc"
  using assms by (simp add: elementSize_of_small to_size_t_id)

section \<open>Bytes and words\<close>

lemma load32_store32: "load32 (store32 m a w) a = w"
proof (rule bit_word_eqI)
  fix n :: nat
  assume "n < LENGTH(32)"
  then consider "n < 8" | "8 \<le> n" "n < 16" | "16 \<le> n" "n < 24" | "24 \<le> n" "n < 32"
    by fastforce
  then show "bit (load32 (store32 m a w) a) n = bit w n"
    by cases (auto simp add: load32_def store32_def bit_simps)
qed

lemma store32_other: "b < a \<or> a + 4 \<le> b \<Longrightarrow> store32 m a w b = m b"
  by (auto simp add: store32_def)

lemma load32_cong: "(\<And>j. 0 \<le> j \<Longrightarrow> j < 4 \<Longrightarrow> m (a + j) = m' (a' + j)) \<Longrightarrow> load32 m a = load32 m' a'"
proof -
  assume h: "\<And>j. 0 \<le> j \<Longrightarrow> j < 4 \<Longrightarrow> m (a + j) = m' (a' + j)"
  have "m a = m' a'" using h [of 0] by simp
  moreover have "m (a + 1) = m' (a' + 1)" using h [of 1] by simp
  moreover have "m (a + 2) = m' (a' + 2)" using h [of 2] by simp
  moreover have "m (a + 3) = m' (a' + 3)" using h [of 3] by simp
  ultimately show ?thesis by (simp add: load32_def)
qed

lemma load32_store32_other:
  "a' + 4 \<le> a \<or> a + 4 \<le> a' \<Longrightarrow> load32 (store32 m a w) a' = load32 m a'"
  by (rule load32_cong) (auto simp add: store32_other)

lemma memcpy_in: "d \<le> a \<Longrightarrow> a < d + n \<Longrightarrow> memcpy dst d src s n a = src (s + (a - d))"
  by (simp add: memcpy_def)

lemma memcpy_out: "a < d \<or> d + n \<le> a \<Longrightarrow> memcpy dst d src s n a = dst a"
  by (auto simp add: memcpy_def)

section \<open>Reading one element\<close>

lemma ReadFromDefaultUniformBlock_arms:
  assumes "0 \<le> arrayStride li" "uint ai * arrayStride li < 2 ^ 31"
  shows "ReadFromDefaultUniformBlock_tight cc ai dst li buf =
           memcpy dst 0 (mData buf) (offset li + uint ai * arrayStride li)
             (to_size_t (elementSize_of cc))"
    and "ReadFromDefaultUniformBlock_strided cc ai dst li buf =
           memcpy dst 0 (mData buf) (offset li + uint ai * arrayStride li)
             (to_size_t (elementSize_of cc))"
proof -
  have nonneg: "0 \<le> uint ai * arrayStride li"
    using assms(1) by simp
  then have u: "to_uint32 (uint ai * arrayStride li) = uint ai * arrayStride li"
    using assms(2) by (intro to_uint32_id) auto
  have i: "to_int (uint ai * arrayStride li) = uint ai * arrayStride li"
    using nonneg assms(2) by (intro to_int_id) auto
  show "ReadFromDefaultUniformBlock_tight cc ai dst li buf =
           memcpy dst 0 (mData buf) (offset li + uint ai * arrayStride li)
             (to_size_t (elementSize_of cc))"
    by (simp add: ReadFromDefaultUniformBlock_tight_def u)
  show "ReadFromDefaultUniformBlock_strided cc ai dst li buf =
           memcpy dst 0 (mData buf) (offset li + uint ai * arrayStride li)
             (to_size_t (elementSize_of cc))"
    by (simp add: ReadFromDefaultUniformBlock_strided_def u i)
qed

section \<open>The strided write loop\<close>

lemma to_int_nonneg: "0 \<le> x \<Longrightarrow> x < 2 ^ 31 \<Longrightarrow> to_int x = x"
  by (simp add: to_int_def)

lemma UpdateDefaultUniformBlock_loop_done:
  "UpdateDefaultUniformBlock_loop wi ri wi cc v li buf = Inr buf"
  by (subst UpdateDefaultUniformBlock_loop.simps) simp

lemma UpdateDefaultUniformBlock_loop_step:
  assumes "0 \<le> cc" "cc < 2 ^ 29"
    and "0 \<le> wi * arrayStride li" "wi * arrayStride li < 2 ^ 31"
    and "0 \<le> ri" "ri * cc < 2 ^ 31" "0 \<le> ri * cc" "ri + 1 < 2 ^ 31"
  shows "UpdateDefaultUniformBlock_loop wi ri (wi + int (Suc m)) cc v li buf =
           (if offset li + wi * arrayStride li + 4 * cc \<le> mSize buf
            then UpdateDefaultUniformBlock_loop (wi + 1) (ri + 1) ((wi + 1) + int m) cc v li
                   (buf\<lparr>mData := memcpy (mData buf) (offset li + wi * arrayStride li) v
                                   (4 * (ri * cc)) (4 * cc)\<rparr>)
            else Inl AssertionFailure)"
proof -
  have a: "to_int (wi * arrayStride li) = wi * arrayStride li"
    using assms(3,4) by (rule to_int_nonneg)
  have b: "to_int (ri * cc) = ri * cc"
    using assms(7,6) by (rule to_int_nonneg)
  have c: "to_int (ri + 1) = ri + 1"
    using assms(5,8) by (intro to_int_nonneg) auto
  have f: "to_size_t (4 * cc) = 4 * cc"
    using assms(1,2) by (intro to_size_t_id) auto
  have d: "wi + int (Suc m) = wi + 1 + int m"
    by simp
  have e: "wi < wi + 1 + int m"
    by simp
  show ?thesis
    unfolding d
    by (subst UpdateDefaultUniformBlock_loop.simps)
       (simp only: e if_True Let_def a b c sizeof_T_def
          elementSize_of_small [OF assms(1,2)] f)
qed


lemma UpdateDefaultUniformBlock_loop_spec:
  fixes m :: nat
  assumes cc: "0 \<le> cc" "cc < 2 ^ 29" and s: "0 \<le> arrayStride li"
  shows "0 \<le> wi \<Longrightarrow> 0 \<le> ri \<Longrightarrow>
     (\<forall>K. wi \<le> K \<and> K < wi + int m \<longrightarrow>
          K * arrayStride li < 2 ^ 31 \<and> (ri + (K - wi)) * cc < 2 ^ 31 \<and> ri + (K - wi) + 1 < 2 ^ 31) \<Longrightarrow>
     (\<forall>K. wi \<le> K \<and> K < wi + int m \<longrightarrow> offset li + K * arrayStride li + 4 * cc \<le> mSize buf) \<Longrightarrow>
     \<exists>buf'. UpdateDefaultUniformBlock_loop wi ri (wi + int m) cc v li buf = Inr buf' \<and>
        mSize buf' = mSize buf \<and>
        (\<forall>a. (\<forall>K. wi \<le> K \<and> K < wi + int m \<longrightarrow>
                 a < offset li + K * arrayStride li \<or> offset li + K * arrayStride li + 4 * cc \<le> a)
             \<longrightarrow> mData buf' a = mData buf a) \<and>
        (4 * cc \<le> arrayStride li \<or> m \<le> 1 \<longrightarrow>
           (\<forall>K j. wi \<le> K \<and> K < wi + int m \<and> 0 \<le> j \<and> j < 4 * cc \<longrightarrow>
              mData buf' (offset li + K * arrayStride li + j) = v (4 * ((ri + (K - wi)) * cc) + j)))"
proof (induction m arbitrary: wi ri buf)
  case 0
  then show ?case by (auto simp add: UpdateDefaultUniformBlock_loop_done)
next
  case (Suc m)
  let ?s = "arrayStride li"
  let ?buf1 = "buf\<lparr>mData := memcpy (mData buf) (offset li + wi * ?s) v (4 * (ri * cc)) (4 * cc)\<rparr>"
  have here: "wi \<le> wi \<and> wi < wi + int (Suc m)" by simp
  have b0: "wi * ?s < 2 ^ 31" "ri * cc < 2 ^ 31" "ri + 1 < 2 ^ 31"
    using Suc.prems(3) here by fastforce+
  have n0: "0 \<le> wi * ?s" "0 \<le> ri * cc"
    using Suc.prems(1,2) s cc(1) by simp_all
  have fit: "offset li + wi * ?s + 4 * cc \<le> mSize buf"
    using Suc.prems(4) here by blast
  have step: "UpdateDefaultUniformBlock_loop wi ri (wi + int (Suc m)) cc v li buf =
               UpdateDefaultUniformBlock_loop (wi + 1) (ri + 1) ((wi + 1) + int m) cc v li ?buf1"
    using UpdateDefaultUniformBlock_loop_step [OF cc n0(1) b0(1) Suc.prems(2) b0(2) n0(2) b0(3)] fit
    by simp
  have p1: "0 \<le> wi + 1" and p2: "0 \<le> ri + 1"
    using Suc.prems(1,2) by simp_all
  have p3: "\<forall>K. wi + 1 \<le> K \<and> K < wi + 1 + int m \<longrightarrow>
          K * ?s < 2 ^ 31 \<and> (ri + 1 + (K - (wi + 1))) * cc < 2 ^ 31 \<and> ri + 1 + (K - (wi + 1)) + 1 < 2 ^ 31"
  proof (intro allI impI)
    fix K assume "wi + 1 \<le> K \<and> K < wi + 1 + int m"
    then have "wi \<le> K \<and> K < wi + int (Suc m)" by simp
    then have "K * ?s < 2 ^ 31 \<and> (ri + (K - wi)) * cc < 2 ^ 31 \<and> ri + (K - wi) + 1 < 2 ^ 31"
      using Suc.prems(3) by blast
    moreover have "ri + 1 + (K - (wi + 1)) = ri + (K - wi)" by simp
    ultimately show "K * ?s < 2 ^ 31 \<and> (ri + 1 + (K - (wi + 1))) * cc < 2 ^ 31 \<and>
        ri + 1 + (K - (wi + 1)) + 1 < 2 ^ 31"
      by simp
  qed
  have p4: "\<forall>K. wi + 1 \<le> K \<and> K < wi + 1 + int m \<longrightarrow> offset li + K * ?s + 4 * cc \<le> mSize ?buf1"
    using Suc.prems(4) by simp
  from Suc.IH [OF p1 p2 p3 p4] obtain buf' where
    r: "UpdateDefaultUniformBlock_loop (wi + 1) (ri + 1) (wi + 1 + int m) cc v li ?buf1 = Inr buf'"
    and sz: "mSize buf' = mSize ?buf1"
    and frame: "\<And>a. (\<forall>K. wi + 1 \<le> K \<and> K < wi + 1 + int m \<longrightarrow>
                 a < offset li + K * ?s \<or> offset li + K * ?s + 4 * cc \<le> a)
             \<Longrightarrow> mData buf' a = mData ?buf1 a"
    and place: "4 * cc \<le> ?s \<or> m \<le> 1 \<Longrightarrow>
           (\<forall>K j. wi + 1 \<le> K \<and> K < wi + 1 + int m \<and> 0 \<le> j \<and> j < 4 * cc \<longrightarrow>
              mData buf' (offset li + K * ?s + j) = v (4 * ((ri + 1 + (K - (wi + 1))) * cc) + j))"
    by blast
  have frame': "\<forall>a. (\<forall>K. wi \<le> K \<and> K < wi + int (Suc m) \<longrightarrow>
                 a < offset li + K * ?s \<or> offset li + K * ?s + 4 * cc \<le> a)
             \<longrightarrow> mData buf' a = mData buf a"
  proof (intro allI impI)
    fix a
    assume out: "\<forall>K. wi \<le> K \<and> K < wi + int (Suc m) \<longrightarrow>
                 a < offset li + K * ?s \<or> offset li + K * ?s + 4 * cc \<le> a"
    then have "\<forall>K. wi + 1 \<le> K \<and> K < wi + 1 + int m \<longrightarrow>
                 a < offset li + K * ?s \<or> offset li + K * ?s + 4 * cc \<le> a"
      by simp
    then have "mData buf' a = mData ?buf1 a" by (rule frame)
    moreover have "a < offset li + wi * ?s \<or> offset li + wi * ?s + 4 * cc \<le> a"
      using out here by blast
    then have "mData ?buf1 a = mData buf a"
      by (simp add: memcpy_out)
    ultimately show "mData buf' a = mData buf a" by simp
  qed
  have place': "4 * cc \<le> ?s \<or> Suc m \<le> 1 \<longrightarrow>
           (\<forall>K j. wi \<le> K \<and> K < wi + int (Suc m) \<and> 0 \<le> j \<and> j < 4 * cc \<longrightarrow>
              mData buf' (offset li + K * ?s + j) = v (4 * ((ri + (K - wi)) * cc) + j))"
  proof (intro impI allI)
    fix K j
    assume sep: "4 * cc \<le> ?s \<or> Suc m \<le> 1"
    assume kj: "wi \<le> K \<and> K < wi + int (Suc m) \<and> 0 \<le> j \<and> j < 4 * cc"
    show "mData buf' (offset li + K * ?s + j) = v (4 * ((ri + (K - wi)) * cc) + j)"
    proof (cases "K = wi")
      case True
      have "\<forall>K'. wi + 1 \<le> K' \<and> K' < wi + 1 + int m \<longrightarrow>
               offset li + wi * ?s + j < offset li + K' * ?s \<or>
               offset li + K' * ?s + 4 * cc \<le> offset li + wi * ?s + j"
      proof (intro allI impI)
        fix K' assume k': "wi + 1 \<le> K' \<and> K' < wi + 1 + int m"
        then have "0 < m" by simp
        with sep have big: "4 * cc \<le> ?s" by simp
        have "(wi + 1) * ?s \<le> K' * ?s"
          using k' s by (intro mult_right_mono) simp_all
        then have "wi * ?s + ?s \<le> K' * ?s"
          by (simp add: algebra_simps)
        then show "offset li + wi * ?s + j < offset li + K' * ?s \<or>
               offset li + K' * ?s + 4 * cc \<le> offset li + wi * ?s + j"
          using kj big by linarith
      qed
      then have "mData buf' (offset li + wi * ?s + j) = mData ?buf1 (offset li + wi * ?s + j)"
        by (rule frame)
      also have "\<dots> = v (4 * (ri * cc) + j)"
        using kj by (simp add: memcpy_in)
      finally show ?thesis using True by simp
    next
      case False
      with kj have k1: "wi + 1 \<le> K \<and> K < wi + 1 + int m \<and> 0 \<le> j \<and> j < 4 * cc" by simp
      then have "0 < m" by linarith
      with sep have "4 * cc \<le> ?s \<or> m \<le> 1" by simp
      from place [OF this] k1
      have "mData buf' (offset li + K * ?s + j) = v (4 * ((ri + 1 + (K - (wi + 1))) * cc) + j)"
        by blast
      moreover have "ri + 1 + (K - (wi + 1)) = ri + (K - wi)" by simp
      ultimately show ?thesis by simp
    qed
  qed
  show ?case
    using step r sz frame' place' by simp
qed

lemma to_uint32_small: "0 \<le> x \<Longrightarrow> x < 2 ^ 31 \<Longrightarrow> to_uint32 x = x"
  by (simp add: to_uint32_def)

lemma to_size_t_small: "0 \<le> x \<Longrightarrow> x < 2 ^ 31 \<Longrightarrow> to_size_t x = x"
  by (simp add: to_size_t_def)

lemma tiling:
  fixes s :: int
  assumes "0 < s" "wp \<le> a" "a < wp + n * s"
  shows "\<exists>i. 0 \<le> i \<and> i < n \<and> wp + i * s \<le> a \<and> a < wp + i * s + s"
proof -
  let ?i = "(a - wp) div s"
  have d: "?i * s + (a - wp) mod s = a - wp" by (rule div_mult_mod_eq)
  have m: "0 \<le> (a - wp) mod s" "(a - wp) mod s < s"
    using assms(1) by simp_all
  have "0 \<le> ?i"
    using assms(1,2) by (simp add: pos_imp_zdiv_nonneg_iff)
  moreover have "?i < n"
  proof -
    have "?i * s \<le> a - wp" using d m(1) by linarith
    also have "\<dots> < n * s" using assms(3) by simp
    finally have "s * ?i < s * n" by (simp add: mult.commute)
    then show ?thesis using assms(1) by (simp add: mult_less_cancel_left_pos)
  qed
  moreover have "wp + ?i * s \<le> a"
    using d m(1) by linarith
  moreover have "a < wp + ?i * s + s"
    using d m(2) by linarith
  ultimately show ?thesis by blast
qed

lemma UpdateDefaultUniformBlock_spec:
  assumes cc: "0 < cc" "cc \<le> 4"
    and s: "0 \<le> arrayStride li"
    and sep: "4 * cc \<le> arrayStride li \<or> n = 1"
    and n: "0 < n"
    and off: "0 \<le> offset li"
    and fit: "offset li + (uint ai + n - 1) * arrayStride li + 4 * cc \<le> mSize buf"
    and small: "mSize buf < 2 ^ 31"
  shows "\<exists>buf'. UpdateDefaultUniformBlock n ai cc v li buf = Inr buf' \<and> mSize buf' = mSize buf \<and>
      (\<forall>i j. 0 \<le> i \<and> i < n \<and> 0 \<le> j \<and> j < 4 * cc \<longrightarrow>
         mData buf' (offset li + (uint ai + i) * arrayStride li + j) = v (i * (4 * cc) + j)) \<and>
      (\<forall>a. (\<forall>i. 0 \<le> i \<and> i < n \<longrightarrow>
               a < offset li + (uint ai + i) * arrayStride li \<or>
               offset li + (uint ai + i) * arrayStride li + 4 * cc \<le> a)
           \<longrightarrow> mData buf' a = mData buf a)"
proof -
  let ?s = "arrayStride li"
  let ?ai = "uint ai"
  have cc': "0 \<le> cc" "cc < 2 ^ 29" using cc by simp_all
  have e: "elementSize_of cc = 4 * cc" by (rule elementSize_of_small [OF cc'])
  have ai0: "0 \<le> ?ai" by simp
  have last0: "0 \<le> (?ai + n - 1) * ?s"
    using ai0 n s by (intro mult_nonneg_nonneg) linarith+
  have lastb: "(?ai + n - 1) * ?s + 4 * cc < 2 ^ 31"
    using fit small off by linarith
  have mono: "\<And>K. K \<le> ?ai + n - 1 \<Longrightarrow> K * ?s \<le> (?ai + n - 1) * ?s"
    using s by (intro mult_right_mono) simp_all
  have ais: "0 \<le> ?ai * ?s" "?ai * ?s + 4 * cc < 2 ^ 31"
  proof -
    show "0 \<le> ?ai * ?s" using ai0 s by simp
    have "?ai * ?s \<le> (?ai + n - 1) * ?s" using n by (intro mono) simp
    then show "?ai * ?s + 4 * cc < 2 ^ 31" using lastb by linarith
  qed
  show ?thesis
  proof (cases "?s = 0 \<or> ?s = elementSize_of cc")
    case True
    have ns: "n * ?s = (n - 1) * ?s + ?s" by (simp add: algebra_simps)
    have len: "elementSize_of cc * n = 4 * cc + (n - 1) * ?s \<and> (n - 1) * ?s \<le> (?ai + n - 1) * ?s - ?ai * ?s"
    proof (cases "?s = 0")
      case True
      with sep cc have "n = 1" by simp
      then show ?thesis using e True by simp
    next
      case False
      with \<open>?s = 0 \<or> ?s = elementSize_of cc\<close> e have "?s = 4 * cc" by simp
      then show ?thesis using e by (simp add: algebra_simps)
    qed
    then have len1: "elementSize_of cc * n = 4 * cc + (n - 1) * ?s"
      and len2: "?ai * ?s + (n - 1) * ?s \<le> (?ai + n - 1) * ?s" by simp_all
    have n1s: "0 \<le> (n - 1) * ?s" using n s by simp
    have lenb: "0 \<le> elementSize_of cc * n" "elementSize_of cc * n < 2 ^ 31"
      using len1 n1s cc lastb len2 ais(1) by linarith+
    have u: "to_uint32 (?ai * ?s) = ?ai * ?s"
      using ais cc by (intro to_uint32_small) linarith+
    have ti: "to_int (4 * cc + (n - 1) * ?s) = 4 * cc + (n - 1) * ?s"
      using lenb unfolding len1 by (rule to_int_nonneg)
    have ts: "to_size_t (4 * cc + (n - 1) * ?s) = 4 * cc + (n - 1) * ?s"
      using lenb unfolding len1 by (rule to_size_t_small)
    let ?wp = "offset li + ?ai * ?s"
    let ?len = "4 * cc + (n - 1) * ?s"
    let ?buf' = "buf\<lparr>mData := memcpy (mData buf) ?wp v 0 ?len\<rparr>"
    have ok: "?wp + ?len \<le> mSize buf"
      using fit len2 by linarith
    have r: "UpdateDefaultUniformBlock n ai cc v li buf = Inr ?buf'"
      using True ok by (simp add: UpdateDefaultUniformBlock_def Let_def u ti ts len1)
    have place: "\<forall>i j. 0 \<le> i \<and> i < n \<and> 0 \<le> j \<and> j < 4 * cc \<longrightarrow>
         mData ?buf' (offset li + (?ai + i) * ?s + j) = v (i * (4 * cc) + j)"
    proof (intro allI impI)
      fix i j assume ij: "0 \<le> i \<and> i < n \<and> 0 \<le> j \<and> j < 4 * cc"
      have ile: "i * ?s \<le> (n - 1) * ?s" using ij s by (intro mult_right_mono) simp_all
      have i0: "0 \<le> i * ?s" using ij s by simp
      have src: "i * ?s = i * (4 * cc)"
      proof (cases "?s = 0")
        case True
        with sep cc have "n = 1" by simp
        with ij have "i = 0" by simp
        then show ?thesis by simp
      next
        case False
        with \<open>?s = 0 \<or> ?s = elementSize_of cc\<close> e show ?thesis by simp
      qed
      have addr: "offset li + (?ai + i) * ?s + j = ?wp + (i * ?s + j)"
        by (simp add: algebra_simps)
      have "mData ?buf' (offset li + (?ai + i) * ?s + j) = mData ?buf' (?wp + (i * ?s + j))"
        by (simp only: addr)
      also have "\<dots> = v (0 + (?wp + (i * ?s + j) - ?wp))"
        using ij ile i0 by (simp add: memcpy_in)
      also have "\<dots> = v (i * (4 * cc) + j)"
        by (simp add: src)
      finally show "mData ?buf' (offset li + (?ai + i) * ?s + j) = v (i * (4 * cc) + j)" .
    qed
    have frame: "\<forall>a. (\<forall>i. 0 \<le> i \<and> i < n \<longrightarrow>
               a < offset li + (?ai + i) * ?s \<or> offset li + (?ai + i) * ?s + 4 * cc \<le> a)
           \<longrightarrow> mData ?buf' a = mData buf a"
    proof (intro allI impI)
      fix a
      assume out: "\<forall>i. 0 \<le> i \<and> i < n \<longrightarrow>
               a < offset li + (?ai + i) * ?s \<or> offset li + (?ai + i) * ?s + 4 * cc \<le> a"
      have "a < ?wp \<or> ?wp + ?len \<le> a"
      proof (cases "?s = 0")
        case True
        have "0 \<le> (0::int) \<and> 0 < n" using n by simp
        with out have "a < offset li + (?ai + 0) * ?s \<or> offset li + (?ai + 0) * ?s + 4 * cc \<le> a"
          by blast
        then show ?thesis using True by simp
      next
        case False
        with \<open>?s = 0 \<or> ?s = elementSize_of cc\<close> e have s4: "?s = 4 * cc" by simp
        then have spos: "0 < ?s" using cc by simp
        show ?thesis
        proof (rule ccontr)
          assume "\<not> (a < ?wp \<or> ?wp + ?len \<le> a)"
          then have "?wp \<le> a" "a < ?wp + n * ?s"
            using s4 by (simp_all add: algebra_simps)
          from tiling [OF spos this] obtain i where
            i: "0 \<le> i" "i < n" "?wp + i * ?s \<le> a" "a < ?wp + i * ?s + ?s"
            by blast
          have "offset li + (?ai + i) * ?s = ?wp + i * ?s" by (simp add: algebra_simps)
          with out i s4 show False by force
        qed
      qed
      then show "mData ?buf' a = mData buf a"
        by (simp add: memcpy_out)
    qed
    show ?thesis using r place frame by simp
  next
    case False
    then have s0: "?s \<noteq> 0" and se: "?s \<noteq> elementSize_of cc" by simp_all
    have spos: "1 \<le> ?s" using s s0 by linarith
    have x0: "0 \<le> ?ai + n - 1" using ai0 n by linarith
    have "(?ai + n - 1) * 1 \<le> (?ai + n - 1) * ?s"
      using spos x0 by (rule mult_left_mono)
    then have "?ai + n - 1 \<le> (?ai + n - 1) * ?s" by simp
    then have top: "?ai + n < 2 ^ 31" "?ai < 2 ^ 31"
      using lastb cc n by linarith+
    have mx: "to_int (to_uint32 (?ai + n)) = ?ai + n"
    proof -
      have "to_uint32 (?ai + n) = ?ai + n"
        using top ai0 n by (intro to_uint32_small) linarith+
      moreover have "to_int (?ai + n) = ?ai + n"
        using top ai0 n by (intro to_int_nonneg) linarith+
      ultimately show ?thesis by simp
    qed
    have wi: "to_int ?ai = ?ai"
      using ai0 top(2) by (rule to_int_nonneg)
    have nn: "?ai + n = ?ai + int (nat n)" using n by simp
    have step: "UpdateDefaultUniformBlock n ai cc v li buf =
                  UpdateDefaultUniformBlock_loop ?ai 0 (?ai + int (nat n)) cc v li buf"
      using s0 se n by (simp add: UpdateDefaultUniformBlock_def Let_def mx wi)
    have cnt: "(n - 1) * cc < 2 ^ 31"
    proof (cases "n = 1")
      case True then show ?thesis by simp
    next
      case False
      with sep have big: "4 * cc \<le> ?s" by simp
      have "(n - 1) * cc \<le> (n - 1) * ?s"
        using big cc n by (intro mult_left_mono) simp_all
      also have "\<dots> \<le> (?ai + n - 1) * ?s"
        using ai0 s by (intro mult_right_mono) linarith+
      finally show ?thesis using lastb cc by linarith
    qed
    have b1: "\<forall>K. ?ai \<le> K \<and> K < ?ai + int (nat n) \<longrightarrow>
          K * ?s < 2 ^ 31 \<and> (0 + (K - ?ai)) * cc < 2 ^ 31 \<and> 0 + (K - ?ai) + 1 < 2 ^ 31"
    proof (intro allI impI)
      fix K assume k: "?ai \<le> K \<and> K < ?ai + int (nat n)"
      then have kk: "K \<le> ?ai + n - 1" using n by simp
      have "K * ?s \<le> (?ai + n - 1) * ?s" using kk by (rule mono)
      then have 1: "K * ?s < 2 ^ 31" using lastb cc by linarith
      have "(K - ?ai) * cc \<le> (n - 1) * cc"
        using kk cc by (intro mult_right_mono) simp_all
      then have 2: "(0 + (K - ?ai)) * cc < 2 ^ 31" using cnt by simp
      have 3: "0 + (K - ?ai) + 1 < 2 ^ 31" using kk top ai0 by linarith
      show "K * ?s < 2 ^ 31 \<and> (0 + (K - ?ai)) * cc < 2 ^ 31 \<and> 0 + (K - ?ai) + 1 < 2 ^ 31"
        using 1 2 3 by blast
    qed
    have b2: "\<forall>K. ?ai \<le> K \<and> K < ?ai + int (nat n) \<longrightarrow> offset li + K * ?s + 4 * cc \<le> mSize buf"
    proof (intro allI impI)
      fix K assume k: "?ai \<le> K \<and> K < ?ai + int (nat n)"
      then have kk: "K \<le> ?ai + n - 1" using n by simp
      have "K * ?s \<le> (?ai + n - 1) * ?s" using kk by (rule mono)
      then show "offset li + K * ?s + 4 * cc \<le> mSize buf" using fit by linarith
    qed
    have sep': "4 * cc \<le> ?s \<or> nat n \<le> 1" using sep by auto
    from UpdateDefaultUniformBlock_loop_spec [OF cc' s ai0 order_refl b1 b2, of v]
    obtain buf' where
      r: "UpdateDefaultUniformBlock_loop ?ai 0 (?ai + int (nat n)) cc v li buf = Inr buf'"
      and sz: "mSize buf' = mSize buf"
      and frame: "\<And>a. (\<forall>K. ?ai \<le> K \<and> K < ?ai + int (nat n) \<longrightarrow>
                 a < offset li + K * ?s \<or> offset li + K * ?s + 4 * cc \<le> a)
             \<Longrightarrow> mData buf' a = mData buf a"
      and place: "\<And>K j. ?ai \<le> K \<and> K < ?ai + int (nat n) \<and> 0 \<le> j \<and> j < 4 * cc \<Longrightarrow>
              mData buf' (offset li + K * ?s + j) = v (4 * ((0 + (K - ?ai)) * cc) + j)"
      using sep' by blast
    have place': "\<forall>i j. 0 \<le> i \<and> i < n \<and> 0 \<le> j \<and> j < 4 * cc \<longrightarrow>
         mData buf' (offset li + (?ai + i) * ?s + j) = v (i * (4 * cc) + j)"
    proof (intro allI impI)
      fix i j assume ij: "0 \<le> i \<and> i < n \<and> 0 \<le> j \<and> j < 4 * cc"
      then have "?ai \<le> ?ai + i \<and> ?ai + i < ?ai + int (nat n) \<and> 0 \<le> j \<and> j < 4 * cc" by simp
      from place [OF this] show "mData buf' (offset li + (?ai + i) * ?s + j) = v (i * (4 * cc) + j)"
        by (simp add: algebra_simps)
    qed
    have frame': "\<forall>a. (\<forall>i. 0 \<le> i \<and> i < n \<longrightarrow>
               a < offset li + (?ai + i) * ?s \<or> offset li + (?ai + i) * ?s + 4 * cc \<le> a)
           \<longrightarrow> mData buf' a = mData buf a"
    proof (intro allI impI)
      fix a
      assume out: "\<forall>i. 0 \<le> i \<and> i < n \<longrightarrow>
               a < offset li + (?ai + i) * ?s \<or> offset li + (?ai + i) * ?s + 4 * cc \<le> a"
      have "\<forall>K. ?ai \<le> K \<and> K < ?ai + int (nat n) \<longrightarrow>
                 a < offset li + K * ?s \<or> offset li + K * ?s + 4 * cc \<le> a"
      proof (intro allI impI)
        fix K assume k: "?ai \<le> K \<and> K < ?ai + int (nat n)"
        then have "0 \<le> K - ?ai \<and> K - ?ai < n" using n by simp
        with out have "a < offset li + (?ai + (K - ?ai)) * ?s \<or>
               offset li + (?ai + (K - ?ai)) * ?s + 4 * cc \<le> a" by blast
        then show "a < offset li + K * ?s \<or> offset li + K * ?s + 4 * cc \<le> a" by simp
      qed
      then show "mData buf' a = mData buf a" by (rule frame)
    qed
    show ?thesis using step r sz place' frame' by simp
  qed
qed

section \<open>The loop over the linked stages\<close>

lemma distinct_getLinkedShaderStages: "distinct (getLinkedShaderStages st)"
  by (simp add: getLinkedShaderStages_def kAllShaderTypes_def)

lemma set_getLinkedShaderStages:
  "set (getLinkedShaderStages st) = linkedShaderStages st \<inter> set kAllShaderTypes"
  by (auto simp add: getLinkedShaderStages_def)

lemma setUniformImpl_matching_updateStage:
  "setUniformImpl_matching location n v locationInfo linkedUniform =
     updateStage location
       (UpdateDefaultUniformBlock n (arrayIndex locationInfo)
          (componentCount (typeInfo linkedUniform)) v)"
  by (intro ext) (simp add: setUniformImpl_matching_def updateStage_def Let_def)

lemma setUniformImpl_coercing_updateStage:
  "setUniformImpl_coercing T location n v entryPointType locationInfo linkedUniform =
     updateStage location
       (\<lambda>layoutInfo buffer.
          if type' (typeInfo linkedUniform) \<noteq> VariableBoolVectorType entryPointType
          then Inl AssertionFailure
          else Inr (buffer\<lparr>mData :=
                 setUniformImpl_elements 0 n (componentCount (typeInfo linkedUniform)) T v
                   layoutInfo
                   (to_int (to_uint32 (to_uint32 (uint (arrayIndex locationInfo) *
                      arrayStride layoutInfo) + offset layoutInfo)))
                   (mData buffer)\<rparr>))"
  by (intro ext)
     (simp add: setUniformImpl_coercing_def updateStage_def Let_def split: sum.splits)

lemma setUniformMatrixfv_stage_updateStage:
  "setUniformMatrixfv_stage Run location n transposed val locationInfo linkedUniform =
     updateStage location
       (\<lambda>layoutInfo buffer.
          Inr (buffer\<lparr>mData :=
                 Run (arrayIndex locationInfo) (getArraySizeProduct linkedUniform) n transposed
                   val (mData buffer) (offset layoutInfo)\<rparr>))"
  by (intro ext)
     (simp add: setUniformMatrixfv_stage_def updateStage_def Let_def split: sum.splits)

lemma updateStage_cases:
  assumes "updateStage loc f S st = Inr st'"
  obtains (skipped) li where
      "at_index (uniformLayout (mDefaultUniformBlocks st S)) loc = Inr li"
      and "offset li = - 1" and "st' = st"
  | (written) li b where
      "at_index (uniformLayout (mDefaultUniformBlocks st S)) loc = Inr li"
      and "offset li \<noteq> - 1" and "f li (uniformData (mDefaultUniformBlocks st S)) = Inr b"
      and "st' = setBlock S b st"
proof (cases "at_index (uniformLayout (mDefaultUniformBlocks st S)) loc")
  case (Inl e)
  with assms show ?thesis by (simp add: updateStage_def)
next
  case (Inr li)
  show ?thesis
  proof (cases "offset li = - 1")
    case True
    with assms Inr have "st' = st" by (simp add: updateStage_def)
    with Inr True show ?thesis by (rule skipped)
  next
    case False
    show ?thesis
    proof (cases "f li (uniformData (mDefaultUniformBlocks st S))")
      case (Inl e)
      with assms Inr False show ?thesis by (simp add: updateStage_def)
    next
      case b: (Inr b)
      with assms Inr False have "st' = setBlock S b st" by (simp add: updateStage_def)
      with Inr False b show ?thesis by (rule written)
    qed
  qed
qed

lemma updateStage_skip:
  "at_index (uniformLayout (mDefaultUniformBlocks st S)) loc = Inr li \<Longrightarrow> offset li = - 1 \<Longrightarrow>
   updateStage loc f S st = Inr st"
  by (simp add: updateStage_def)

lemma setBlock_simps:
  "getUniformLocations (setBlock S b st) = getUniformLocations st"
  "getUniforms (setBlock S b st) = getUniforms st"
  "linkedShaderStages (setBlock S b st) = linkedShaderStages st"
  "uniformLayout (mDefaultUniformBlocks (setBlock S b st) S') =
     uniformLayout (mDefaultUniformBlocks st S')"
  "uniformData (mDefaultUniformBlocks (setBlock S b st) S) = b"
  "S' \<noteq> S \<Longrightarrow> mDefaultUniformBlocks (setBlock S b st) S' = mDefaultUniformBlocks st S'"
  "mDefaultUniformBlocksDirty (setBlock S b st) = insert S (mDefaultUniformBlocksDirty st)"
  by (simp_all add: setBlock_def)

lemma getLinkedShaderStages_setBlock:
  "getLinkedShaderStages (setBlock S b st) = getLinkedShaderStages st"
  by (simp add: getLinkedShaderStages_def setBlock_simps)

lemma layoutUsed_setBlock: "layoutUsed (setBlock S b st) loc S' = layoutUsed st loc S'"
  by (simp add: layoutUsed_def setBlock_simps)

lemma for_each_stage_tables:
  "for_each_stage (updateStage loc f) stages st = Inr st' \<Longrightarrow>
     getUniformLocations st' = getUniformLocations st \<and>
     getUniforms st' = getUniforms st \<and>
     linkedShaderStages st' = linkedShaderStages st \<and>
     (\<forall>S. uniformLayout (mDefaultUniformBlocks st' S) = uniformLayout (mDefaultUniformBlocks st S))"
proof (induction stages arbitrary: st)
  case Nil
  then show ?case by simp
next
  case (Cons T rest)
  then obtain st1 where 1: "updateStage loc f T st = Inr st1"
    and 2: "for_each_stage (updateStage loc f) rest st1 = Inr st'"
    by (auto split: sum.splits)
  from 1 have "getUniformLocations st1 = getUniformLocations st \<and>
     getUniforms st1 = getUniforms st \<and>
     linkedShaderStages st1 = linkedShaderStages st \<and>
     (\<forall>S. uniformLayout (mDefaultUniformBlocks st1 S) = uniformLayout (mDefaultUniformBlocks st S))"
    by (cases rule: updateStage_cases) (simp_all add: setBlock_simps)
  with Cons.IH [OF 2] show ?case by simp
qed

lemma for_each_stage_dirty_mono:
  "for_each_stage (updateStage loc f) stages st = Inr st' \<Longrightarrow>
     mDefaultUniformBlocksDirty st \<subseteq> mDefaultUniformBlocksDirty st'"
proof (induction stages arbitrary: st)
  case Nil
  then show ?case by simp
next
  case (Cons T rest)
  then obtain st1 where 1: "updateStage loc f T st = Inr st1"
    and 2: "for_each_stage (updateStage loc f) rest st1 = Inr st'"
    by (auto split: sum.splits)
  from 1 have "mDefaultUniformBlocksDirty st \<subseteq> mDefaultUniformBlocksDirty st1"
    by (cases rule: updateStage_cases) (auto simp add: setBlock_simps)
  with Cons.IH [OF 2] show ?case by blast
qed

lemma for_each_stage_untouched:
  "for_each_stage (updateStage loc f) stages st = Inr st' \<Longrightarrow>
     S \<notin> set stages \<or> \<not> layoutUsed st loc S \<Longrightarrow>
     mDefaultUniformBlocks st' S = mDefaultUniformBlocks st S \<and>
     (S \<in> mDefaultUniformBlocksDirty st' \<longleftrightarrow> S \<in> mDefaultUniformBlocksDirty st)"
proof (induction stages arbitrary: st)
  case Nil
  then show ?case by simp
next
  case (Cons T rest)
  then obtain st1 where 1: "updateStage loc f T st = Inr st1"
    and 2: "for_each_stage (updateStage loc f) rest st1 = Inr st'"
    by (auto split: sum.splits)
  from 1 have a: "mDefaultUniformBlocks st1 S = mDefaultUniformBlocks st S \<and>
     (S \<in> mDefaultUniformBlocksDirty st1 \<longleftrightarrow> S \<in> mDefaultUniformBlocksDirty st) \<and>
     layoutUsed st1 loc S = layoutUsed st loc S"
  proof (cases rule: updateStage_cases)
    case (skipped li)
    then show ?thesis by simp
  next
    case (written li b)
    have "T \<noteq> S"
    proof
      assume "T = S"
      with written(1,2) have "layoutUsed st loc S" by (simp add: layoutUsed_def)
      with Cons.prems(2) \<open>T = S\<close> show False by simp
    qed
    then show ?thesis using written(4) by (auto simp add: setBlock_simps layoutUsed_setBlock)
  qed
  then have "S \<notin> set rest \<or> \<not> layoutUsed st1 loc S"
    using Cons.prems(2) by auto
  from Cons.IH [OF 2 this] a show ?case by simp
qed

lemma for_each_stage_touched_dirty:
  "for_each_stage (updateStage loc f) stages st = Inr st' \<Longrightarrow>
     S \<in> set stages \<Longrightarrow> layoutUsed st loc S \<Longrightarrow> S \<in> mDefaultUniformBlocksDirty st'"
proof (induction stages arbitrary: st)
  case Nil
  then show ?case by simp
next
  case (Cons T rest)
  then obtain st1 where 1: "updateStage loc f T st = Inr st1"
    and 2: "for_each_stage (updateStage loc f) rest st1 = Inr st'"
    by (auto split: sum.splits)
  show ?case
  proof (cases "T = S")
    case True
    from 1 have "S \<in> mDefaultUniformBlocksDirty st1"
    proof (cases rule: updateStage_cases)
      case (skipped li)
      then show ?thesis using Cons.prems(3) True by (simp add: layoutUsed_def)
    next
      case (written li b)
      then show ?thesis using True by (simp add: setBlock_simps)
    qed
    with for_each_stage_dirty_mono [OF 2] show ?thesis by blast
  next
    case False
    with Cons.prems(2) have in_rest: "S \<in> set rest" by simp
    from 1 have "layoutUsed st1 loc S = layoutUsed st loc S"
      by (cases rule: updateStage_cases) (simp_all add: layoutUsed_setBlock)
    with Cons.prems(3) have "layoutUsed st1 loc S" by simp
    from Cons.IH [OF 2 in_rest this] show ?thesis .
  qed
qed

lemma for_each_stage_effect:
  "for_each_stage (updateStage loc f) stages st = Inr st' \<Longrightarrow> distinct stages \<Longrightarrow>
     S \<in> set stages \<Longrightarrow>
     at_index (uniformLayout (mDefaultUniformBlocks st S)) loc = Inr li \<Longrightarrow> offset li \<noteq> - 1 \<Longrightarrow>
     f li (uniformData (mDefaultUniformBlocks st S)) = Inr (uniformData (mDefaultUniformBlocks st' S))"
proof (induction stages arbitrary: st)
  case Nil
  then show ?case by simp
next
  case (Cons T rest)
  then obtain st1 where 1: "updateStage loc f T st = Inr st1"
    and 2: "for_each_stage (updateStage loc f) rest st1 = Inr st'"
    by (auto split: sum.splits)
  show ?case
  proof (cases "T = S")
    case True
    with Cons.prems(2) have "S \<notin> set rest" by simp
    then have same: "mDefaultUniformBlocks st' S = mDefaultUniformBlocks st1 S"
      using for_each_stage_untouched [OF 2] by blast
    from 1 show ?thesis
    proof (cases rule: updateStage_cases)
      case (skipped li')
      then show ?thesis using Cons.prems(4,5) True by simp
    next
      case (written li' b)
      then show ?thesis using Cons.prems(4) True same by (simp add: setBlock_simps)
    qed
  next
    case False
    with Cons.prems(3) have in_rest: "S \<in> set rest" by simp
    from 1 have keep: "mDefaultUniformBlocks st1 S = mDefaultUniformBlocks st S"
      using False by (cases rule: updateStage_cases) (simp_all add: setBlock_simps)
    from Cons.prems(2) have d: "distinct rest" by simp
    from Cons.IH [OF 2 d in_rest] Cons.prems(4,5) keep show ?thesis by simp
  qed
qed

lemma for_each_stage_succeeds:
  "distinct stages \<Longrightarrow>
   (\<forall>S\<in>set stages. \<exists>li. at_index (uniformLayout (mDefaultUniformBlocks st S)) loc = Inr li \<and>
       (offset li \<noteq> - 1 \<longrightarrow> (\<exists>b. f li (uniformData (mDefaultUniformBlocks st S)) = Inr b))) \<Longrightarrow>
   \<exists>st'. for_each_stage (updateStage loc f) stages st = Inr st'"
proof (induction stages arbitrary: st)
  case Nil
  then show ?case by simp
next
  case (Cons T rest)
  from Cons.prems(2) obtain li where
    li: "at_index (uniformLayout (mDefaultUniformBlocks st T)) loc = Inr li"
    and w: "offset li \<noteq> - 1 \<longrightarrow> (\<exists>b. f li (uniformData (mDefaultUniformBlocks st T)) = Inr b)"
    by auto
  have "\<exists>st1. updateStage loc f T st = Inr st1"
  proof (cases "offset li = - 1")
    case True
    with li show ?thesis by (simp add: updateStage_def)
  next
    case False
    with w obtain b where "f li (uniformData (mDefaultUniformBlocks st T)) = Inr b" by blast
    with li False show ?thesis by (simp add: updateStage_def)
  qed
  then obtain st1 where 1: "updateStage loc f T st = Inr st1" ..
  have others: "\<forall>S\<in>set rest. mDefaultUniformBlocks st1 S = mDefaultUniformBlocks st S"
  proof
    fix S assume "S \<in> set rest"
    with Cons.prems(1) have "S \<noteq> T" by auto
    with 1 show "mDefaultUniformBlocks st1 S = mDefaultUniformBlocks st S"
      by (cases rule: updateStage_cases) (simp_all add: setBlock_simps)
  qed
  have "\<forall>S\<in>set rest. \<exists>li. at_index (uniformLayout (mDefaultUniformBlocks st1 S)) loc = Inr li \<and>
       (offset li \<noteq> - 1 \<longrightarrow> (\<exists>b. f li (uniformData (mDefaultUniformBlocks st1 S)) = Inr b))"
    using Cons.prems(2) others by simp
  moreover from Cons.prems(1) have "distinct rest" by simp
  ultimately obtain st' where "for_each_stage (updateStage loc f) rest st1 = Inr st'"
    using Cons.IH by blast
  with 1 show ?case by simp
qed

section \<open>The write entry points as loops over the stages\<close>

lemma setUniformImpl_loop:
  assumes "setUniformImpl T loc n v entry st = Inr st'"
  shows "\<exists>f. for_each_stage (updateStage loc f) (getLinkedShaderStages st) st = Inr st'"
proof -
  from assms obtain locationInfo where
    l: "at_index (getUniformLocations st) loc = Inr locationInfo"
    by (cases "at_index (getUniformLocations st) loc") (simp_all add: setUniformImpl_def)
  from assms l obtain linkedUniform where
    u: "at_index (getUniforms st) (uint (index locationInfo)) = Inr linkedUniform"
    by (cases "at_index (getUniforms st) (uint (index locationInfo))")
       (simp_all add: setUniformImpl_def)
  show ?thesis
  proof (cases "type' (typeInfo linkedUniform) = entry")
    case True
    with assms l u have
      "for_each_stage (setUniformImpl_matching loc n v locationInfo linkedUniform)
         (getLinkedShaderStages st) st = Inr st'"
      by (simp add: setUniformImpl_def split: if_splits)
    then show ?thesis
      unfolding setUniformImpl_matching_updateStage by blast
  next
    case False
    with assms l u have
      "for_each_stage (setUniformImpl_coercing T loc n v entry locationInfo linkedUniform)
         (getLinkedShaderStages st) st = Inr st'"
      by (simp add: setUniformImpl_def split: if_splits)
    then show ?thesis
      unfolding setUniformImpl_coercing_updateStage by blast
  qed
qed

lemma setUniformMatrixfv_loop:
  assumes "setUniformMatrixfv Run loc n tr val st = Inr st'"
  shows "\<exists>f. for_each_stage (updateStage loc f) (getLinkedShaderStages st) st = Inr st'"
proof -
  from assms obtain locationInfo where
    l: "at_index (getUniformLocations st) loc = Inr locationInfo"
    by (cases "at_index (getUniformLocations st) loc") (simp_all add: setUniformMatrixfv_def)
  from assms l obtain linkedUniform where
    u: "at_index (getUniforms st) (uint (index locationInfo)) = Inr linkedUniform"
    by (cases "at_index (getUniforms st) (uint (index locationInfo))")
       (simp_all add: setUniformMatrixfv_def)
  from assms l u have
    "for_each_stage (setUniformMatrixfv_stage Run loc n tr val locationInfo linkedUniform)
       (getLinkedShaderStages st) st = Inr st'"
    by (simp add: setUniformMatrixfv_def)
  then show ?thesis
    unfolding setUniformMatrixfv_stage_updateStage by blast
qed

lemma stage_loop_dirty:
  assumes "for_each_stage (updateStage loc f) (getLinkedShaderStages st) st = Inr st'"
  shows "(\<forall>S. mData (uniformData (mDefaultUniformBlocks st' S)) \<noteq>
              mData (uniformData (mDefaultUniformBlocks st S)) \<longrightarrow>
              S \<in> mDefaultUniformBlocksDirty st')
       \<and> (\<forall>S. touchesStage st loc S \<longrightarrow> S \<in> mDefaultUniformBlocksDirty st')
       \<and> (\<forall>S. S \<in> mDefaultUniformBlocksDirty st \<longrightarrow> S \<in> mDefaultUniformBlocksDirty st')
       \<and> (\<forall>S. \<not> touchesStage st loc S \<longrightarrow>
              mDefaultUniformBlocks st' S = mDefaultUniformBlocks st S \<and>
              (S \<in> mDefaultUniformBlocksDirty st' \<longleftrightarrow> S \<in> mDefaultUniformBlocksDirty st))
       \<and> (\<forall>S li. at_index (uniformLayout (mDefaultUniformBlocks st S)) loc = Inr li \<and>
              offset li = - 1 \<longrightarrow>
              mDefaultUniformBlocks st' S = mDefaultUniformBlocks st S \<and>
              (S \<in> mDefaultUniformBlocksDirty st' \<longleftrightarrow> S \<in> mDefaultUniformBlocksDirty st))"
proof -
  have untouched: "\<And>S. \<not> touchesStage st loc S \<Longrightarrow>
      mDefaultUniformBlocks st' S = mDefaultUniformBlocks st S \<and>
      (S \<in> mDefaultUniformBlocksDirty st' \<longleftrightarrow> S \<in> mDefaultUniformBlocksDirty st)"
    using for_each_stage_untouched [OF assms] by (auto simp add: touchesStage_def)
  have touched: "\<And>S. touchesStage st loc S \<Longrightarrow> S \<in> mDefaultUniformBlocksDirty st'"
    using for_each_stage_touched_dirty [OF assms] by (simp add: touchesStage_def)
  have sentinel: "\<And>S li. at_index (uniformLayout (mDefaultUniformBlocks st S)) loc = Inr li \<Longrightarrow>
      offset li = - 1 \<Longrightarrow> \<not> touchesStage st loc S"
    by (simp add: touchesStage_def layoutUsed_def)
  have changed: "\<And>S. mData (uniformData (mDefaultUniformBlocks st' S)) \<noteq>
              mData (uniformData (mDefaultUniformBlocks st S)) \<Longrightarrow>
              S \<in> mDefaultUniformBlocksDirty st'"
  proof -
    fix S
    assume c: "mData (uniformData (mDefaultUniformBlocks st' S)) \<noteq>
              mData (uniformData (mDefaultUniformBlocks st S))"
    have "touchesStage st loc S"
    proof (rule ccontr)
      assume "\<not> touchesStage st loc S"
      from untouched [OF this] c show False by simp
    qed
    then show "S \<in> mDefaultUniformBlocksDirty st'" by (rule touched)
  qed
  have mono: "\<And>S. S \<in> mDefaultUniformBlocksDirty st \<Longrightarrow> S \<in> mDefaultUniformBlocksDirty st'"
    using for_each_stage_dirty_mono [OF assms] by blast
  show ?thesis
    using changed touched mono untouched sentinel by blast
qed

section \<open>The loops of the boolean path\<close>

lemma setUniformImpl_components_spec:
  fixes m :: nat
  shows "(\<forall>k. c \<le> k \<and> k < c + int m \<longrightarrow>
            load32 (setUniformImpl_components c (c + int m) T v src block dst) (dst + 4 * k) =
              (if equals_zero T (load32 v (src + 4 * k)) then GL_FALSE else GL_TRUE))
       \<and> (\<forall>a. a < dst + 4 * c \<or> dst + 4 * (c + int m) \<le> a \<longrightarrow>
            setUniformImpl_components c (c + int m) T v src block dst a = block a)"
proof (induction m arbitrary: c block)
  case 0
  have "setUniformImpl_components c c T v src block dst = block"
    by (subst setUniformImpl_components.simps) simp
  then show ?case by auto
next
  case (Suc m)
  let ?w = "if equals_zero T (load32 v (src + 4 * c)) then GL_FALSE else GL_TRUE"
  let ?b1 = "store32 block (dst + 4 * c) ?w"
  let ?r = "setUniformImpl_components (c + 1) (c + 1 + int m) T v src ?b1 dst"
  have e: "c + int (Suc m) = c + 1 + int m" by simp
  have step: "setUniformImpl_components c (c + int (Suc m)) T v src block dst = ?r"
    unfolding e by (subst setUniformImpl_components.simps) (simp add: sizeof_T_def)
  have ih1: "\<And>k. c + 1 \<le> k \<and> k < c + 1 + int m \<Longrightarrow>
      load32 ?r (dst + 4 * k) =
        (if equals_zero T (load32 v (src + 4 * k)) then GL_FALSE else GL_TRUE)"
    and ih2: "\<And>a. a < dst + 4 * (c + 1) \<or> dst + 4 * (c + 1 + int m) \<le> a \<Longrightarrow> ?r a = ?b1 a"
    using Suc.IH [of "c + 1" ?b1] by blast+
  have first: "load32 ?r (dst + 4 * c) = ?w"
  proof -
    have "load32 ?r (dst + 4 * c) = load32 ?b1 (dst + 4 * c)"
      by (rule load32_cong) (simp add: ih2)
    then show ?thesis by (simp add: load32_store32)
  qed
  have loads: "\<forall>k. c \<le> k \<and> k < c + int (Suc m) \<longrightarrow>
            load32 ?r (dst + 4 * k) =
              (if equals_zero T (load32 v (src + 4 * k)) then GL_FALSE else GL_TRUE)"
  proof (intro allI impI)
    fix k assume k: "c \<le> k \<and> k < c + int (Suc m)"
    show "load32 ?r (dst + 4 * k) =
              (if equals_zero T (load32 v (src + 4 * k)) then GL_FALSE else GL_TRUE)"
    proof (cases "k = c")
      case True
      then show ?thesis using first by simp
    next
      case False
      with k have "c + 1 \<le> k \<and> k < c + 1 + int m" by simp
      then show ?thesis by (rule ih1)
    qed
  qed
  have frame: "\<forall>a. a < dst + 4 * c \<or> dst + 4 * (c + int (Suc m)) \<le> a \<longrightarrow> ?r a = block a"
  proof (intro allI impI)
    fix a assume a: "a < dst + 4 * c \<or> dst + 4 * (c + int (Suc m)) \<le> a"
    then have "?r a = ?b1 a" by (intro ih2) auto
    also have "\<dots> = block a" using a by (intro store32_other) auto
    finally show "?r a = block a" .
  qed
  show ?case unfolding step using loads frame by blast
qed

lemma setUniformImpl_components_none:
  "cnt \<le> 0 \<Longrightarrow> setUniformImpl_components 0 cnt T v src block dst = block"
  by (subst setUniformImpl_components.simps) simp

lemma setUniformImpl_components_from_0:
  assumes "0 \<le> cc"
  shows "(\<forall>k. 0 \<le> k \<and> k < cc \<longrightarrow>
            load32 (setUniformImpl_components 0 cc T v src block dst) (dst + 4 * k) =
              (if equals_zero T (load32 v (src + 4 * k)) then GL_FALSE else GL_TRUE))
       \<and> (\<forall>a. a < dst \<or> dst + 4 * cc \<le> a \<longrightarrow>
            setUniformImpl_components 0 cc T v src block dst a = block a)"
  using setUniformImpl_components_spec [of 0 "nat cc" T v src block dst] assms by simp

lemma setUniformImpl_elements_spec:
  fixes m :: nat
  assumes cc: "0 \<le> cc"
  shows "(\<forall>I. i \<le> I \<and> I < i + int m \<longrightarrow>
            0 \<le> I * arrayStride li \<and> I * arrayStride li < 2 ^ 31 \<and>
            0 \<le> I * arrayStride li + init \<and> I * arrayStride li + init < 2 ^ 31 \<and>
            0 \<le> I * cc \<and> I * cc < 2 ^ 31) \<Longrightarrow>
     (\<forall>a. (\<forall>I. i \<le> I \<and> I < i + int m \<longrightarrow>
               a < init + I * arrayStride li \<or> init + I * arrayStride li + 4 * cc \<le> a) \<longrightarrow>
          setUniformImpl_elements i (i + int m) cc T v li init block a = block a) \<and>
     (4 * cc \<le> arrayStride li \<or> m \<le> 1 \<longrightarrow>
        (\<forall>I k. i \<le> I \<and> I < i + int m \<and> 0 \<le> k \<and> k < cc \<longrightarrow>
           load32 (setUniformImpl_elements i (i + int m) cc T v li init block)
             (init + I * arrayStride li + 4 * k) =
           (if equals_zero T (load32 v (4 * (I * cc) + 4 * k)) then GL_FALSE else GL_TRUE)))"
proof (induction m arbitrary: i block)
  case 0
  have "setUniformImpl_elements i i cc T v li init block = block"
    by (subst setUniformImpl_elements.simps) simp
  then show ?case by auto
next
  case (Suc m)
  let ?s = "arrayStride li"
  let ?b1 = "setUniformImpl_components 0 cc T v (4 * (i * cc)) block (init + i * ?s)"
  let ?r = "setUniformImpl_elements (i + 1) (i + 1 + int m) cc T v li init ?b1"
  have here: "i \<le> i \<and> i < i + int (Suc m)" by simp
  from Suc.prems here have b:
    "0 \<le> i * ?s" "i * ?s < 2 ^ 31" "0 \<le> i * ?s + init" "i * ?s + init < 2 ^ 31"
    "0 \<le> i * cc" "i * cc < 2 ^ 31"
    by blast+
  have c1: "to_int (i * ?s) = i * ?s" using b(1,2) by (rule to_int_nonneg)
  have c2: "to_int (i * ?s + init) = i * ?s + init" using b(3,4) by (rule to_int_nonneg)
  have c2': "to_int (init + i * ?s) = init + i * ?s" using c2 by (simp add: add.commute)
  have c3: "to_int (i * cc) = i * cc" using b(5,6) by (rule to_int_nonneg)
  have e: "i + int (Suc m) = i + 1 + int m" by simp
  have step: "setUniformImpl_elements i (i + int (Suc m)) cc T v li init block = ?r"
    unfolding e
    by (subst setUniformImpl_elements.simps)
       (simp add: Let_def c1 c2 c2' c3 sizeof_T_def add.commute)
  have pre: "\<forall>I. i + 1 \<le> I \<and> I < i + 1 + int m \<longrightarrow>
            0 \<le> I * ?s \<and> I * ?s < 2 ^ 31 \<and>
            0 \<le> I * ?s + init \<and> I * ?s + init < 2 ^ 31 \<and>
            0 \<le> I * cc \<and> I * cc < 2 ^ 31"
    using Suc.prems by simp
  from Suc.IH [OF pre, of ?b1] have
    ihf: "\<And>a. (\<forall>I. i + 1 \<le> I \<and> I < i + 1 + int m \<longrightarrow>
               a < init + I * ?s \<or> init + I * ?s + 4 * cc \<le> a) \<Longrightarrow> ?r a = ?b1 a"
    and ihp: "4 * cc \<le> ?s \<or> m \<le> 1 \<Longrightarrow>
        (\<forall>I k. i + 1 \<le> I \<and> I < i + 1 + int m \<and> 0 \<le> k \<and> k < cc \<longrightarrow>
           load32 ?r (init + I * ?s + 4 * k) =
           (if equals_zero T (load32 v (4 * (I * cc) + 4 * k)) then GL_FALSE else GL_TRUE))"
    by blast+
  from setUniformImpl_components_from_0 [OF cc, of T v "4 * (i * cc)" block "init + i * ?s"] have
    cl: "\<And>k. 0 \<le> k \<and> k < cc \<Longrightarrow>
            load32 ?b1 (init + i * ?s + 4 * k) =
              (if equals_zero T (load32 v (4 * (i * cc) + 4 * k)) then GL_FALSE else GL_TRUE)"
    and cf: "\<And>a. a < init + i * ?s \<or> init + i * ?s + 4 * cc \<le> a \<Longrightarrow> ?b1 a = block a"
    by blast+
  have frame: "\<forall>a. (\<forall>I. i \<le> I \<and> I < i + int (Suc m) \<longrightarrow>
               a < init + I * ?s \<or> init + I * ?s + 4 * cc \<le> a) \<longrightarrow> ?r a = block a"
  proof (intro allI impI)
    fix a
    assume out: "\<forall>I. i \<le> I \<and> I < i + int (Suc m) \<longrightarrow>
               a < init + I * ?s \<or> init + I * ?s + 4 * cc \<le> a"
    then have "\<forall>I. i + 1 \<le> I \<and> I < i + 1 + int m \<longrightarrow>
               a < init + I * ?s \<or> init + I * ?s + 4 * cc \<le> a"
      by simp
    then have "?r a = ?b1 a" by (rule ihf)
    moreover have "a < init + i * ?s \<or> init + i * ?s + 4 * cc \<le> a"
      using out here by blast
    then have "?b1 a = block a" by (rule cf)
    ultimately show "?r a = block a" by simp
  qed
  have place: "4 * cc \<le> ?s \<or> Suc m \<le> 1 \<longrightarrow>
        (\<forall>I k. i \<le> I \<and> I < i + int (Suc m) \<and> 0 \<le> k \<and> k < cc \<longrightarrow>
           load32 ?r (init + I * ?s + 4 * k) =
           (if equals_zero T (load32 v (4 * (I * cc) + 4 * k)) then GL_FALSE else GL_TRUE))"
  proof (intro impI allI)
    fix I k
    assume sep: "4 * cc \<le> ?s \<or> Suc m \<le> 1"
    assume ik: "i \<le> I \<and> I < i + int (Suc m) \<and> 0 \<le> k \<and> k < cc"
    show "load32 ?r (init + I * ?s + 4 * k) =
           (if equals_zero T (load32 v (4 * (I * cc) + 4 * k)) then GL_FALSE else GL_TRUE)"
    proof (cases "I = i")
      case True
      have "load32 ?r (init + i * ?s + 4 * k) = load32 ?b1 (init + i * ?s + 4 * k)"
      proof (rule load32_cong)
        fix j :: int assume j: "0 \<le> j" "j < 4"
        have "\<forall>I'. i + 1 \<le> I' \<and> I' < i + 1 + int m \<longrightarrow>
               init + i * ?s + 4 * k + j < init + I' * ?s \<or>
               init + I' * ?s + 4 * cc \<le> init + i * ?s + 4 * k + j"
        proof (intro allI impI)
          fix I' assume i': "i + 1 \<le> I' \<and> I' < i + 1 + int m"
          then have "0 < m" by simp
          with sep have big: "4 * cc \<le> ?s" by simp
          then have s0: "0 \<le> ?s" using cc by linarith
          have "(i + 1) * ?s \<le> I' * ?s"
            using i' s0 by (intro mult_right_mono) simp_all
          then have "i * ?s + ?s \<le> I' * ?s"
            by (simp add: algebra_simps)
          then show "init + i * ?s + 4 * k + j < init + I' * ?s \<or>
               init + I' * ?s + 4 * cc \<le> init + i * ?s + 4 * k + j"
            using ik j big by linarith
        qed
        then show "?r (init + i * ?s + 4 * k + j) = ?b1 (init + i * ?s + 4 * k + j)"
          by (rule ihf)
      qed
      also have "\<dots> = (if equals_zero T (load32 v (4 * (i * cc) + 4 * k)) then GL_FALSE else GL_TRUE)"
        using ik by (intro cl) simp
      finally show ?thesis using True by simp
    next
      case False
      with ik have k1: "i + 1 \<le> I \<and> I < i + 1 + int m \<and> 0 \<le> k \<and> k < cc" by simp
      then have "0 < m" by linarith
      with sep have "4 * cc \<le> ?s \<or> m \<le> 1" by simp
      from ihp [OF this] k1 show ?thesis by blast
    qed
  qed
  show ?case unfolding step using frame place by blast
qed

section \<open>Writing one element and reading it back\<close>

lemma linked_stage_valid: "S \<in> set (getLinkedShaderStages st) \<Longrightarrow> S \<noteq> InvalidEnum"
  by (auto simp add: set_getLinkedShaderStages kAllShaderTypes_def)

lemma load32_memcpy:
  assumes "0 \<le> k" "k + 4 \<le> n"
  shows "load32 (memcpy dst 0 src p n) k = load32 src (p + k)"
proof (rule load32_cong)
  fix j :: int assume "0 \<le> j" "j < 4"
  then show "memcpy dst 0 src p n (k + j) = src (p + k + j)"
    using assms by (simp add: memcpy_in add.assoc)
qed

lemma getUniformImpl_plain:
  assumes loc: "at_index (getUniformLocations st) loc = Inr locationInfo"
    and uni: "at_index (getUniforms st) (uint (index locationInfo)) = Inr u"
    and plain: "\<not> isSampler (typeInfo u)" "\<not> isImageType (typeInfo u)" "\<not> IsMatrixType (type u)"
    and cty: "componentType (typeInfo u) = getEntry \<or>
              componentType (typeInfo u) = VariableBoolVectorType getEntry"
    and active: "getFirstShaderTypeWhereActive u \<noteq> InvalidEnum"
    and li: "at_index (uniformLayout (mDefaultUniformBlocks st (getFirstShaderTypeWhereActive u))) loc
               = Inr li"
  shows "getUniformImpl G loc dst getEntry st =
           ReadFromDefaultUniformBlock (componentCount (typeInfo u)) (arrayIndex locationInfo) dst li
             (uniformData (mDefaultUniformBlocks st (getFirstShaderTypeWhereActive u)))"
  using cty by (auto simp add: getUniformImpl_def loc uni plain active li Let_def)

section \<open>The boolean path\<close>

lemma VariableBoolVectorType_differs:
  "VariableBoolVectorType entry \<noteq> GL_NONE \<Longrightarrow> VariableBoolVectorType entry \<noteq> entry"
  by (cases entry) simp_all

lemma initialArrayOffset_small:
  assumes "0 \<le> offset li" "0 \<le> arrayStride li" "offset li + uint ai * arrayStride li < 2 ^ 31"
  shows "to_int (to_uint32 (to_uint32 (uint ai * arrayStride li) + offset li)) =
           offset li + uint ai * arrayStride li"
proof -
  have p: "0 \<le> uint ai * arrayStride li" using assms(2) by simp
  have "uint ai * arrayStride li < 2 ^ 31" using assms(1,3) by linarith
  with p have a: "to_uint32 (uint ai * arrayStride li) = uint ai * arrayStride li"
    by (rule to_uint32_small)
  have q: "0 \<le> uint ai * arrayStride li + offset li" using p assms(1) by linarith
  have r: "uint ai * arrayStride li + offset li < 2 ^ 31" using assms(3) by linarith
  from q r have b: "to_uint32 (uint ai * arrayStride li + offset li) = uint ai * arrayStride li + offset li"
    by (rule to_uint32_small)
  from q r have c: "to_int (uint ai * arrayStride li + offset li) = uint ai * arrayStride li + offset li"
    by (rule to_int_nonneg)
  show ?thesis by (simp add: a b c)
qed

lemma coercing_write_spec:
  assumes inb: "elementsInBlock li ai n cc buf"
    and n: "0 < n" and cc: "0 < cc"
    and sep: "4 * cc \<le> arrayStride li \<or> n = 1"
  shows "\<forall>i k. 0 \<le> i \<and> i < n \<and> 0 \<le> k \<and> k < cc \<longrightarrow>
     load32 (setUniformImpl_elements 0 n cc T v li
               (to_int (to_uint32 (to_uint32 (uint ai * arrayStride li) + offset li))) m)
       (offset li + (uint ai + i) * arrayStride li + 4 * k) =
     (if equals_zero T (load32 v (4 * (i * cc) + 4 * k)) then GL_FALSE else GL_TRUE)"
proof -
  let ?s = "arrayStride li"
  let ?init = "offset li + uint ai * ?s"
  from inb have h: "0 \<le> offset li" "0 \<le> ?s"
    "offset li + (uint ai + n - 1) * ?s + 4 * cc \<le> mSize buf" "mSize buf < 2 ^ 31"
    by (simp_all add: elementsInBlock_def sizeof_T_def)
  have ai0: "0 \<le> uint ai" by simp
  have top: "offset li + (uint ai + n - 1) * ?s + 4 * cc < 2 ^ 31" using h(3,4) by linarith
  have split: "(uint ai + n - 1) * ?s = uint ai * ?s + (n - 1) * ?s" by (simp add: algebra_simps)
  have ais: "0 \<le> uint ai * ?s" using h(2) by simp
  have n1s: "0 \<le> (n - 1) * ?s" using n h(2) by simp
  have "?init < 2 ^ 31" using top split n1s cc by linarith
  then have init: "to_int (to_uint32 (to_uint32 (uint ai * ?s) + offset li)) = ?init"
    using h(1,2) by (intro initialArrayOffset_small)
  have cnt: "(n - 1) * cc < 2 ^ 31"
  proof (cases "n = 1")
    case True then show ?thesis by simp
  next
    case False
    with sep have big: "4 * cc \<le> ?s" by simp
    have "(n - 1) * cc \<le> (n - 1) * ?s"
      using big cc n by (intro mult_left_mono) simp_all
    then show ?thesis using top split ais h(1) cc by linarith
  qed
  have nn: "n = 0 + int (nat n)" using n by simp
  have pre: "\<forall>I. 0 \<le> I \<and> I < 0 + int (nat n) \<longrightarrow>
            0 \<le> I * ?s \<and> I * ?s < 2 ^ 31 \<and>
            0 \<le> I * ?s + ?init \<and> I * ?s + ?init < 2 ^ 31 \<and>
            0 \<le> I * cc \<and> I * cc < 2 ^ 31"
  proof (intro allI impI)
    fix I assume "0 \<le> I \<and> I < 0 + int (nat n)"
    then have I: "0 \<le> I" "I \<le> n - 1" using n by simp_all
    have a: "0 \<le> I * ?s" using I(1) h(2) by simp
    have b: "I * ?s \<le> (n - 1) * ?s" using I(2) h(2) by (rule mult_right_mono)
    have c: "0 \<le> I * cc" using I(1) cc by simp
    have d: "I * cc \<le> (n - 1) * cc" using I(2) cc by (intro mult_right_mono) simp_all
    show "0 \<le> I * ?s \<and> I * ?s < 2 ^ 31 \<and>
            0 \<le> I * ?s + ?init \<and> I * ?s + ?init < 2 ^ 31 \<and>
            0 \<le> I * cc \<and> I * cc < 2 ^ 31"
      using a b c d top split ais h(1) cc cnt by (intro conjI) linarith+
  qed
  have sep': "4 * cc \<le> ?s \<or> nat n \<le> 1" using sep by auto
  have cc0: "0 \<le> cc" using cc by simp
  from setUniformImpl_elements_spec [OF cc0 pre, of T v m] sep' have
    "\<forall>I k. 0 \<le> I \<and> I < 0 + int (nat n) \<and> 0 \<le> k \<and> k < cc \<longrightarrow>
           load32 (setUniformImpl_elements 0 (0 + int (nat n)) cc T v li ?init m)
             (?init + I * ?s + 4 * k) =
           (if equals_zero T (load32 v (4 * (I * cc) + 4 * k)) then GL_FALSE else GL_TRUE)"
    by blast
  then have "\<forall>I k. 0 \<le> I \<and> I < n \<and> 0 \<le> k \<and> k < cc \<longrightarrow>
           load32 (setUniformImpl_elements 0 n cc T v li ?init m)
             (?init + I * ?s + 4 * k) =
           (if equals_zero T (load32 v (4 * (I * cc) + 4 * k)) then GL_FALSE else GL_TRUE)"
    using nn by simp
  then have main: "\<And>I k. 0 \<le> I \<and> I < n \<and> 0 \<le> k \<and> k < cc \<Longrightarrow>
           load32 (setUniformImpl_elements 0 n cc T v li ?init m)
             (?init + I * ?s + 4 * k) =
           (if equals_zero T (load32 v (4 * (I * cc) + 4 * k)) then GL_FALSE else GL_TRUE)"
    by blast
  show ?thesis
    unfolding init
  proof (intro allI impI)
    fix i k assume ik: "0 \<le> i \<and> i < n \<and> 0 \<le> k \<and> k < cc"
    have addr: "offset li + (uint ai + i) * ?s + 4 * k = ?init + i * ?s + 4 * k"
      by (simp add: algebra_simps)
    show "load32 (setUniformImpl_elements 0 n cc T v li ?init m)
            (offset li + (uint ai + i) * ?s + 4 * k) =
          (if equals_zero T (load32 v (4 * (i * cc) + 4 * k)) then GL_FALSE else GL_TRUE)"
      unfolding addr using ik by (rule main)
  qed
qed

section \<open>The layout table\<close>

lemma initDefaultUniformLayoutMapping_find_spec:
  "initDefaultUniformLayoutMapping_find lm nm stages (found, li) =
     (found \<or> (\<exists>S\<in>set stages. lm S nm \<noteq> None),
      \<lambda>S. if S \<in> set stages \<and> lm S nm \<noteq> None then the (lm S nm) else li S)"
proof (induction stages arbitrary: found li)
  case Nil
  show ?case by simp
next
  case (Cons T rest)
  show ?case
  proof (cases "lm T nm")
    case None
    then show ?thesis by (auto simp add: Cons.IH fun_eq_iff)
  next
    case (Some info)
    then show ?thesis by (auto simp add: Cons.IH fun_eq_iff)
  qed
qed

lemma push_tables:
  "getUniformLocations (initDefaultUniformLayoutMapping_push li stages st) = getUniformLocations st \<and>
   getUniforms (initDefaultUniformLayoutMapping_push li stages st) = getUniforms st \<and>
   linkedShaderStages (initDefaultUniformLayoutMapping_push li stages st) = linkedShaderStages st"
  by (induction stages arbitrary: st) simp_all

lemma push_stages:
  "getLinkedShaderStages (initDefaultUniformLayoutMapping_push li stages st) =
     getLinkedShaderStages st"
  by (simp add: getLinkedShaderStages_def push_tables)

lemma push_layout:
  "distinct stages \<Longrightarrow>
   uniformLayout (mDefaultUniformBlocks (initDefaultUniformLayoutMapping_push li stages st) S) =
     (if S \<in> set stages then uniformLayout (mDefaultUniformBlocks st S) @ [li S]
      else uniformLayout (mDefaultUniformBlocks st S))"
  by (induction stages arbitrary: st) auto

lemma location_independent:
  assumes "getUniforms st' = getUniforms st" "getLinkedShaderStages st' = getLinkedShaderStages st"
  shows "initDefaultUniformLayoutMapping_location lm st' location =
     initDefaultUniformLayoutMapping_location lm st location"
  unfolding initDefaultUniformLayoutMapping_location_def assms ..

lemma locations_spec:
  "initDefaultUniformLayoutMapping_locations lm locs st = Inr st' \<Longrightarrow>
     getUniforms st' = getUniforms st \<and> getLinkedShaderStages st' = getLinkedShaderStages st \<and>
     getUniformLocations st' = getUniformLocations st \<and>
     (\<forall>location\<in>set locs. \<exists>li. initDefaultUniformLayoutMapping_location lm st location = Inr li) \<and>
     (\<forall>S\<in>set (getLinkedShaderStages st).
        uniformLayout (mDefaultUniformBlocks st' S) =
          uniformLayout (mDefaultUniformBlocks st S) @
            map (\<lambda>location. projr (initDefaultUniformLayoutMapping_location lm st location) S) locs)"
proof (induction locs arbitrary: st)
  case Nil
  then show ?case by simp
next
  case (Cons location rest)
  let ?stages = "getLinkedShaderStages st"
  from Cons.prems obtain li where
    li: "initDefaultUniformLayoutMapping_location lm st location = Inr li"
    and run: "initDefaultUniformLayoutMapping_locations lm rest
                (initDefaultUniformLayoutMapping_push li ?stages st) = Inr st'"
    by (auto split: sum.splits)
  let ?st1 = "initDefaultUniformLayoutMapping_push li ?stages st"
  have u1: "getUniforms ?st1 = getUniforms st" and s1: "getLinkedShaderStages ?st1 = ?stages"
    and l1: "getUniformLocations ?st1 = getUniformLocations st"
    by (simp_all add: push_tables push_stages)
  have same: "\<And>l. initDefaultUniformLayoutMapping_location lm ?st1 l =
                   initDefaultUniformLayoutMapping_location lm st l"
    using u1 s1 by (rule location_independent)
  have lay1: "\<And>S. S \<in> set ?stages \<Longrightarrow>
      uniformLayout (mDefaultUniformBlocks ?st1 S) = uniformLayout (mDefaultUniformBlocks st S) @ [li S]"
    by (simp add: push_layout distinct_getLinkedShaderStages)
  from Cons.IH [OF run] have
    ih: "getUniforms st' = getUniforms ?st1" "getLinkedShaderStages st' = getLinkedShaderStages ?st1"
         "getUniformLocations st' = getUniformLocations ?st1"
    and ihs: "\<forall>l\<in>set rest. \<exists>li'. initDefaultUniformLayoutMapping_location lm ?st1 l = Inr li'"
    and ihl: "\<forall>S\<in>set (getLinkedShaderStages ?st1).
        uniformLayout (mDefaultUniformBlocks st' S) =
          uniformLayout (mDefaultUniformBlocks ?st1 S) @
            map (\<lambda>l. projr (initDefaultUniformLayoutMapping_location lm ?st1 l) S) rest"
    by blast+
  have a: "\<forall>l\<in>set (location # rest). \<exists>li'. initDefaultUniformLayoutMapping_location lm st l = Inr li'"
    using li ihs same by auto
  have b: "\<forall>S\<in>set ?stages.
        uniformLayout (mDefaultUniformBlocks st' S) =
          uniformLayout (mDefaultUniformBlocks st S) @
            map (\<lambda>l. projr (initDefaultUniformLayoutMapping_location lm st l) S) (location # rest)"
    using ihl lay1 li by (simp add: s1 same)
  show ?case using ih a b by (simp add: u1 s1 l1)
qed

lemma location_lookup:
  assumes q: "used location" "\<not> ignored location"
    and uni: "at_index (getUniforms st) (uint (index location)) = Inr u"
    and d: "isInDefaultBlock u" "\<not> isSampler (typeInfo u)" "\<not> isImageType (typeInfo u)"
      "\<not> isFragmentInOut u"
  shows "initDefaultUniformLayoutMapping_location lm st location =
     (if isArray u \<and> length (StripLastArrayIndex (name u)) = length (name u)
      then Inl AssertionFailure
      else if \<exists>S\<in>set (getLinkedShaderStages st).
                lm S (if isArray u then StripLastArrayIndex (name u) else name u) \<noteq> None
      then Inr (\<lambda>S. if S \<in> set (getLinkedShaderStages st) \<and>
                      lm S (if isArray u then StripLastArrayIndex (name u) else name u) \<noteq> None
                   then the (lm S (if isArray u then StripLastArrayIndex (name u) else name u))
                   else kDefaultBlockMemberInfo)
      else Inl AssertionFailure)"
  by (simp add: initDefaultUniformLayoutMapping_location_def q uni d Let_def
      initDefaultUniformLayoutMapping_find_spec)

section \<open>The encoder\<close>

lemma GetActiveUniformBlockInfo_skips_opaque:
  "GetActiveUniformBlockInfo uniforms (cur, m) =
     GetActiveUniformBlockInfo (filter (\<lambda>u. \<not> IsOpaqueType (type u)) uniforms) (cur, m)"
  by (induction uniforms arbitrary: cur m) (auto split: prod.splits)

lemma boolean_write_general:
  assumes loc: "at_index (getUniformLocations st) loc = Inr locationInfo"
    and uni: "at_index (getUniforms st) (uint (index locationInfo)) = Inr u"
    and plain: "\<not> isSampler (typeInfo u)" "\<not> isImageType (typeInfo u)" "\<not> IsMatrixType (type u)"
    and entry: "VariableBoolVectorType entry \<noteq> GL_NONE"
    and ty: "type' (typeInfo u) = VariableBoolVectorType entry"
    and cty: "componentType (typeInfo u) = VariableBoolVectorType getEntry"
    and cc: "0 < componentCount (typeInfo u)" "componentCount (typeInfo u) \<le> 4"
    and n: "0 < n"
    and active: "getFirstShaderTypeWhereActive u \<in> set (getLinkedShaderStages st)"
    and used: "layoutUsed st loc (getFirstShaderTypeWhereActive u)"
    and layouts: "\<forall>S\<in>set (getLinkedShaderStages st).
        \<exists>li. at_index (uniformLayout (mDefaultUniformBlocks st S)) loc = Inr li \<and>
          (offset li \<noteq> - 1 \<longrightarrow>
             elementsInBlock li (arrayIndex locationInfo) n (componentCount (typeInfo u))
               (uniformData (mDefaultUniformBlocks st S)) \<and>
             (4 * componentCount (typeInfo u) \<le> arrayStride li \<or> n = 1))"
  shows "\<exists>st' dst'. setUniformImpl T loc n v entry st = Inr st' \<and>
           (\<forall>S li i k. S \<in> set (getLinkedShaderStages st) \<and>
               at_index (uniformLayout (mDefaultUniformBlocks st S)) loc = Inr li \<and>
               offset li \<noteq> - 1 \<and> 0 \<le> i \<and> i < n \<and> 0 \<le> k \<and> k < componentCount (typeInfo u) \<longrightarrow>
               load32 (mData (uniformData (mDefaultUniformBlocks st' S)))
                 (offset li + (uint (arrayIndex locationInfo) + i) * arrayStride li + 4 * k) =
               (if equals_zero T (load32 v (4 * (i * componentCount (typeInfo u)) + 4 * k))
                then GL_FALSE else GL_TRUE)) \<and>
           getUniformImpl G loc dst getEntry st' = Inr dst' \<and>
           (\<forall>k. 0 \<le> k \<and> k < componentCount (typeInfo u) \<longrightarrow>
               load32 dst' (4 * k) =
               (if equals_zero T (load32 v (4 * k)) then GL_FALSE else GL_TRUE))"
proof -
  let ?cc = "componentCount (typeInfo u)"
  let ?ai = "arrayIndex locationInfo"
  let ?init = "\<lambda>li. to_int (to_uint32 (to_uint32 (uint ?ai * arrayStride li) + offset li))"
  let ?f = "\<lambda>layoutInfo buffer.
          if type' (typeInfo u) \<noteq> VariableBoolVectorType entry
          then Inl AssertionFailure
          else Inr (buffer\<lparr>mData :=
                 setUniformImpl_elements 0 n ?cc T v layoutInfo (?init layoutInfo) (mData buffer)\<rparr>)"
  let ?S0 = "getFirstShaderTypeWhereActive u"
  let ?stages = "getLinkedShaderStages st"
  have cc': "0 \<le> ?cc" "?cc < 2 ^ 29" using cc by simp_all
  have differs: "type' (typeInfo u) \<noteq> entry"
    using VariableBoolVectorType_differs [OF entry] ty by simp
  have set_eq: "setUniformImpl T loc n v entry st = for_each_stage (updateStage loc ?f) ?stages st"
    by (simp add: setUniformImpl_def loc uni plain differs setUniformImpl_coercing_updateStage)
  have f_eq: "\<And>li buf. ?f li buf =
      Inr (buf\<lparr>mData := setUniformImpl_elements 0 n ?cc T v li (?init li) (mData buf)\<rparr>)"
    using ty by simp
  have "\<forall>S\<in>set ?stages. \<exists>li. at_index (uniformLayout (mDefaultUniformBlocks st S)) loc = Inr li \<and>
       (offset li \<noteq> - 1 \<longrightarrow> (\<exists>b. ?f li (uniformData (mDefaultUniformBlocks st S)) = Inr b))"
    using layouts f_eq by blast
  from for_each_stage_succeeds [OF distinct_getLinkedShaderStages this]
  obtain st' where run: "for_each_stage (updateStage loc ?f) ?stages st = Inr st'" by blast
  from for_each_stage_tables [OF run] have
    t1: "getUniformLocations st' = getUniformLocations st"
    and t2: "getUniforms st' = getUniforms st"
    and t3: "\<And>S. uniformLayout (mDefaultUniformBlocks st' S) = uniformLayout (mDefaultUniformBlocks st S)"
    by simp_all
  have stored: "\<And>S li i k. S \<in> set ?stages \<Longrightarrow>
               at_index (uniformLayout (mDefaultUniformBlocks st S)) loc = Inr li \<Longrightarrow>
               offset li \<noteq> - 1 \<Longrightarrow> 0 \<le> i \<and> i < n \<and> 0 \<le> k \<and> k < ?cc \<Longrightarrow>
               load32 (mData (uniformData (mDefaultUniformBlocks st' S)))
                 (offset li + (uint ?ai + i) * arrayStride li + 4 * k) =
               (if equals_zero T (load32 v (4 * (i * ?cc) + 4 * k)) then GL_FALSE else GL_TRUE)"
  proof -
    fix S li i k
    assume S: "S \<in> set ?stages"
      and li: "at_index (uniformLayout (mDefaultUniformBlocks st S)) loc = Inr li"
      and off: "offset li \<noteq> - 1" and ik: "0 \<le> i \<and> i < n \<and> 0 \<le> k \<and> k < ?cc"
    let ?buf = "uniformData (mDefaultUniformBlocks st S)"
    from layouts S li off have inb: "elementsInBlock li ?ai n ?cc ?buf"
      and sep: "4 * ?cc \<le> arrayStride li \<or> n = 1"
      by fastforce+
    have "?f li ?buf = Inr (uniformData (mDefaultUniformBlocks st' S))"
      using run distinct_getLinkedShaderStages S li off by (rule for_each_stage_effect)
    then have "uniformData (mDefaultUniformBlocks st' S) =
            ?buf\<lparr>mData := setUniformImpl_elements 0 n ?cc T v li (?init li) (mData ?buf)\<rparr>"
      using ty by simp
    then have "mData (uniformData (mDefaultUniformBlocks st' S)) =
            setUniformImpl_elements 0 n ?cc T v li (?init li) (mData ?buf)"
      by simp
    with coercing_write_spec [OF inb n cc(1) sep, of T v "mData ?buf"] ik
    show "load32 (mData (uniformData (mDefaultUniformBlocks st' S)))
                 (offset li + (uint ?ai + i) * arrayStride li + 4 * k) =
               (if equals_zero T (load32 v (4 * (i * ?cc) + 4 * k)) then GL_FALSE else GL_TRUE)"
      by simp
  qed
  from used obtain li0 where
    li0: "at_index (uniformLayout (mDefaultUniformBlocks st ?S0)) loc = Inr li0"
    and off: "offset li0 \<noteq> - 1"
    by (auto simp add: layoutUsed_def split: sum.splits)
  from layouts active li0 off have
    inb: "elementsInBlock li0 ?ai n ?cc (uniformData (mDefaultUniformBlocks st ?S0))"
    by fastforce
  then have h: "0 \<le> offset li0" "0 \<le> arrayStride li0"
      "offset li0 + (uint ?ai + n - 1) * arrayStride li0 + 4 * ?cc
         \<le> mSize (uniformData (mDefaultUniformBlocks st ?S0))"
      "mSize (uniformData (mDefaultUniformBlocks st ?S0)) < 2 ^ 31"
    by (simp_all add: elementsInBlock_def sizeof_T_def)
  have "uint ?ai * arrayStride li0 \<le> (uint ?ai + n - 1) * arrayStride li0"
    using n h(2) by (intro mult_right_mono) simp_all
  then have small: "uint ?ai * arrayStride li0 < 2 ^ 31"
    using h cc by linarith
  let ?blk = "mData (uniformData (mDefaultUniformBlocks st' ?S0))"
  let ?dst' = "memcpy dst 0 ?blk (offset li0 + uint ?ai * arrayStride li0) (4 * ?cc)"
  have "getUniformImpl G loc dst getEntry st' =
          ReadFromDefaultUniformBlock ?cc ?ai dst li0 (uniformData (mDefaultUniformBlocks st' ?S0))"
    using loc uni plain cty linked_stage_valid [OF active] li0
    by (intro getUniformImpl_plain) (simp_all add: t1 t2 t3)
  also have "\<dots> = Inr ?dst'"
    using off by (simp add: ReadFromDefaultUniformBlock_def
        ReadFromDefaultUniformBlock_arms [OF h(2) small] to_size_t_elementSize [OF cc'])
  finally have get: "getUniformImpl G loc dst getEntry st' = Inr ?dst'" .
  have readback: "\<forall>k. 0 \<le> k \<and> k < ?cc \<longrightarrow>
               load32 ?dst' (4 * k) =
               (if equals_zero T (load32 v (4 * k)) then GL_FALSE else GL_TRUE)"
  proof (intro allI impI)
    fix k assume k: "0 \<le> k \<and> k < ?cc"
    then have "load32 ?dst' (4 * k) = load32 ?blk (offset li0 + uint ?ai * arrayStride li0 + 4 * k)"
      by (intro load32_memcpy) simp_all
    also have "\<dots> = load32 ?blk (offset li0 + (uint ?ai + 0) * arrayStride li0 + 4 * k)"
      by simp
    also have "\<dots> = (if equals_zero T (load32 v (4 * (0 * ?cc) + 4 * k)) then GL_FALSE else GL_TRUE)"
      using k n by (intro stored [OF active li0 off]) simp
    finally show "load32 ?dst' (4 * k) =
               (if equals_zero T (load32 v (4 * k)) then GL_FALSE else GL_TRUE)"
      by simp
  qed
  show ?thesis
    using set_eq run get readback stored by (intro exI [of _ st'] exI [of _ ?dst']) auto
qed

section \<open>Facts about the example program\<close>

lemma example_tables:
  "getUniformLocations example_program = example_locations"
  "getUniforms example_program =
     [color_uniform, flags_uniform, tex_uniform, img_uniform, offsets_uniform]"
  "mDefaultUniformBlocks example_program Vertex = vertex_block"
  "mDefaultUniformBlocks example_program Fragment = fragment_block"
  "mDefaultUniformBlocksDirty example_program = {}"
  by (simp_all add: example_program_def)

lemma example_stages: "getLinkedShaderStages example_program = [Vertex, Fragment]"
  by (simp add: getLinkedShaderStages_def kAllShaderTypes_def example_program_def)

lemma example_location:
  "at_index example_locations 0 = Inr \<lparr>arrayIndex = 0, index = 0, ignored = False\<rparr>"
  "at_index example_locations 1 = Inr \<lparr>arrayIndex = 0, index = 1, ignored = False\<rparr>"
  "at_index example_locations 2 = Inr \<lparr>arrayIndex = 1, index = 1, ignored = False\<rparr>"
  "at_index example_locations 3 = Inr \<lparr>arrayIndex = 0, index = 2, ignored = False\<rparr>"
  "at_index example_locations 4 = Inr \<lparr>arrayIndex = 0, index = 3, ignored = False\<rparr>"
  "at_index example_locations 6 = Inr \<lparr>arrayIndex = 1, index = 4, ignored = False\<rparr>"
  by (simp_all add: at_index_def example_locations_def)

lemma example_uniform:
  "at_index [color_uniform, flags_uniform, tex_uniform, img_uniform, offsets_uniform] 0 =
     Inr color_uniform"
  "at_index [color_uniform, flags_uniform, tex_uniform, img_uniform, offsets_uniform] 1 =
     Inr flags_uniform"
  "at_index [color_uniform, flags_uniform, tex_uniform, img_uniform, offsets_uniform] 2 =
     Inr tex_uniform"
  "at_index [color_uniform, flags_uniform, tex_uniform, img_uniform, offsets_uniform] 3 =
     Inr img_uniform"
  "at_index [color_uniform, flags_uniform, tex_uniform, img_uniform, offsets_uniform] 4 =
     Inr offsets_uniform"
  by (simp_all add: at_index_def)

lemma example_layout:
  "at_index (uniformLayout vertex_block) 0 = Inr color_record"
  "at_index (uniformLayout vertex_block) 1 = Inr kDefaultBlockMemberInfo"
  "at_index (uniformLayout vertex_block) 2 = Inr kDefaultBlockMemberInfo"
  "at_index (uniformLayout vertex_block) 4 = Inr kDefaultBlockMemberInfo"
  "at_index (uniformLayout vertex_block) 6 = Inr array_record"
  "at_index (uniformLayout fragment_block) 0 = Inr color_record"
  "at_index (uniformLayout fragment_block) 1 = Inr array_record"
  "at_index (uniformLayout fragment_block) 2 = Inr array_record"
  "at_index (uniformLayout fragment_block) 4 = Inr kDefaultBlockMemberInfo"
  "at_index (uniformLayout fragment_block) 6 = Inr kDefaultBlockMemberInfo"
  by (simp_all add: at_index_def vertex_block_def fragment_block_def)

lemma example_records:
  "offset color_record = 0" "arrayStride color_record = 0"
  "offset array_record = 16" "arrayStride array_record = 16"
  "offset kDefaultBlockMemberInfo = - 1"
  "uniformData vertex_block = \<lparr>mData = zero_mem, mSize = 48\<rparr>"
  "uniformData fragment_block = \<lparr>mData = zero_mem, mSize = 48\<rparr>"
  by (simp_all add: color_record_def array_record_def kDefaultBlockMemberInfo_def
      vertex_block_def fragment_block_def)

lemma load32_values:
  "load32 values_1_2_3_4 0 = 1" "load32 values_1_2_3_4 4 = 2"
  "load32 values_1_2_3_4 8 = 3" "load32 values_1_2_3_4 12 = 4"
  "load32 values_0_5_m3_0 0 = 0" "load32 values_0_5_m3_0 4 = 5"
  "load32 values_0_5_m3_0 8 = - 3" "load32 values_0_5_m3_0 12 = 0"
  by (simp_all add: values_1_2_3_4_def values_0_5_m3_0_def load32_store32 load32_store32_other)

lemma load32_eqI:
  assumes "\<forall>j. 0 \<le> j \<and> j < n \<longrightarrow> dst j = v j" and "0 \<le> k" and "k + 4 \<le> n"
  shows "load32 dst k = load32 v k"
proof (rule load32_cong)
  fix j :: int assume "0 \<le> j" "j < 4"
  with assms(2,3) have "0 \<le> k + j \<and> k + j < n" by simp
  with assms(1) show "dst (k + j) = v (k + j)" by blast
qed

lemma uniform_fields:
  "typeInfo color_uniform =
     \<lparr>type' = GL_FLOAT_VEC4, componentType = GL_FLOAT, componentCount = 4,
      isSampler = False, isImageType = False\<rparr>"
  "type color_uniform = GL_FLOAT_VEC4"
  "getFirstShaderTypeWhereActive color_uniform = Vertex"
  "typeInfo flags_uniform =
     \<lparr>type' = GL_BOOL_VEC4, componentType = GL_BOOL, componentCount = 4,
      isSampler = False, isImageType = False\<rparr>"
  "type flags_uniform = GL_BOOL_VEC4"
  "getFirstShaderTypeWhereActive flags_uniform = Fragment"
  "typeInfo tex_uniform =
     \<lparr>type' = GL_SAMPLER_2D, componentType = GL_INT, componentCount = 1,
      isSampler = True, isImageType = False\<rparr>"
  "typeInfo img_uniform =
     \<lparr>type' = GL_IMAGE_2D, componentType = GL_INT, componentCount = 1,
      isSampler = False, isImageType = True\<rparr>"
  "typeInfo offsets_uniform =
     \<lparr>type' = GL_INT_VEC4, componentType = GL_INT, componentCount = 4,
      isSampler = False, isImageType = False\<rparr>"
  "type offsets_uniform = GL_INT_VEC4"
  "getFirstShaderTypeWhereActive offsets_uniform = Vertex"
  by (simp_all add: color_uniform_def flags_uniform_def tex_uniform_def img_uniform_def
      offsets_uniform_def)

lemma color_facts:
  "at_index (getUniformLocations example_program) 0 =
     Inr \<lparr>arrayIndex = 0, index = 0, ignored = False\<rparr>"
  "at_index (getUniforms example_program)
     (uint (index \<lparr>arrayIndex = 0, index = 0, ignored = False\<rparr>)) = Inr color_uniform"
  "\<not> isSampler (typeInfo color_uniform)"
  "\<not> isImageType (typeInfo color_uniform)"
  "\<not> IsMatrixType (type color_uniform)"
  "type' (typeInfo color_uniform) = GL_FLOAT_VEC4"
  "componentType (typeInfo color_uniform) = GL_FLOAT"
  "0 < componentCount (typeInfo color_uniform)"
  "componentCount (typeInfo color_uniform) \<le> 4"
  "getFirstShaderTypeWhereActive color_uniform \<in> set (getLinkedShaderStages example_program)"
  "layoutUsed example_program 0 (getFirstShaderTypeWhereActive color_uniform)"
  "\<forall>S\<in>set (getLinkedShaderStages example_program).
     \<exists>li. at_index (uniformLayout (mDefaultUniformBlocks example_program S)) 0 = Inr li \<and>
       (offset li \<noteq> - 1 \<longrightarrow>
          elementsInBlock li (arrayIndex \<lparr>arrayIndex = 0, index = 0, ignored = False\<rparr>) 1
            (componentCount (typeInfo color_uniform))
            (uniformData (mDefaultUniformBlocks example_program S)))"
  by (simp_all add: example_tables example_stages example_location example_uniform example_layout
      example_records layoutUsed_def elementsInBlock_def sizeof_T_def uniform_fields
      IsMatrixType_def)

lemma flags_facts:
  "at_index (getUniformLocations example_program) 1 =
     Inr \<lparr>arrayIndex = 0, index = 1, ignored = False\<rparr>"
  "at_index (getUniforms example_program)
     (uint (index \<lparr>arrayIndex = 0, index = 1, ignored = False\<rparr>)) = Inr flags_uniform"
  "\<not> isSampler (typeInfo flags_uniform)"
  "\<not> isImageType (typeInfo flags_uniform)"
  "\<not> IsMatrixType (type flags_uniform)"
  "VariableBoolVectorType GL_INT_VEC4 \<noteq> GL_NONE"
  "type' (typeInfo flags_uniform) = VariableBoolVectorType GL_INT_VEC4"
  "componentType (typeInfo flags_uniform) = GL_BOOL"
  "0 < componentCount (typeInfo flags_uniform)"
  "componentCount (typeInfo flags_uniform) \<le> 4"
  "(0::int) < 1"
  "getFirstShaderTypeWhereActive flags_uniform \<in> set (getLinkedShaderStages example_program)"
  "layoutUsed example_program 1 (getFirstShaderTypeWhereActive flags_uniform)"
  "\<forall>S\<in>set (getLinkedShaderStages example_program).
     \<exists>li. at_index (uniformLayout (mDefaultUniformBlocks example_program S)) 1 = Inr li \<and>
       (offset li \<noteq> - 1 \<longrightarrow>
          elementsInBlock li (arrayIndex \<lparr>arrayIndex = 0, index = 1, ignored = False\<rparr>) 1
            (componentCount (typeInfo flags_uniform))
            (uniformData (mDefaultUniformBlocks example_program S)) \<and>
          (4 * componentCount (typeInfo flags_uniform) \<le> arrayStride li \<or> (1::int) = 1))"
  by (simp_all add: example_tables example_stages example_location example_uniform example_layout
      example_records layoutUsed_def elementsInBlock_def sizeof_T_def uniform_fields
      IsMatrixType_def)

lemma example_image_write:
  "setUniformImpl GLint 4 1 v GL_INT example_program = Inr example_program"
  by (simp add: setUniformImpl_def example_tables example_stages example_location example_uniform
      uniform_fields setUniformImpl_coercing_updateStage updateStage_def example_layout
      example_records)

lemma example_flags_write_two:
  "setUniformImpl GLint 2 2 v GL_INT_VEC4 example_program =
     Inr (setBlock Fragment
            \<lparr>mData = setUniformImpl_elements 0 2 4 GLint v array_record 32 zero_mem, mSize = 48\<rparr>
            example_program)"
  by (simp add: setUniformImpl_def example_tables example_stages example_location example_uniform
      uniform_fields setUniformImpl_coercing_updateStage updateStage_def example_layout
      example_records to_int_def to_uint32_def)

lemma example_offsets_write_two:
  "setUniformImpl GLint 6 2 v GL_INT_VEC4 example_program = Inl AssertionFailure"
  by (simp add: setUniformImpl_def example_tables example_stages example_location example_uniform
      uniform_fields setUniformImpl_matching_updateStage updateStage_def example_layout
      example_records UpdateDefaultUniformBlock_def elementSize_of_def sizeof_T_def
      to_int_def to_uint32_def to_size_t_def Let_def)

lemma load32_values_eight: "load32 values_eight 16 \<noteq> 0"
  by (simp add: load32_def values_eight_def)

lemma second_element_past_block:
  "load32 (setUniformImpl_elements 0 2 4 GLint values_eight array_record 32 zero_mem) 48 = GL_TRUE"
proof -
  have pre: "\<forall>I. 0 \<le> I \<and> I < 0 + int 2 \<longrightarrow>
            0 \<le> I * arrayStride array_record \<and> I * arrayStride array_record < 2 ^ 31 \<and>
            0 \<le> I * arrayStride array_record + 32 \<and> I * arrayStride array_record + 32 < 2 ^ 31 \<and>
            0 \<le> I * 4 \<and> I * 4 < 2 ^ 31"
    by (simp add: example_records)
  have "4 * 4 \<le> arrayStride array_record \<or> (2::nat) \<le> 1"
    by (simp add: example_records)
  with setUniformImpl_elements_spec [of 4 0 2 array_record 32 GLint values_eight zero_mem, OF _ pre]
  have main: "\<And>I k. 0 \<le> I \<and> I < 0 + int 2 \<and> 0 \<le> k \<and> k < 4 \<Longrightarrow>
           load32 (setUniformImpl_elements 0 (0 + int 2) 4 GLint values_eight array_record 32 zero_mem)
             (32 + I * arrayStride array_record + 4 * k) =
           (if equals_zero GLint (load32 values_eight (4 * (I * 4) + 4 * k)) then GL_FALSE else GL_TRUE)"
    by simp
  have "load32 (setUniformImpl_elements 0 (0 + int 2) 4 GLint values_eight array_record 32 zero_mem)
             (32 + 1 * arrayStride array_record + 4 * 0) =
           (if equals_zero GLint (load32 values_eight (4 * (1 * 4) + 4 * 0)) then GL_FALSE else GL_TRUE)"
    by (rule main) simp
  then show ?thesis
    using load32_values_eight by (simp add: example_records)
qed

lemma example_touched:
  "touchesStage example_program 1 Fragment" "\<not> touchesStage example_program 1 Vertex"
  by (simp_all add: touchesStage_def layoutUsed_def example_stages example_tables example_layout
      example_records)

lemma example_flags_write_one:
  "\<exists>st'. setUniformImpl GLint 1 1 values_0_5_m3_0 GL_INT_VEC4 example_program = Inr st'"
proof -
  have cty: "componentType (typeInfo flags_uniform) = VariableBoolVectorType GL_INT"
    by (simp add: uniform_fields)
  from boolean_write_general [OF flags_facts(1-7) cty flags_facts(9-14),
      of GLint values_0_5_m3_0 no_matrix_reader zero_mem]
  show ?thesis by blast
qed

section \<open>Building the layout table of the example\<close>

lemma inout_stages: "getLinkedShaderStages inout_program = [Fragment]"
  by (simp add: getLinkedShaderStages_def kAllShaderTypes_def inout_program_def)

lemma inout_tables:
  "getUniformLocations inout_program = [\<lparr>arrayIndex = 0, index = 0, ignored = False\<rparr>]"
  "getUniforms inout_program = [inout_uniform]"
  "mDefaultUniformBlocks inout_program Fragment = empty_block"
  by (simp_all add: inout_program_def)

lemma inout_location:
  "initDefaultUniformLayoutMapping_location lm inout_program
     \<lparr>arrayIndex = 0, index = 0, ignored = False\<rparr> = Inr (\<lambda>shaderType. kDefaultBlockMemberInfo)"
  by (simp add: initDefaultUniformLayoutMapping_location_def used_def GL_INVALID_INDEX_def
      inout_tables at_index_def inout_uniform_def)

lemma inout_layout:
  "\<exists>st'. initDefaultUniformLayoutMapping no_layoutMap inout_program = Inr st' \<and>
     uniformLayout (mDefaultUniformBlocks st' Fragment) = [kDefaultBlockMemberInfo]"
  by (simp add: initDefaultUniformLayoutMapping_def inout_tables inout_location inout_stages
      empty_block_def)

lemma unlinked_tables:
  "getUniformLocations unlinked_program = example_locations"
  "getUniforms unlinked_program =
     [color_uniform, flags_uniform, tex_uniform, img_uniform, offsets_uniform]"
  "mDefaultUniformBlocks unlinked_program S = empty_block"
  by (simp_all add: unlinked_program_def)

lemma unlinked_stages: "getLinkedShaderStages unlinked_program = [Vertex, Fragment]"
  by (simp add: getLinkedShaderStages_def kAllShaderTypes_def unlinked_program_def)

lemma example_locations_nth:
  "length example_locations = 7"
  "example_locations ! 1 = \<lparr>arrayIndex = 0, index = 1, ignored = False\<rparr>"
  "example_locations ! Suc 0 = \<lparr>arrayIndex = 0, index = 1, ignored = False\<rparr>"
  by (simp_all add: example_locations_def)

lemma example_layoutMap_flags:
  "example_layoutMap Vertex ''flags'' = None"
  "example_layoutMap Fragment ''flags'' = Some array_record"
  by (simp_all add: example_layoutMap_def)


lemma locations_total:
  "(\<forall>location\<in>set locs. \<exists>li. initDefaultUniformLayoutMapping_location lm st location = Inr li) \<Longrightarrow>
   \<exists>st'. initDefaultUniformLayoutMapping_locations lm locs st = Inr st'"
proof (induction locs arbitrary: st)
  case Nil
  show ?case by simp
next
  case (Cons location rest)
  from Cons.prems obtain li where
    li: "initDefaultUniformLayoutMapping_location lm st location = Inr li" by auto
  let ?st1 = "initDefaultUniformLayoutMapping_push li (getLinkedShaderStages st) st"
  have same: "initDefaultUniformLayoutMapping_location lm ?st1 l =
              initDefaultUniformLayoutMapping_location lm st l" for l
    by (rule location_independent) (simp_all add: push_tables push_stages)
  from Cons.prems have
    "\<forall>l\<in>set rest. \<exists>li. initDefaultUniformLayoutMapping_location lm ?st1 l = Inr li"
    by (simp add: same)
  from Cons.IH [OF this] show ?case by (simp add: li)
qed

lemma uniform_names:
  "lookupName color_uniform = ''color''"
  "lookupName flags_uniform = ''flags''"
  "lookupName offsets_uniform = ''offsets''"
  by (simp_all add: lookupName_def isArray_def color_uniform_def flags_uniform_def
      offsets_uniform_def StripLastArrayIndex_def)

lemma uniform_guards:
  "isInDefaultBlock color_uniform" "\<not> isFragmentInOut color_uniform"
  "isInDefaultBlock flags_uniform" "\<not> isFragmentInOut flags_uniform"
  "isInDefaultBlock offsets_uniform" "\<not> isFragmentInOut offsets_uniform"
  by (simp_all add: color_uniform_def flags_uniform_def offsets_uniform_def)

lemma uniform_arrays:
  "\<not> isArray color_uniform"
  "isArray flags_uniform"
  "length (StripLastArrayIndex (name flags_uniform)) \<noteq> length (name flags_uniform)"
  "isArray offsets_uniform"
  "length (StripLastArrayIndex (name offsets_uniform)) \<noteq> length (name offsets_uniform)"
  by (simp_all add: isArray_def color_uniform_def flags_uniform_def offsets_uniform_def
      StripLastArrayIndex_def)

lemma found_location:
  assumes uni: "at_index (getUniforms st) (uint (index location)) = Inr u"
    and q: "used location" "\<not> ignored location"
    and d: "isInDefaultBlock u" "\<not> isSampler (typeInfo u)" "\<not> isImageType (typeInfo u)"
      "\<not> isFragmentInOut u"
    and nm: "isArray u \<longrightarrow> length (StripLastArrayIndex (name u)) \<noteq> length (name u)"
    and S: "S \<in> set (getLinkedShaderStages st)" "lm S (lookupName u) \<noteq> None"
  shows "\<exists>li. initDefaultUniformLayoutMapping_location lm st location = Inr li"
proof -
  from S have "\<exists>S\<in>set (getLinkedShaderStages st).
      lm S (if isArray u then StripLastArrayIndex (name u) else name u) \<noteq> None"
    unfolding lookupName_def by blast
  then show ?thesis
    unfolding location_lookup [OF q uni d] using nm by simp
qed

lemma opaque_location:
  assumes uni: "at_index (getUniforms st) (uint (index location)) = Inr u"
    and d: "isSampler (typeInfo u) \<or> isImageType (typeInfo u)"
  shows "\<exists>li. initDefaultUniformLayoutMapping_location lm st location = Inr li"
proof (cases "used location \<and> \<not> ignored location")
  case True
  then show ?thesis
    using d by (auto simp add: initDefaultUniformLayoutMapping_location_def uni)
next
  case False
  then show ?thesis by (auto simp add: initDefaultUniformLayoutMapping_location_def)
qed

lemma unlinked_locations_ok:
  "\<forall>location\<in>set example_locations.
     \<exists>li. initDefaultUniformLayoutMapping_location example_layoutMap unlinked_program location = Inr li"
proof -
  have q: "used \<lparr>arrayIndex = a, index = k, ignored = False\<rparr>" if "k < 5" for a and k :: "32 word"
    using that by (auto simp add: used_def GL_INVALID_INDEX_def)
  have n: "\<not> ignored \<lparr>arrayIndex = a, index = k, ignored = False\<rparr>" for a and k :: "32 word"
    by simp
  have V: "Vertex \<in> set (getLinkedShaderStages unlinked_program)"
    and F: "Fragment \<in> set (getLinkedShaderStages unlinked_program)"
    by (simp_all add: unlinked_stages)
  have c: "\<exists>li. initDefaultUniformLayoutMapping_location example_layoutMap unlinked_program
             \<lparr>arrayIndex = a, index = 0, ignored = False\<rparr> = Inr li" for a
    by (rule found_location [where u = color_uniform and S = Vertex, OF _ q n _ _ _ _ _ V])
      (simp_all add: unlinked_tables example_uniform uniform_fields uniform_guards uniform_names
        example_layoutMap_def uniform_arrays)
  have f: "\<exists>li. initDefaultUniformLayoutMapping_location example_layoutMap unlinked_program
             \<lparr>arrayIndex = a, index = 1, ignored = False\<rparr> = Inr li" for a
    by (rule found_location [where u = flags_uniform and S = Fragment, OF _ q n _ _ _ _ _ F])
      (simp_all add: unlinked_tables example_uniform uniform_fields uniform_guards uniform_names
        example_layoutMap_def uniform_arrays)
  have t: "\<exists>li. initDefaultUniformLayoutMapping_location example_layoutMap unlinked_program
             \<lparr>arrayIndex = a, index = 2, ignored = False\<rparr> = Inr li" for a
    by (rule opaque_location [where u = tex_uniform])
      (simp_all add: unlinked_tables example_uniform uniform_fields)
  have i: "\<exists>li. initDefaultUniformLayoutMapping_location example_layoutMap unlinked_program
             \<lparr>arrayIndex = a, index = 3, ignored = False\<rparr> = Inr li" for a
    by (rule opaque_location [where u = img_uniform])
      (simp_all add: unlinked_tables example_uniform uniform_fields)
  have o: "\<exists>li. initDefaultUniformLayoutMapping_location example_layoutMap unlinked_program
             \<lparr>arrayIndex = a, index = 4, ignored = False\<rparr> = Inr li" for a
    by (rule found_location [where u = offsets_uniform and S = Vertex, OF _ q n _ _ _ _ _ V])
      (simp_all add: unlinked_tables example_uniform uniform_fields uniform_guards uniform_names
        example_layoutMap_def uniform_arrays)
  show ?thesis by (simp add: example_locations_def c f t i o)
qed

lemma unlinked_layout_built:
  "\<exists>st'. initDefaultUniformLayoutMapping example_layoutMap unlinked_program = Inr st'"
  unfolding initDefaultUniformLayoutMapping_def unlinked_tables
  by (rule locations_total [OF unlinked_locations_ok])


lemma variable_types:
  "IsOpaqueType (type tex_variable)" "IsOpaqueType (type img_variable)"
  "\<not> IsOpaqueType (type color_variable)" "\<not> IsOpaqueType (type inout_uniform)"
  "IsOpaqueType GL_SAMPLER_2D"
  by (simp_all add: IsOpaqueType_def tex_variable_def img_variable_def color_variable_def
      inout_uniform_def)

lemma example_encoding:
  "InitDefaultUniformBlock [color_variable, tex_variable, flags_variable] Map.empty =
     ([''color'' \<mapsto> color_record, ''flags'' \<mapsto> array_record], 48)"
  by (simp add: InitDefaultUniformBlock_def IsOpaqueType_def tex_variable_def color_variable_def
      flags_variable_def Std140BlockEncoder_getBlockLayoutInfo_def
      VulkanDefaultBlockEncoder_advanceOffset_def Std140BlockEncoder_advanceOffset_def
      IsMatrixType_def roundUp_def kBytesPerComponent_def ComponentAlignment_def
      color_record_def array_record_def)

section \<open>Bit patterns\<close>

lemma float_zero_patterns:
  "(w AND 0x7FFFFFFF = 0) \<longleftrightarrow> (w = 0 \<or> w = 0x80000000)" for w :: "32 word"
proof -
  have m: "(0x7FFFFFFF :: 32 word) = mask 31" by (simp add: mask_eq_exp_minus_1)
  have "w AND mask 31 = 0 \<longleftrightarrow> uint (take_bit 31 w) = 0"
    by (simp add: take_bit_eq_mask word_uint_eq_iff)
  also have "\<dots> \<longleftrightarrow> uint w mod 2 ^ 31 = 0"
    unfolding unsigned_take_bit_eq by (simp only: take_bit_eq_mod)
  also have "\<dots> \<longleftrightarrow> (uint w = 0 \<or> uint w = 2 ^ 31)"
  proof -
    have b: "0 \<le> uint w" "uint w < 2 ^ 32" using uint_lt2p [of w] by simp_all
    show ?thesis
    proof
      assume z: "uint w mod 2 ^ 31 = 0"
      have "uint w = 2 ^ 31 * (uint w div 2 ^ 31) + uint w mod 2 ^ 31"
        by (rule mult_div_mod_eq [symmetric])
      with z have d: "uint w = 2 ^ 31 * (uint w div 2 ^ 31)" by linarith
      have "uint w div 2 ^ 31 < 2" using b(2) by simp
      moreover have "0 \<le> uint w div 2 ^ 31" by (simp add: pos_imp_zdiv_nonneg_iff)
      ultimately have "uint w div 2 ^ 31 = 0 \<or> uint w div 2 ^ 31 = 1" by linarith
      then show "uint w = 0 \<or> uint w = 2 ^ 31"
      proof
        assume "uint w div 2 ^ 31 = 0" with d show ?thesis by simp
      next
        assume "uint w div 2 ^ 31 = 1" with d show ?thesis by simp
      qed
    next
      assume "uint w = 0 \<or> uint w = 2 ^ 31"
      then show "uint w mod 2 ^ 31 = 0" by auto
    qed
  qed
  also have "\<dots> \<longleftrightarrow> (w = 0 \<or> w = 0x80000000)"
    by (simp add: word_uint_eq_iff)
  finally show ?thesis by (simp add: m)
qed

lemma load32_byte:
  "m a = ucast (load32 m a)" "m (a + 1) = ucast (drop_bit 8 (load32 m a))"
  "m (a + 2) = ucast (drop_bit 16 (load32 m a))" "m (a + 3) = ucast (drop_bit 24 (load32 m a))"
  by (rule bit_word_eqI; auto simp add: load32_def bit_simps dest: bit_imp_le_length)+

lemma load32_inject:
  assumes "load32 m a = load32 m' a'" "0 \<le> j" "j < 4"
  shows "m (a + j) = m' (a' + j)"
proof -
  from assms(2,3) consider "j = 0" | "j = 1" | "j = 2" | "j = 3" by force
  then show ?thesis
    by cases (use load32_byte [of m a] load32_byte [of m' a'] assms(1) in simp_all)
qed

section \<open>What a boolean write and a read leave alone\<close>

lemma coerced_literal:
  "(if equals_zero T w then GL_FALSE else GL_TRUE) =
     (if (case T of GLfloat \<Rightarrow> w = 0 \<or> w = 0x80000000 | GLint \<Rightarrow> w = 0 | GLuint \<Rightarrow> w = 0)
      then 0 else 1)"
  by (cases T) (simp_all add: float_zero_patterns GL_FALSE_def GL_TRUE_def)

lemma coercing_write_frame:
  assumes inb: "elementsInBlock li ai n cc buf"
    and n: "0 < n" and cc: "0 < cc"
    and sep: "4 * cc \<le> arrayStride li \<or> n = 1"
    and out: "\<forall>i. 0 \<le> i \<and> i < n \<longrightarrow>
        a < offset li + (uint ai + i) * arrayStride li \<or>
        offset li + (uint ai + i) * arrayStride li + 4 * cc \<le> a"
  shows "setUniformImpl_elements 0 n cc T v li
           (to_int (to_uint32 (to_uint32 (uint ai * arrayStride li) + offset li))) m a = m a"
proof -
  let ?s = "arrayStride li"
  let ?init = "offset li + uint ai * ?s"
  from inb have h: "0 \<le> offset li" "0 \<le> ?s"
    "offset li + (uint ai + n - 1) * ?s + 4 * cc \<le> mSize buf" "mSize buf < 2 ^ 31"
    by (simp_all add: elementsInBlock_def sizeof_T_def)
  have ai0: "0 \<le> uint ai" by simp
  have top: "offset li + (uint ai + n - 1) * ?s + 4 * cc < 2 ^ 31" using h(3,4) by linarith
  have split: "(uint ai + n - 1) * ?s = uint ai * ?s + (n - 1) * ?s" by (simp add: algebra_simps)
  have ais: "0 \<le> uint ai * ?s" using h(2) by simp
  have n1s: "0 \<le> (n - 1) * ?s" using n h(2) by simp
  have "?init < 2 ^ 31" using top split n1s cc by linarith
  then have init: "to_int (to_uint32 (to_uint32 (uint ai * ?s) + offset li)) = ?init"
    using h(1,2) by (intro initialArrayOffset_small)
  have cnt: "(n - 1) * cc < 2 ^ 31"
  proof (cases "n = 1")
    case True then show ?thesis by simp
  next
    case False
    with sep have big: "4 * cc \<le> ?s" by simp
    have "(n - 1) * cc \<le> (n - 1) * ?s"
      using big cc n by (intro mult_left_mono) simp_all
    then show ?thesis using top split ais h(1) cc by linarith
  qed
  have nn: "n = 0 + int (nat n)" using n by simp
  have pre: "\<forall>I. 0 \<le> I \<and> I < 0 + int (nat n) \<longrightarrow>
            0 \<le> I * ?s \<and> I * ?s < 2 ^ 31 \<and>
            0 \<le> I * ?s + ?init \<and> I * ?s + ?init < 2 ^ 31 \<and>
            0 \<le> I * cc \<and> I * cc < 2 ^ 31"
  proof (intro allI impI)
    fix I assume "0 \<le> I \<and> I < 0 + int (nat n)"
    then have I: "0 \<le> I" "I \<le> n - 1" using n by simp_all
    have a: "0 \<le> I * ?s" using I(1) h(2) by simp
    have b: "I * ?s \<le> (n - 1) * ?s" using I(2) h(2) by (rule mult_right_mono)
    have c: "0 \<le> I * cc" using I(1) cc by simp
    have d: "I * cc \<le> (n - 1) * cc" using I(2) cc by (intro mult_right_mono) simp_all
    show "0 \<le> I * ?s \<and> I * ?s < 2 ^ 31 \<and>
            0 \<le> I * ?s + ?init \<and> I * ?s + ?init < 2 ^ 31 \<and>
            0 \<le> I * cc \<and> I * cc < 2 ^ 31"
      using a b c d top split ais h(1) cc cnt by (intro conjI) linarith+
  qed
  have cc0: "0 \<le> cc" using cc by simp
  from setUniformImpl_elements_spec [OF cc0 pre, of T v m] have
    fr: "\<And>a. (\<forall>I. 0 \<le> I \<and> I < 0 + int (nat n) \<longrightarrow>
               a < ?init + I * ?s \<or> ?init + I * ?s + 4 * cc \<le> a) \<Longrightarrow>
          setUniformImpl_elements 0 (0 + int (nat n)) cc T v li ?init m a = m a"
    by blast
  have "\<forall>I. 0 \<le> I \<and> I < 0 + int (nat n) \<longrightarrow>
               a < ?init + I * ?s \<or> ?init + I * ?s + 4 * cc \<le> a"
  proof (intro allI impI)
    fix I assume "0 \<le> I \<and> I < 0 + int (nat n)"
    then have "0 \<le> I \<and> I < n" using n by simp
    with out have "a < offset li + (uint ai + I) * ?s \<or> offset li + (uint ai + I) * ?s + 4 * cc \<le> a"
      by blast
    moreover have "offset li + (uint ai + I) * ?s = ?init + I * ?s" by (simp add: algebra_simps)
    ultimately show "a < ?init + I * ?s \<or> ?init + I * ?s + 4 * cc \<le> a" by simp
  qed
  from fr [OF this] show ?thesis
    unfolding init using nn by simp
qed

lemma getUniformImpl_frame:
  assumes "getUniformImpl G loc dst getEntry st = Inr dst'"
    and loc: "at_index (getUniformLocations st) loc = Inr locationInfo"
    and uni: "at_index (getUniforms st) (uint (index locationInfo)) = Inr u"
    and m: "\<not> IsMatrixType (type u)"
    and cc: "0 \<le> componentCount (typeInfo u)" "componentCount (typeInfo u) < 2 ^ 29"
    and a: "a < 0 \<or> 4 * componentCount (typeInfo u) \<le> a"
  shows "dst' a = dst a"
proof -
  let ?cc = "componentCount (typeInfo u)"
  from assms(1) obtain li buf where
    r: "ReadFromDefaultUniformBlock ?cc (arrayIndex locationInfo) dst li buf = Inr dst'"
    by (auto simp add: getUniformImpl_def loc uni m Let_def split: if_splits sum.splits)
  then obtain p where "dst' = memcpy dst 0 (mData buf) p (4 * ?cc)"
    by (auto simp add: ReadFromDefaultUniformBlock_def ReadFromDefaultUniformBlock_tight_def
        ReadFromDefaultUniformBlock_strided_def Let_def to_size_t_elementSize [OF cc]
        split: if_splits)
  then show ?thesis using a by (auto simp add: memcpy_out)
qed

lemma boolean_write_frame:
  assumes loc: "at_index (getUniformLocations st) loc = Inr locationInfo"
    and uni: "at_index (getUniforms st) (uint (index locationInfo)) = Inr u"
    and plain: "\<not> isSampler (typeInfo u)"
    and entry: "VariableBoolVectorType entry \<noteq> GL_NONE"
    and ty: "type' (typeInfo u) = VariableBoolVectorType entry"
    and cc: "0 < componentCount (typeInfo u)"
    and n: "0 < n"
    and layouts: "\<forall>S\<in>set (getLinkedShaderStages st).
        \<exists>li. at_index (uniformLayout (mDefaultUniformBlocks st S)) loc = Inr li \<and>
          (offset li \<noteq> - 1 \<longrightarrow>
             elementsInBlock li (arrayIndex locationInfo) n (componentCount (typeInfo u))
               (uniformData (mDefaultUniformBlocks st S)) \<and>
             (4 * componentCount (typeInfo u) \<le> arrayStride li \<or> n = 1))"
    and run: "setUniformImpl T loc n v entry st = Inr st'"
  shows "(\<forall>S li a. S \<in> set (getLinkedShaderStages st) \<and>
             at_index (uniformLayout (mDefaultUniformBlocks st S)) loc = Inr li \<and>
             offset li \<noteq> - 1 \<and>
             (\<forall>i. 0 \<le> i \<and> i < n \<longrightarrow>
                a < offset li + (uint (arrayIndex locationInfo) + i) * arrayStride li \<or>
                offset li + (uint (arrayIndex locationInfo) + i) * arrayStride li +
                  4 * componentCount (typeInfo u) \<le> a) \<longrightarrow>
             mData (uniformData (mDefaultUniformBlocks st' S)) a =
             mData (uniformData (mDefaultUniformBlocks st S)) a)
       \<and> (\<forall>S. mSize (uniformData (mDefaultUniformBlocks st' S)) =
               mSize (uniformData (mDefaultUniformBlocks st S)))
       \<and> (\<forall>S. \<not> touchesStage st loc S \<longrightarrow>
               mDefaultUniformBlocks st' S = mDefaultUniformBlocks st S)"
proof -
  let ?cc = "componentCount (typeInfo u)"
  let ?ai = "arrayIndex locationInfo"
  let ?init = "\<lambda>li. to_int (to_uint32 (to_uint32 (uint ?ai * arrayStride li) + offset li))"
  let ?f = "\<lambda>layoutInfo buffer.
          if type' (typeInfo u) \<noteq> VariableBoolVectorType entry
          then Inl AssertionFailure
          else Inr (buffer\<lparr>mData :=
                 setUniformImpl_elements 0 n ?cc T v layoutInfo (?init layoutInfo) (mData buffer)\<rparr>)"
  let ?stages = "getLinkedShaderStages st"
  have differs: "type' (typeInfo u) \<noteq> entry"
    using VariableBoolVectorType_differs [OF entry] ty by simp
  have "setUniformImpl T loc n v entry st = for_each_stage (updateStage loc ?f) ?stages st"
    by (simp add: setUniformImpl_def loc uni plain differs setUniformImpl_coercing_updateStage)
  with run have loop: "for_each_stage (updateStage loc ?f) ?stages st = Inr st'" by simp
  have now: "uniformData (mDefaultUniformBlocks st' S) =
        (uniformData (mDefaultUniformBlocks st S))
          \<lparr>mData := setUniformImpl_elements 0 n ?cc T v li (?init li)
                      (mData (uniformData (mDefaultUniformBlocks st S)))\<rparr>"
    if "S \<in> set ?stages" "at_index (uniformLayout (mDefaultUniformBlocks st S)) loc = Inr li"
      "offset li \<noteq> - 1" for S li
  proof -
    have "?f li (uniformData (mDefaultUniformBlocks st S)) =
            Inr (uniformData (mDefaultUniformBlocks st' S))"
      using loop distinct_getLinkedShaderStages that by (rule for_each_stage_effect)
    then show ?thesis using ty by simp
  qed
  have keep: "mDefaultUniformBlocks st' S = mDefaultUniformBlocks st S"
    if "\<not> touchesStage st loc S" for S
    using for_each_stage_untouched [OF loop, of S] that by (simp add: touchesStage_def)
  have bytes: "\<forall>S li a. S \<in> set ?stages \<and>
             at_index (uniformLayout (mDefaultUniformBlocks st S)) loc = Inr li \<and>
             offset li \<noteq> - 1 \<and>
             (\<forall>i. 0 \<le> i \<and> i < n \<longrightarrow>
                a < offset li + (uint ?ai + i) * arrayStride li \<or>
                offset li + (uint ?ai + i) * arrayStride li + 4 * ?cc \<le> a) \<longrightarrow>
             mData (uniformData (mDefaultUniformBlocks st' S)) a =
             mData (uniformData (mDefaultUniformBlocks st S)) a"
  proof (intro allI impI, elim conjE)
    fix S li a
    assume S: "S \<in> set ?stages"
      and li: "at_index (uniformLayout (mDefaultUniformBlocks st S)) loc = Inr li"
      and off: "offset li \<noteq> - 1"
      and out: "\<forall>i. 0 \<le> i \<and> i < n \<longrightarrow>
                a < offset li + (uint ?ai + i) * arrayStride li \<or>
                offset li + (uint ?ai + i) * arrayStride li + 4 * ?cc \<le> a"
    from layouts S li off have
      inb: "elementsInBlock li ?ai n ?cc (uniformData (mDefaultUniformBlocks st S))"
      and sep: "4 * ?cc \<le> arrayStride li \<or> n = 1"
      by fastforce+
    show "mData (uniformData (mDefaultUniformBlocks st' S)) a =
             mData (uniformData (mDefaultUniformBlocks st S)) a"
      by (simp add: now [OF S li off] coercing_write_frame [OF inb n cc sep out])
  qed
  have sizes: "\<forall>S. mSize (uniformData (mDefaultUniformBlocks st' S)) =
               mSize (uniformData (mDefaultUniformBlocks st S))"
  proof
    fix S
    show "mSize (uniformData (mDefaultUniformBlocks st' S)) =
               mSize (uniformData (mDefaultUniformBlocks st S))"
    proof (cases "touchesStage st loc S")
      case True
      then obtain li where "S \<in> set ?stages"
        "at_index (uniformLayout (mDefaultUniformBlocks st S)) loc = Inr li" "offset li \<noteq> - 1"
        by (auto simp add: touchesStage_def layoutUsed_def split: sum.splits)
      from now [OF this] show ?thesis by simp
    next
      case False
      then show ?thesis by (simp add: keep)
    qed
  qed
  show ?thesis using bytes sizes keep by blast
qed

lemma load32_float_values:
  "load32 values_0f_5f_m3f_m0f 0 = 0" "load32 values_0f_5f_m3f_m0f 4 = 0x40A00000"
  "load32 values_0f_5f_m3f_m0f 8 = 0xC0400000" "load32 values_0f_5f_m3f_m0f 12 = 0x80000000"
  by (simp_all add: values_0f_5f_m3f_m0f_def load32_store32 load32_store32_other)

section \<open>Assertions on opaque locations\<close>

lemma opaque_location_asserted:
  assumes loc: "at_index (getUniformLocations st) loc = Inr locationInfo"
    and uni: "at_index (getUniforms st) (uint (index locationInfo)) = Inr u"
  shows "(isSampler (typeInfo u) \<longrightarrow>
            setUniformImpl T loc n v entry st = Inl AssertionFailure \<and>
            setUniform1iv loc n v st = Inr st)
       \<and> (isSampler (typeInfo u) \<or> isImageType (typeInfo u) \<longrightarrow>
            getUniformImpl G loc dst getEntry st = Inl AssertionFailure)"
  by (simp add: setUniformImpl_def setUniform1iv_def getUniformImpl_def loc uni)

section \<open>Packing and unpacking a matrix\<close>

lemma matrix_shape:
  "IsMatrixType t \<Longrightarrow>
     2 \<le> VariableColumnCount t \<and> VariableColumnCount t \<le> 4 \<and>
     2 \<le> VariableRowCount t \<and> VariableRowCount t \<le> 4"
  by (auto simp add: IsMatrixType_def)

lemma column_arith:
  fixes col row b :: int
  assumes "0 \<le> row" "row < 4" "0 \<le> b" "b < 4"
  shows "(4 * (col * 4 + row) + b) mod 16 = 4 * row + b"
    and "(4 * (col * 4 + row) + b) div 16 = col"
    and "(4 * (col * 4 + row) + b) mod 4 = b"
    and "(4 * row + b) div 4 = row"
proof -
  have s16: "4 * (col * 4 + row) + b = 16 * col + (4 * row + b)" by simp
  have s4: "4 * (col * 4 + row) + b = 4 * (col * 4 + row) + b" ..
  have r16: "0 \<le> 4 * row + b" "4 * row + b < 16" using assms by linarith+
  show "(4 * (col * 4 + row) + b) mod 16 = 4 * row + b"
    using s16 r16 by (rule int_mod_pos_eq)
  show "(4 * (col * 4 + row) + b) div 16 = col"
    using s16 r16 by (rule int_div_pos_eq)
  show "(4 * (col * 4 + row) + b) mod 4 = b"
    using s4 assms(3,4) by (rule int_mod_pos_eq)
  show "(4 * row + b) div 4 = row"
    using refl assms(3,4) by (rule int_div_pos_eq)
qed

lemma column_bounds:
  fixes col row b cols rows :: int
  assumes "0 \<le> row" "row < 4" "0 \<le> b" "b < 4"
  shows "col < cols \<Longrightarrow> 4 * (col * 4 + row) + b < 16 * cols"
    and "row < rows \<Longrightarrow> 4 * row + b < 4 * rows"
    and "0 \<le> col \<Longrightarrow> 0 \<le> 4 * (col * 4 + row) + b"
proof -
  show "col < cols \<Longrightarrow> 4 * (col * 4 + row) + b < 16 * cols"
    using assms by (simp add: algebra_simps)
  show "row < rows \<Longrightarrow> 4 * row + b < 4 * rows"
    using assms by (simp add: algebra_simps)
  show "0 \<le> col \<Longrightarrow> 0 \<le> 4 * (col * 4 + row) + b"
    using assms by (simp add: algebra_simps)
qed

lemma Run_at:
  assumes "0 \<le> rel"
    and "rel < min (to_uint32 (uint ec - uint ai)) (to_uint32 n) * (16 * cols)"
    and "rel mod 16 < 4 * rows"
  shows "SetFloatUniformMatrixGLSL_Run cols rows ai ec n transposed v block base
           (base + uint ai * (16 * cols) + rel) =
         v (4 * (rel div (16 * cols) * (cols * rows) +
                 (if transposed then (rel mod 16) div 4 * cols + (rel mod (16 * cols)) div 16
                  else (rel mod (16 * cols)) div 16 * rows + (rel mod 16) div 4)) +
            rel mod 4)"
proof -
  have d: "base + uint ai * (16 * cols) + rel - (base + uint ai * (16 * cols)) = rel" by simp
  show ?thesis
    unfolding SetFloatUniformMatrixGLSL_Run_def Let_def d
    using assms by simp
qed

lemma Run_outside:
  assumes "a < base + uint ai * (16 * cols) \<or>
           base + uint ai * (16 * cols) +
             min (to_uint32 (uint ec - uint ai)) (to_uint32 n) * (16 * cols) \<le> a"
  shows "SetFloatUniformMatrixGLSL_Run cols rows ai ec n transposed v block base a = block a"
  using assms unfolding SetFloatUniformMatrixGLSL_Run_def Let_def by auto

lemma matrix_pack_unpack:
  assumes c: "0 < cols" and r: "0 < rows" "rows \<le> 4"
    and j: "0 \<le> j" "j < 4 * (cols * rows)"
    and idx: "uint ai < uint ec"
  shows "SetFloatUniformMatrixGLSL_Run cols rows ai ec 1 False v block base
           (base + uint ai * (16 * cols) +
              (4 * (((j div 4) div rows) * 4 + (j div 4) mod rows) + j mod 4))
         = v j"
proof -
  let ?e = "j div 4"
  let ?b = "j mod 4"
  let ?col = "?e div rows"
  let ?row = "?e mod rows"
  let ?rel = "4 * (?col * 4 + ?row) + ?b"
  have e: "0 \<le> ?e" "?e < cols * rows" using j by (simp_all add: pos_imp_zdiv_nonneg_iff)
  have b: "0 \<le> ?b" "?b < 4" by simp_all
  have row: "0 \<le> ?row" "?row < rows" using r by simp_all
  have col0: "0 \<le> ?col" using e(1) r by (simp add: pos_imp_zdiv_nonneg_iff)
  have "?e < rows * cols" using e(2) by (simp add: mult.commute)
  then have col1: "?col < cols"
  proof -
    assume lt: "?e < rows * cols"
    have split: "?e = rows * ?col + ?row" by simp
    show "?col < cols"
    proof (rule ccontr)
      assume "\<not> ?col < cols"
      then have "cols \<le> ?col" by simp
      then have "rows * cols \<le> rows * ?col" using r(1) by (intro mult_left_mono) simp_all
      with split row(1) lt show False by linarith
    qed
  qed
  have cnt: "min (to_uint32 (uint ec - uint ai)) (to_uint32 1) = 1"
  proof -
    have "0 \<le> uint ai" by simp
    moreover have "uint ec < 2 ^ 32" using uint_lt2p [of ec] by simp
    ultimately have "0 \<le> uint ec - uint ai" "uint ec - uint ai < 2 ^ 32"
      using idx by linarith+
    then have "to_uint32 (uint ec - uint ai) = uint ec - uint ai" by (rule to_uint32_id)
    moreover have "to_uint32 1 = 1" by (simp add: to_uint32_def)
    ultimately show ?thesis using idx by simp
  qed
  have row4: "?row < 4" using row(2) r(2) by (rule less_le_trans)
  have rel0: "0 \<le> ?rel" using col0 by (rule column_bounds(3) [OF row(1) row4 b])
  have rel1: "?rel < 16 * cols" using col1 by (rule column_bounds(1) [OF row(1) row4 b])
  note m16 = column_arith(1) [OF row(1) row4 b, of ?col]
    and d16 = column_arith(2) [OF row(1) row4 b, of ?col]
    and m4 = column_arith(3) [OF row(1) row4 b, of ?col]
    and d4 = column_arith(4) [OF row(1) row4 b]
  have whole: "?rel div (16 * cols) = 0" "?rel mod (16 * cols) = ?rel"
    using rel0 rel1 by simp_all
  have put: "?col * rows + ?row = ?e" by simp
  have jj: "4 * ?e + ?b = j" by simp
  have lt: "?rel mod 16 < 4 * rows"
    unfolding m16 using row(2) by (rule column_bounds(2) [OF row(1) row4 b])
  have rel1': "?rel < min (to_uint32 (uint ec - uint ai)) (to_uint32 1) * (16 * cols)"
    unfolding cnt using rel1 by simp
  have "SetFloatUniformMatrixGLSL_Run cols rows ai ec 1 False v block base
           (base + uint ai * (16 * cols) + ?rel) =
         v (4 * (?rel div (16 * cols) * (cols * rows) +
                 ((?rel mod (16 * cols)) div 16 * rows + (?rel mod 16) div 4)) + ?rel mod 4)"
    using Run_at [OF rel0 rel1' lt, of False v block base] by simp
  also have "\<dots> = v (4 * (0 * (cols * rows) + (?col * rows + ?row)) + ?b)"
    unfolding whole m16 d16 m4 d4 ..
  also have "\<dots> = v j" unfolding put using jj by simp
  finally show ?thesis .
qed

section \<open>Reading back what was written\<close>

lemma matching_write_read_back:
  assumes loc: "at_index (getUniformLocations st) loc = Inr locationInfo"
    and uni: "at_index (getUniforms st) (uint (index locationInfo)) = Inr u"
    and plain: "\<not> isSampler (typeInfo u)" "\<not> isImageType (typeInfo u)" "\<not> IsMatrixType (type u)"
    and ty: "type' (typeInfo u) = entry"
    and cty: "componentType (typeInfo u) = getEntry"
    and cc: "0 < componentCount (typeInfo u)" "componentCount (typeInfo u) \<le> 4"
    and active: "getFirstShaderTypeWhereActive u \<in> set (getLinkedShaderStages st)"
    and used: "layoutUsed st loc (getFirstShaderTypeWhereActive u)"
    and layouts: "\<forall>S\<in>set (getLinkedShaderStages st).
        \<exists>li. at_index (uniformLayout (mDefaultUniformBlocks st S)) loc = Inr li \<and>
          (offset li \<noteq> - 1 \<longrightarrow>
             elementsInBlock li (arrayIndex locationInfo) 1 (componentCount (typeInfo u))
               (uniformData (mDefaultUniformBlocks st S)))"
  shows "\<exists>st' dst'. setUniformImpl T loc 1 v entry st = Inr st' \<and>
           getUniformImpl G loc dst getEntry st' = Inr dst' \<and>
           (\<forall>j. 0 \<le> j \<and> j < 4 * componentCount (typeInfo u) \<longrightarrow> dst' j = v j) \<and>
           (\<forall>a. a < 0 \<or> 4 * componentCount (typeInfo u) \<le> a \<longrightarrow> dst' a = dst a)"
proof -
  let ?cc = "componentCount (typeInfo u)"
  let ?ai = "arrayIndex locationInfo"
  let ?f = "UpdateDefaultUniformBlock 1 ?ai ?cc v"
  let ?S0 = "getFirstShaderTypeWhereActive u"
  let ?stages = "getLinkedShaderStages st"
  have cc': "0 \<le> ?cc" "?cc < 2 ^ 29" using cc by simp_all
  have set_eq: "setUniformImpl T loc 1 v entry st = for_each_stage (updateStage loc ?f) ?stages st"
    by (simp add: setUniformImpl_def loc uni plain ty setUniformImpl_matching_updateStage)
  have write_ok: "\<And>li buf. elementsInBlock li ?ai 1 ?cc buf \<Longrightarrow>
      \<exists>buf'. ?f li buf = Inr buf' \<and>
        (\<forall>j. 0 \<le> j \<and> j < 4 * ?cc \<longrightarrow> mData buf' (offset li + uint ?ai * arrayStride li + j) = v j)"
  proof -
    fix li buf assume "elementsInBlock li ?ai 1 ?cc buf"
    then have h: "0 \<le> offset li" "0 \<le> arrayStride li"
      "offset li + (uint ?ai + 1 - 1) * arrayStride li + 4 * ?cc \<le> mSize buf" "mSize buf < 2 ^ 31"
      by (simp_all add: elementsInBlock_def sizeof_T_def)
    have sep: "4 * ?cc \<le> arrayStride li \<or> (1::int) = 1" by simp
    from UpdateDefaultUniformBlock_spec [OF cc h(2) sep _ h(1) h(3) h(4), of v]
    obtain buf' where r: "?f li buf = Inr buf'"
      and p: "\<forall>i j. 0 \<le> i \<and> i < 1 \<and> 0 \<le> j \<and> j < 4 * ?cc \<longrightarrow>
         mData buf' (offset li + (uint ?ai + i) * arrayStride li + j) = v (i * (4 * ?cc) + j)"
      by auto
    have "\<forall>j. 0 \<le> j \<and> j < 4 * ?cc \<longrightarrow> mData buf' (offset li + uint ?ai * arrayStride li + j) = v j"
    proof (intro allI impI)
      fix j assume "0 \<le> j \<and> j < 4 * ?cc"
      then have "(0::int) \<le> 0 \<and> (0::int) < 1 \<and> 0 \<le> j \<and> j < 4 * ?cc" by simp
      with p have "mData buf' (offset li + (uint ?ai + 0) * arrayStride li + j) =
                   v (0 * (4 * ?cc) + j)" by blast
      then show "mData buf' (offset li + uint ?ai * arrayStride li + j) = v j" by simp
    qed
    with r show "\<exists>buf'. ?f li buf = Inr buf' \<and>
        (\<forall>j. 0 \<le> j \<and> j < 4 * ?cc \<longrightarrow> mData buf' (offset li + uint ?ai * arrayStride li + j) = v j)"
      by blast
  qed
  have "\<forall>S\<in>set ?stages. \<exists>li. at_index (uniformLayout (mDefaultUniformBlocks st S)) loc = Inr li \<and>
       (offset li \<noteq> - 1 \<longrightarrow> (\<exists>b. ?f li (uniformData (mDefaultUniformBlocks st S)) = Inr b))"
    using layouts write_ok by blast
  from for_each_stage_succeeds [OF distinct_getLinkedShaderStages this]
  obtain st' where run: "for_each_stage (updateStage loc ?f) ?stages st = Inr st'" by blast
  from for_each_stage_tables [OF run] have
    t1: "getUniformLocations st' = getUniformLocations st"
    and t2: "getUniforms st' = getUniforms st"
    and t3: "\<And>S. uniformLayout (mDefaultUniformBlocks st' S) = uniformLayout (mDefaultUniformBlocks st S)"
    by simp_all
  from used obtain li0 where
    li0: "at_index (uniformLayout (mDefaultUniformBlocks st ?S0)) loc = Inr li0"
    and off: "offset li0 \<noteq> - 1"
    by (auto simp add: layoutUsed_def split: sum.splits)
  from layouts active li0 off have
    inb: "elementsInBlock li0 ?ai 1 ?cc (uniformData (mDefaultUniformBlocks st ?S0))"
    by fastforce
  from write_ok [OF inb] obtain buf' where
    w: "?f li0 (uniformData (mDefaultUniformBlocks st ?S0)) = Inr buf'"
    and placed: "\<forall>j. 0 \<le> j \<and> j < 4 * ?cc \<longrightarrow>
        mData buf' (offset li0 + uint ?ai * arrayStride li0 + j) = v j"
    by blast
  from for_each_stage_effect [OF run distinct_getLinkedShaderStages active li0 off] w
  have now: "uniformData (mDefaultUniformBlocks st' ?S0) = buf'" by simp
  from inb have s0: "0 \<le> arrayStride li0" and small: "uint ?ai * arrayStride li0 < 2 ^ 31"
  proof -
    from inb have h: "0 \<le> offset li0" "0 \<le> arrayStride li0"
      "offset li0 + uint ?ai * arrayStride li0 + 4 * ?cc \<le> mSize (uniformData (mDefaultUniformBlocks st ?S0))"
      "mSize (uniformData (mDefaultUniformBlocks st ?S0)) < 2 ^ 31"
      by (simp_all add: elementsInBlock_def sizeof_T_def)
    show "0 \<le> arrayStride li0" by (rule h(2))
    show "uint ?ai * arrayStride li0 < 2 ^ 31" using h cc by linarith
  qed
  let ?dst' = "memcpy dst 0 (mData buf') (offset li0 + uint ?ai * arrayStride li0) (4 * ?cc)"
  have "getUniformImpl G loc dst getEntry st' =
          ReadFromDefaultUniformBlock ?cc ?ai dst li0 (uniformData (mDefaultUniformBlocks st' ?S0))"
    using loc uni plain cty linked_stage_valid [OF active] li0
    by (intro getUniformImpl_plain) (simp_all add: t1 t2 t3)
  also have "\<dots> = Inr ?dst'"
    using off by (simp add: ReadFromDefaultUniformBlock_def ReadFromDefaultUniformBlock_arms [OF s0 small]
        to_size_t_elementSize [OF cc'] now)
  finally have get: "getUniformImpl G loc dst getEntry st' = Inr ?dst'" .
  have same: "\<forall>j. 0 \<le> j \<and> j < 4 * ?cc \<longrightarrow> ?dst' j = v j"
    using placed by (simp add: memcpy_in)
  have rest: "\<forall>a. a < 0 \<or> 4 * ?cc \<le> a \<longrightarrow> ?dst' a = dst a"
    by (auto simp add: memcpy_out)
  show ?thesis
    using set_eq run get same rest by auto
qed

lemma zdiv_lt_pos:
  fixes j c :: int
  assumes "j < 4 * c"
  shows "j div 4 < c"
proof (rule ccontr)
  assume "\<not> j div 4 < c"
  then have "4 * c \<le> 4 * (j div 4)" by simp
  moreover have "j = 4 * (j div 4) + j mod 4" by simp
  moreover have "0 \<le> j mod 4" by simp
  ultimately show False using assms by linarith
qed

lemma boolean_value_read_back:
  assumes loc: "at_index (getUniformLocations st) loc = Inr locationInfo"
    and uni: "at_index (getUniforms st) (uint (index locationInfo)) = Inr u"
    and plain: "\<not> isSampler (typeInfo u)" "\<not> isImageType (typeInfo u)" "\<not> IsMatrixType (type u)"
    and entry: "VariableBoolVectorType entry \<noteq> GL_NONE"
    and ty: "type' (typeInfo u) = VariableBoolVectorType entry"
    and cty: "componentType (typeInfo u) = GL_BOOL"
    and T: "T = GLint \<or> T = GLuint"
    and getEntry: "getEntry = GL_INT \<or> getEntry = GL_UNSIGNED_INT"
    and cc: "0 < componentCount (typeInfo u)" "componentCount (typeInfo u) \<le> 4"
    and active: "getFirstShaderTypeWhereActive u \<in> set (getLinkedShaderStages st)"
    and used: "layoutUsed st loc (getFirstShaderTypeWhereActive u)"
    and layouts: "\<forall>S\<in>set (getLinkedShaderStages st).
        \<exists>li. at_index (uniformLayout (mDefaultUniformBlocks st S)) loc = Inr li \<and>
          (offset li \<noteq> - 1 \<longrightarrow>
             elementsInBlock li (arrayIndex locationInfo) 1 (componentCount (typeInfo u))
               (uniformData (mDefaultUniformBlocks st S)))"
    and bools: "\<forall>k. 0 \<le> k \<and> k < componentCount (typeInfo u) \<longrightarrow>
        load32 v (4 * k) = 0 \<or> load32 v (4 * k) = 1"
  shows "\<exists>st' dst'. setUniformImpl T loc 1 v entry st = Inr st' \<and>
           getUniformImpl G loc dst getEntry st' = Inr dst' \<and>
           (\<forall>j. 0 \<le> j \<and> j < 4 * componentCount (typeInfo u) \<longrightarrow> dst' j = v j) \<and>
           (\<forall>a. a < 0 \<or> 4 * componentCount (typeInfo u) \<le> a \<longrightarrow> dst' a = dst a)"
proof -
  let ?cc = "componentCount (typeInfo u)"
  have cty': "componentType (typeInfo u) = VariableBoolVectorType getEntry"
    using cty getEntry by auto
  have layouts': "\<forall>S\<in>set (getLinkedShaderStages st).
        \<exists>li. at_index (uniformLayout (mDefaultUniformBlocks st S)) loc = Inr li \<and>
          (offset li \<noteq> - 1 \<longrightarrow>
             elementsInBlock li (arrayIndex locationInfo) 1 ?cc
               (uniformData (mDefaultUniformBlocks st S)) \<and>
             (4 * ?cc \<le> arrayStride li \<or> (1::int) = 1))"
    using layouts by simp
  have one: "(0::int) < 1" by simp
  from boolean_write_general [OF loc uni plain entry ty cty' cc one active used layouts',
      of T v G dst]
  obtain st' dst' where
    w: "setUniformImpl T loc 1 v entry st = Inr st'"
    and r: "getUniformImpl G loc dst getEntry st' = Inr dst'"
    and rb: "\<forall>k. 0 \<le> k \<and> k < ?cc \<longrightarrow>
               load32 dst' (4 * k) =
               (if equals_zero T (load32 v (4 * k)) then GL_FALSE else GL_TRUE)"
    by blast
  have words: "load32 dst' (4 * k) = load32 v (4 * k)" if "0 \<le> k \<and> k < ?cc" for k
  proof -
    from rb that have "load32 dst' (4 * k) =
        (if equals_zero T (load32 v (4 * k)) then GL_FALSE else GL_TRUE)" by blast
    moreover from bools that have "load32 v (4 * k) = 0 \<or> load32 v (4 * k) = 1" by blast
    ultimately show ?thesis using T by (auto simp add: GL_FALSE_def GL_TRUE_def)
  qed
  have bytes: "\<forall>j. 0 \<le> j \<and> j < 4 * ?cc \<longrightarrow> dst' j = v j"
  proof (intro allI impI)
    fix j :: int assume j: "0 \<le> j \<and> j < 4 * ?cc"
    have "j div 4 < ?cc" using j by (intro zdiv_lt_pos) simp
    then have k: "0 \<le> j div 4 \<and> j div 4 < ?cc"
      using j by (simp add: pos_imp_zdiv_nonneg_iff)
    have b: "0 \<le> j mod 4" "j mod 4 < 4" by simp_all
    from load32_inject [OF words [OF k] b]
    have "dst' (4 * (j div 4) + j mod 4) = v (4 * (j div 4) + j mod 4)" .
    then show "dst' j = v j" by simp
  qed
  from setUniformImpl_loop [OF w] obtain f where
    "for_each_stage (updateStage loc f) (getLinkedShaderStages st) st = Inr st'" ..
  from for_each_stage_tables [OF this] have
    t: "getUniformLocations st' = getUniformLocations st" "getUniforms st' = getUniforms st"
    by simp_all
  have cc': "0 \<le> ?cc" "?cc < 2 ^ 29" using cc by simp_all
  have rest: "\<forall>a. a < 0 \<or> 4 * ?cc \<le> a \<longrightarrow> dst' a = dst a"
    using getUniformImpl_frame [OF r _ _ plain(3) cc'] loc uni by (simp add: t)
  show ?thesis using w r bytes rest by blast
qed

lemma GetMatrixUniform_at:
  assumes "0 \<le> j" "j < 4 * (int (VariableColumnCount t) * int (VariableRowCount t))"
  shows "GetMatrixUniform t dst src p False j =
           src (p + (4 * ((j div 4) div int (VariableRowCount t) * 4 +
                          (j div 4) mod int (VariableRowCount t)) + j mod 4))"
  using assms unfolding GetMatrixUniform_def Let_def by (simp add: add.assoc)

lemma GetMatrixUniform_outside:
  assumes "a < 0 \<or> 4 * (int (VariableColumnCount t) * int (VariableRowCount t)) \<le> a"
  shows "GetMatrixUniform t dst src p transposed a = dst a"
  using assms unfolding GetMatrixUniform_def Let_def by auto

lemma setUniformMatrixfv_loop_eq:
  assumes loc: "at_index (getUniformLocations st) loc = Inr locationInfo"
    and uni: "at_index (getUniforms st) (uint (index locationInfo)) = Inr u"
  shows "setUniformMatrixfv Run loc n transposed v st =
     for_each_stage
       (updateStage loc
          (\<lambda>layoutInfo buffer.
             Inr (buffer\<lparr>mData :=
                    Run (arrayIndex locationInfo) (getArraySizeProduct u) n transposed v
                      (mData buffer) (offset layoutInfo)\<rparr>)))
       (getLinkedShaderStages st) st"
  by (simp add: setUniformMatrixfv_def loc uni setUniformMatrixfv_stage_updateStage)

lemma matrix_write_read_back:
  assumes loc: "at_index (getUniformLocations st) loc = Inr locationInfo"
    and uni: "at_index (getUniforms st) (uint (index locationInfo)) = Inr u"
    and plain: "\<not> isSampler (typeInfo u)" "\<not> isImageType (typeInfo u)"
    and mat: "IsMatrixType (type u)"
    and cty: "componentType (typeInfo u) = GL_FLOAT"
    and idx: "arrayIndex locationInfo < getArraySizeProduct u"
    and active: "getFirstShaderTypeWhereActive u \<in> set (getLinkedShaderStages st)"
    and used: "layoutUsed st loc (getFirstShaderTypeWhereActive u)"
    and layouts: "\<forall>S\<in>set (getLinkedShaderStages st).
        \<exists>li. at_index (uniformLayout (mDefaultUniformBlocks st S)) loc = Inr li \<and>
          (offset li \<noteq> - 1 \<longrightarrow>
             elementsInBlock li (arrayIndex locationInfo) 1
               (4 * int (VariableColumnCount (type u)))
               (uniformData (mDefaultUniformBlocks st S)) \<and>
             (arrayStride li = 16 * int (VariableColumnCount (type u)) \<or>
              arrayIndex locationInfo = 0))"
  shows "\<exists>st' dst'.
           setUniformMatrixfv
             (SetFloatUniformMatrixGLSL_Run (int (VariableColumnCount (type u)))
                (int (VariableRowCount (type u))))
             loc 1 False v st = Inr st' \<and>
           getUniformImpl GetMatrixUniform loc dst GL_FLOAT st' = Inr dst' \<and>
           (\<forall>j. 0 \<le> j \<and>
                j < 4 * (int (VariableColumnCount (type u)) * int (VariableRowCount (type u))) \<longrightarrow>
                dst' j = v j) \<and>
           (\<forall>a. a < 0 \<or>
                4 * (int (VariableColumnCount (type u)) * int (VariableRowCount (type u))) \<le> a \<longrightarrow>
                dst' a = dst a)"
proof -
  let ?cols = "int (VariableColumnCount (type u))"
  let ?rows = "int (VariableRowCount (type u))"
  let ?ai = "arrayIndex locationInfo"
  let ?ec = "getArraySizeProduct u"
  let ?Run = "SetFloatUniformMatrixGLSL_Run ?cols ?rows"
  let ?f = "\<lambda>layoutInfo buffer.
             Inr (buffer\<lparr>mData := ?Run ?ai ?ec 1 False v (mData buffer) (offset layoutInfo)\<rparr>)"
  let ?S0 = "getFirstShaderTypeWhereActive u"
  let ?stages = "getLinkedShaderStages st"
  from matrix_shape [OF mat] have shape: "0 < ?cols" "0 < ?rows" "?rows \<le> 4" by simp_all
  have set_eq: "setUniformMatrixfv ?Run loc 1 False v st =
      for_each_stage (updateStage loc ?f) ?stages st"
    using loc uni by (rule setUniformMatrixfv_loop_eq)
  have "\<forall>S\<in>set ?stages. \<exists>li. at_index (uniformLayout (mDefaultUniformBlocks st S)) loc = Inr li \<and>
       (offset li \<noteq> - 1 \<longrightarrow> (\<exists>b. ?f li (uniformData (mDefaultUniformBlocks st S)) = Inr b))"
    using layouts by blast
  from for_each_stage_succeeds [OF distinct_getLinkedShaderStages this]
  obtain st' where run: "for_each_stage (updateStage loc ?f) ?stages st = Inr st'" by blast
  from for_each_stage_tables [OF run] have
    t1: "getUniformLocations st' = getUniformLocations st"
    and t2: "getUniforms st' = getUniforms st"
    and t3: "\<And>S. uniformLayout (mDefaultUniformBlocks st' S) = uniformLayout (mDefaultUniformBlocks st S)"
    by simp_all
  from used obtain li0 where
    li0: "at_index (uniformLayout (mDefaultUniformBlocks st ?S0)) loc = Inr li0"
    and off: "offset li0 \<noteq> - 1"
    by (auto simp add: layoutUsed_def split: sum.splits)
  let ?buf = "uniformData (mDefaultUniformBlocks st ?S0)"
  from layouts active li0 off have
    inb: "elementsInBlock li0 ?ai 1 (4 * ?cols) ?buf"
    and stride: "arrayStride li0 = 16 * ?cols \<or> ?ai = 0"
    by fastforce+
  from inb have h: "0 \<le> offset li0" "0 \<le> arrayStride li0"
    "offset li0 + uint ?ai * arrayStride li0 + 4 * (4 * ?cols) \<le> mSize ?buf" "mSize ?buf < 2 ^ 31"
    by (simp_all add: elementsInBlock_def sizeof_T_def)
  have prod0: "0 \<le> uint ?ai * arrayStride li0" using h(2) by simp
  have prod1: "uint ?ai * arrayStride li0 < 2 ^ 31" using h shape(1) by linarith
  have same: "uint ?ai * arrayStride li0 = uint ?ai * (16 * ?cols)"
    using stride by auto
  have "to_uint32 (uint ?ai * arrayStride li0) = uint ?ai * arrayStride li0"
    using prod0 prod1 by (rule to_uint32_small)
  then have ptr: "offset li0 + to_uint32 (uint ?ai * arrayStride li0) =
             offset li0 + uint ?ai * (16 * ?cols)"
    unfolding same by simp
  from for_each_stage_effect [OF run distinct_getLinkedShaderStages active li0 off]
  have "uniformData (mDefaultUniformBlocks st' ?S0) =
      ?buf\<lparr>mData := ?Run ?ai ?ec 1 False v (mData ?buf) (offset li0)\<rparr>"
    by simp
  then have now: "mData (uniformData (mDefaultUniformBlocks st' ?S0)) =
      ?Run ?ai ?ec 1 False v (mData ?buf) (offset li0)"
    by simp
  let ?dst' = "GetMatrixUniform (type u) dst
                 (?Run ?ai ?ec 1 False v (mData ?buf) (offset li0))
                 (offset li0 + uint ?ai * (16 * ?cols)) False"
  have get: "getUniformImpl GetMatrixUniform loc dst GL_FLOAT st' = Inr ?dst'"
    using loc uni plain mat cty linked_stage_valid [OF active] li0
    by (simp add: getUniformImpl_def t1 t2 t3 Let_def now ptr)
  have idx': "uint ?ai < uint ?ec" using idx by (simp add: word_less_def)
  have bytes: "\<forall>j. 0 \<le> j \<and> j < 4 * (?cols * ?rows) \<longrightarrow> ?dst' j = v j"
  proof (intro allI impI, elim conjE)
    fix j :: int assume j: "0 \<le> j" "j < 4 * (?cols * ?rows)"
    show "?dst' j = v j"
      unfolding GetMatrixUniform_at [OF j]
      using shape j idx' by (rule matrix_pack_unpack)
  qed
  have rest: "\<forall>a. a < 0 \<or> 4 * (?cols * ?rows) \<le> a \<longrightarrow> ?dst' a = dst a"
    by (simp add: GetMatrixUniform_outside)
  show ?thesis
    unfolding set_eq using run get bytes rest by blast
qed

lemma load32_bool_values:
  "load32 values_0_1_1_0 0 = 0" "load32 values_0_1_1_0 4 = 1"
  "load32 values_0_1_1_0 8 = 1" "load32 values_0_1_1_0 12 = 0"
  by (simp_all add: values_0_1_1_0_def load32_store32 load32_store32_other)

lemma bool_values_are_bools:
  "\<forall>k. 0 \<le> k \<and> k < 4 \<longrightarrow> load32 values_0_1_1_0 (4 * k) = 0 \<or> load32 values_0_1_1_0 (4 * k) = 1"
proof (intro allI impI)
  fix k :: int assume "0 \<le> k \<and> k < 4"
  then consider "k = 0" | "k = 1" | "k = 2" | "k = 3" by force
  then show "load32 values_0_1_1_0 (4 * k) = 0 \<or> load32 values_0_1_1_0 (4 * k) = 1"
    by cases (simp_all add: load32_bool_values)
qed

lemma matrix_stages: "getLinkedShaderStages matrix_program = [Vertex, Fragment]"
  by (simp add: getLinkedShaderStages_def kAllShaderTypes_def matrix_program_def)

lemma matrix_tables:
  "getUniformLocations matrix_program =
     [\<lparr>arrayIndex = 0, index = 0, ignored = False\<rparr>,
      \<lparr>arrayIndex = 1, index = 0, ignored = False\<rparr>]"
  "getUniforms matrix_program = [transforms_uniform]"
  "mDefaultUniformBlocks matrix_program Vertex =
     \<lparr>uniformData = \<lparr>mData = zero_mem, mSize = 80\<rparr>,
      uniformLayout = [transforms_record, transforms_record]\<rparr>"
  "mDefaultUniformBlocks matrix_program Fragment =
     \<lparr>uniformData = \<lparr>mData = zero_mem, mSize = 0\<rparr>,
      uniformLayout = [kDefaultBlockMemberInfo, kDefaultBlockMemberInfo]\<rparr>"
  by (simp_all add: matrix_program_def)

lemma transforms_fields:
  "typeInfo transforms_uniform =
     \<lparr>type' = GL_FLOAT_MAT2, componentType = GL_FLOAT, componentCount = 4,
      isSampler = False, isImageType = False\<rparr>"
  "type transforms_uniform = GL_FLOAT_MAT2"
  "arraySizes transforms_uniform = [2]"
  "getFirstShaderTypeWhereActive transforms_uniform = Vertex"
  by (simp_all add: transforms_uniform_def)

lemma transforms_facts:
  "at_index (getUniformLocations matrix_program) 1 =
     Inr \<lparr>arrayIndex = 1, index = 0, ignored = False\<rparr>"
  "at_index (getUniforms matrix_program)
     (uint (index \<lparr>arrayIndex = 1, index = 0, ignored = False\<rparr>)) = Inr transforms_uniform"
  "\<not> isSampler (typeInfo transforms_uniform)"
  "\<not> isImageType (typeInfo transforms_uniform)"
  "getFirstShaderTypeWhereActive transforms_uniform \<in> set (getLinkedShaderStages matrix_program)"
  "layoutUsed matrix_program 1 (getFirstShaderTypeWhereActive transforms_uniform)"
  "IsMatrixType (type transforms_uniform)"
  "componentType (typeInfo transforms_uniform) = GL_FLOAT"
  "arrayIndex \<lparr>arrayIndex = 1, index = 0, ignored = False\<rparr> <
     getArraySizeProduct transforms_uniform"
  "\<forall>S\<in>set (getLinkedShaderStages matrix_program).
     \<exists>li. at_index (uniformLayout (mDefaultUniformBlocks matrix_program S)) 1 = Inr li \<and>
       (offset li \<noteq> - 1 \<longrightarrow>
          elementsInBlock li (arrayIndex \<lparr>arrayIndex = 1, index = 0, ignored = False\<rparr>) 1
            (4 * int (VariableColumnCount (type transforms_uniform)))
            (uniformData (mDefaultUniformBlocks matrix_program S)) \<and>
          (arrayStride li = 16 * int (VariableColumnCount (type transforms_uniform)) \<or>
           arrayIndex \<lparr>arrayIndex = 1, index = 0, ignored = False\<rparr> = 0))"
  "int (VariableColumnCount (type transforms_uniform)) = 2"
  "int (VariableRowCount (type transforms_uniform)) = 2"
  by (simp_all add: matrix_stages matrix_tables transforms_fields transforms_record_def
      kDefaultBlockMemberInfo_def at_index_def layoutUsed_def elementsInBlock_def sizeof_T_def
      IsMatrixType_def getArraySizeProduct_def)

section \<open>Fragment in/out variables in the layout table\<close>

lemma fragment_inout_not_looked_up:
  assumes uni: "at_index (getUniforms st) (uint (index location)) = Inr u"
    and inout: "isFragmentInOut u"
  shows "initDefaultUniformLayoutMapping_location lm st location =
           Inr (\<lambda>shaderType. kDefaultBlockMemberInfo)"
proof (cases "used location \<and> \<not> ignored location")
  case True
  then show ?thesis
    by (simp add: initDefaultUniformLayoutMapping_location_def uni inout)
next
  case False
  then show ?thesis
    by (auto simp add: initDefaultUniformLayoutMapping_location_def)
qed

section \<open>Writing one element and reading it back\<close>

text \<open>
  C1: take a location of a linked program whose variable is neither a sampler nor
  an image, whose first active stage is linked and holds the variable (offset not
  \<open>-1\<close>), and whose element at the location's array index lies inside the block
  (smaller than 2 GiB) of every linked stage that holds the variable. Writing one
  element \<open>v\<close> and reading the location back succeeds and returns exactly the bytes
  of \<open>v\<close>, leaving the rest of the destination as it was, in each of three cases:
  a scalar or vector written through the entry point of its declared type and
  read through the entry point of its component type; a boolean vector whose
  values, 0 or 1 in every component, are written through an integer or unsigned
  entry point and read back as integers or unsigned; and a matrix of \<open>cols\<close>
  columns and \<open>rows\<close> rows written untransposed through
  \<^verbatim>\<open>setUniformMatrixfv<cols, rows>\<close> at an index inside its array, whose elements
  are \<open>16 * cols\<close> bytes apart, and read back as floats.
\<close>

theorem set_then_get_returns_value:
  assumes loc: "at_index (getUniformLocations st) loc = Inr locationInfo"
    and uni: "at_index (getUniforms st) (uint (index locationInfo)) = Inr u"
    and plain: "\<not> isSampler (typeInfo u)" "\<not> isImageType (typeInfo u)"
    and active: "getFirstShaderTypeWhereActive u \<in> set (getLinkedShaderStages st)"
    and used: "layoutUsed st loc (getFirstShaderTypeWhereActive u)"
  shows "(\<not> IsMatrixType (type u) \<and>
          type' (typeInfo u) = entry \<and> componentType (typeInfo u) = getEntry \<and>
          0 < componentCount (typeInfo u) \<and> componentCount (typeInfo u) \<le> 4 \<and>
          (\<forall>S\<in>set (getLinkedShaderStages st).
             \<exists>li. at_index (uniformLayout (mDefaultUniformBlocks st S)) loc = Inr li \<and>
               (offset li \<noteq> - 1 \<longrightarrow>
                  elementsInBlock li (arrayIndex locationInfo) 1 (componentCount (typeInfo u))
                    (uniformData (mDefaultUniformBlocks st S)))) \<longrightarrow>
          (\<exists>st' dst'. setUniformImpl T loc 1 v entry st = Inr st' \<and>
             getUniformImpl G loc dst getEntry st' = Inr dst' \<and>
             (\<forall>j. 0 \<le> j \<and> j < 4 * componentCount (typeInfo u) \<longrightarrow> dst' j = v j) \<and>
             (\<forall>a. a < 0 \<or> 4 * componentCount (typeInfo u) \<le> a \<longrightarrow> dst' a = dst a)))
       \<and> (\<not> IsMatrixType (type u) \<and>
          VariableBoolVectorType entry \<noteq> GL_NONE \<and>
          type' (typeInfo u) = VariableBoolVectorType entry \<and>
          componentType (typeInfo u) = GL_BOOL \<and>
          (T = GLint \<or> T = GLuint) \<and> (getEntry = GL_INT \<or> getEntry = GL_UNSIGNED_INT) \<and>
          0 < componentCount (typeInfo u) \<and> componentCount (typeInfo u) \<le> 4 \<and>
          (\<forall>S\<in>set (getLinkedShaderStages st).
             \<exists>li. at_index (uniformLayout (mDefaultUniformBlocks st S)) loc = Inr li \<and>
               (offset li \<noteq> - 1 \<longrightarrow>
                  elementsInBlock li (arrayIndex locationInfo) 1 (componentCount (typeInfo u))
                    (uniformData (mDefaultUniformBlocks st S)))) \<and>
          (\<forall>k. 0 \<le> k \<and> k < componentCount (typeInfo u) \<longrightarrow>
             load32 v (4 * k) = 0 \<or> load32 v (4 * k) = 1) \<longrightarrow>
          (\<exists>st' dst'. setUniformImpl T loc 1 v entry st = Inr st' \<and>
             getUniformImpl G loc dst getEntry st' = Inr dst' \<and>
             (\<forall>j. 0 \<le> j \<and> j < 4 * componentCount (typeInfo u) \<longrightarrow> dst' j = v j) \<and>
             (\<forall>a. a < 0 \<or> 4 * componentCount (typeInfo u) \<le> a \<longrightarrow> dst' a = dst a)))
       \<and> (IsMatrixType (type u) \<and> componentType (typeInfo u) = GL_FLOAT \<and>
          cols = int (VariableColumnCount (type u)) \<and> rows = int (VariableRowCount (type u)) \<and>
          arrayIndex locationInfo < getArraySizeProduct u \<and>
          (\<forall>S\<in>set (getLinkedShaderStages st).
             \<exists>li. at_index (uniformLayout (mDefaultUniformBlocks st S)) loc = Inr li \<and>
               (offset li \<noteq> - 1 \<longrightarrow>
                  elementsInBlock li (arrayIndex locationInfo) 1 (4 * cols)
                    (uniformData (mDefaultUniformBlocks st S)) \<and>
                  (arrayStride li = 16 * cols \<or> arrayIndex locationInfo = 0))) \<longrightarrow>
          (\<exists>st' dst'.
             setUniformMatrixfv (SetFloatUniformMatrixGLSL_Run cols rows) loc 1 False v st =
               Inr st' \<and>
             getUniformImpl GetMatrixUniform loc dst GL_FLOAT st' = Inr dst' \<and>
             (\<forall>j. 0 \<le> j \<and> j < 4 * (cols * rows) \<longrightarrow> dst' j = v j) \<and>
             (\<forall>a. a < 0 \<or> 4 * (cols * rows) \<le> a \<longrightarrow> dst' a = dst a)))"
proof (intro conjI impI)
  assume h: "\<not> IsMatrixType (type u) \<and>
          type' (typeInfo u) = entry \<and> componentType (typeInfo u) = getEntry \<and>
          0 < componentCount (typeInfo u) \<and> componentCount (typeInfo u) \<le> 4 \<and>
          (\<forall>S\<in>set (getLinkedShaderStages st).
             \<exists>li. at_index (uniformLayout (mDefaultUniformBlocks st S)) loc = Inr li \<and>
               (offset li \<noteq> - 1 \<longrightarrow>
                  elementsInBlock li (arrayIndex locationInfo) 1 (componentCount (typeInfo u))
                    (uniformData (mDefaultUniformBlocks st S))))"
  then have m: "\<not> IsMatrixType (type u)" and ty: "type' (typeInfo u) = entry"
    and cty: "componentType (typeInfo u) = getEntry"
    and cc: "0 < componentCount (typeInfo u)" "componentCount (typeInfo u) \<le> 4"
    and layouts: "\<forall>S\<in>set (getLinkedShaderStages st).
             \<exists>li. at_index (uniformLayout (mDefaultUniformBlocks st S)) loc = Inr li \<and>
               (offset li \<noteq> - 1 \<longrightarrow>
                  elementsInBlock li (arrayIndex locationInfo) 1 (componentCount (typeInfo u))
                    (uniformData (mDefaultUniformBlocks st S)))"
    by blast+
  show "\<exists>st' dst'. setUniformImpl T loc 1 v entry st = Inr st' \<and>
             getUniformImpl G loc dst getEntry st' = Inr dst' \<and>
             (\<forall>j. 0 \<le> j \<and> j < 4 * componentCount (typeInfo u) \<longrightarrow> dst' j = v j) \<and>
             (\<forall>a. a < 0 \<or> 4 * componentCount (typeInfo u) \<le> a \<longrightarrow> dst' a = dst a)"
    using loc uni plain m ty cty cc active used layouts by (rule matching_write_read_back)
next
  assume h: "\<not> IsMatrixType (type u) \<and>
          VariableBoolVectorType entry \<noteq> GL_NONE \<and>
          type' (typeInfo u) = VariableBoolVectorType entry \<and>
          componentType (typeInfo u) = GL_BOOL \<and>
          (T = GLint \<or> T = GLuint) \<and> (getEntry = GL_INT \<or> getEntry = GL_UNSIGNED_INT) \<and>
          0 < componentCount (typeInfo u) \<and> componentCount (typeInfo u) \<le> 4 \<and>
          (\<forall>S\<in>set (getLinkedShaderStages st).
             \<exists>li. at_index (uniformLayout (mDefaultUniformBlocks st S)) loc = Inr li \<and>
               (offset li \<noteq> - 1 \<longrightarrow>
                  elementsInBlock li (arrayIndex locationInfo) 1 (componentCount (typeInfo u))
                    (uniformData (mDefaultUniformBlocks st S)))) \<and>
          (\<forall>k. 0 \<le> k \<and> k < componentCount (typeInfo u) \<longrightarrow>
             load32 v (4 * k) = 0 \<or> load32 v (4 * k) = 1)"
  then have m: "\<not> IsMatrixType (type u)" and entry: "VariableBoolVectorType entry \<noteq> GL_NONE"
    and ty: "type' (typeInfo u) = VariableBoolVectorType entry"
    and cty: "componentType (typeInfo u) = GL_BOOL"
    and T: "T = GLint \<or> T = GLuint" and ge: "getEntry = GL_INT \<or> getEntry = GL_UNSIGNED_INT"
    and cc: "0 < componentCount (typeInfo u)" "componentCount (typeInfo u) \<le> 4"
    and layouts: "\<forall>S\<in>set (getLinkedShaderStages st).
             \<exists>li. at_index (uniformLayout (mDefaultUniformBlocks st S)) loc = Inr li \<and>
               (offset li \<noteq> - 1 \<longrightarrow>
                  elementsInBlock li (arrayIndex locationInfo) 1 (componentCount (typeInfo u))
                    (uniformData (mDefaultUniformBlocks st S)))"
    and bools: "\<forall>k. 0 \<le> k \<and> k < componentCount (typeInfo u) \<longrightarrow>
             load32 v (4 * k) = 0 \<or> load32 v (4 * k) = 1"
    by blast+
  show "\<exists>st' dst'. setUniformImpl T loc 1 v entry st = Inr st' \<and>
             getUniformImpl G loc dst getEntry st' = Inr dst' \<and>
             (\<forall>j. 0 \<le> j \<and> j < 4 * componentCount (typeInfo u) \<longrightarrow> dst' j = v j) \<and>
             (\<forall>a. a < 0 \<or> 4 * componentCount (typeInfo u) \<le> a \<longrightarrow> dst' a = dst a)"
    using loc uni plain m entry ty cty T ge cc active used layouts bools
    by (rule boolean_value_read_back)
next
  assume h: "IsMatrixType (type u) \<and> componentType (typeInfo u) = GL_FLOAT \<and>
          cols = int (VariableColumnCount (type u)) \<and> rows = int (VariableRowCount (type u)) \<and>
          arrayIndex locationInfo < getArraySizeProduct u \<and>
          (\<forall>S\<in>set (getLinkedShaderStages st).
             \<exists>li. at_index (uniformLayout (mDefaultUniformBlocks st S)) loc = Inr li \<and>
               (offset li \<noteq> - 1 \<longrightarrow>
                  elementsInBlock li (arrayIndex locationInfo) 1 (4 * cols)
                    (uniformData (mDefaultUniformBlocks st S)) \<and>
                  (arrayStride li = 16 * cols \<or> arrayIndex locationInfo = 0)))"
  then have m: "IsMatrixType (type u)" and cty: "componentType (typeInfo u) = GL_FLOAT"
    and c: "cols = int (VariableColumnCount (type u))"
    and r: "rows = int (VariableRowCount (type u))"
    and idx: "arrayIndex locationInfo < getArraySizeProduct u"
    and layouts: "\<forall>S\<in>set (getLinkedShaderStages st).
             \<exists>li. at_index (uniformLayout (mDefaultUniformBlocks st S)) loc = Inr li \<and>
               (offset li \<noteq> - 1 \<longrightarrow>
                  elementsInBlock li (arrayIndex locationInfo) 1 (4 * cols)
                    (uniformData (mDefaultUniformBlocks st S)) \<and>
                  (arrayStride li = 16 * cols \<or> arrayIndex locationInfo = 0))"
    by blast+
  show "\<exists>st' dst'.
             setUniformMatrixfv (SetFloatUniformMatrixGLSL_Run cols rows) loc 1 False v st =
               Inr st' \<and>
             getUniformImpl GetMatrixUniform loc dst GL_FLOAT st' = Inr dst' \<and>
             (\<forall>j. 0 \<le> j \<and> j < 4 * (cols * rows) \<longrightarrow> dst' j = v j) \<and>
             (\<forall>a. a < 0 \<or> 4 * (cols * rows) \<le> a \<longrightarrow> dst' a = dst a)"
    using matrix_write_read_back [OF loc uni plain m cty idx active used
        layouts [unfolded c], of v dst]
    unfolding c r .
qed


theorem set_then_get_returns_value_witness:
  "\<exists>st1 d1 st2 d2 st3 d3.
     setUniform4fv 0 1 values_1_2_3_4 example_program = Inr st1 \<and>
     getUniformfv GetMatrixUniform 0 zero_mem st1 = Inr d1 \<and>
     load32 d1 0 = 1 \<and> load32 d1 4 = 2 \<and> load32 d1 8 = 3 \<and> load32 d1 12 = 4 \<and>
     setUniform4iv 1 1 values_0_1_1_0 example_program = Inr st2 \<and>
     getUniformiv GetMatrixUniform 1 zero_mem st2 = Inr d2 \<and>
     load32 d2 0 = 0 \<and> load32 d2 4 = 1 \<and> load32 d2 8 = 1 \<and> load32 d2 12 = 0 \<and>
     setUniformMatrix2fv 1 1 False values_1_2_3_4 matrix_program = Inr st3 \<and>
     getUniformfv GetMatrixUniform 1 zero_mem st3 = Inr d3 \<and>
     load32 d3 0 = 1 \<and> load32 d3 4 = 2 \<and> load32 d3 8 = 3 \<and> load32 d3 12 = 4"
proof -
  note vec = set_then_get_returns_value [OF color_facts(1-4) color_facts(10,11),
      where T = GLfloat and v = values_1_2_3_4 and entry = GL_FLOAT_VEC4 and getEntry = GL_FLOAT
        and G = GetMatrixUniform and dst = zero_mem, THEN conjunct1]
  note bvec = set_then_get_returns_value [OF flags_facts(1-4) flags_facts(12,13),
      where T = GLint and v = values_0_1_1_0 and entry = GL_INT_VEC4 and getEntry = GL_INT
        and G = GetMatrixUniform and dst = zero_mem, THEN conjunct2, THEN conjunct1]
  note mat = set_then_get_returns_value [OF transforms_facts(1-6),
      where v = values_1_2_3_4 and dst = zero_mem and cols = 2 and rows = 2,
      THEN conjunct2, THEN conjunct2]
  have "\<not> IsMatrixType (type color_uniform) \<and>
        type' (typeInfo color_uniform) = GL_FLOAT_VEC4 \<and>
        componentType (typeInfo color_uniform) = GL_FLOAT \<and>
        0 < componentCount (typeInfo color_uniform) \<and>
        componentCount (typeInfo color_uniform) \<le> 4 \<and>
        (\<forall>S\<in>set (getLinkedShaderStages example_program).
           \<exists>li. at_index (uniformLayout (mDefaultUniformBlocks example_program S)) 0 = Inr li \<and>
             (offset li \<noteq> - 1 \<longrightarrow>
                elementsInBlock li (arrayIndex \<lparr>arrayIndex = 0, index = 0, ignored = False\<rparr>) 1
                  (componentCount (typeInfo color_uniform))
                  (uniformData (mDefaultUniformBlocks example_program S))))"
    using color_facts(5-9,12) by (intro conjI)
  with vec obtain st1 d1 where
    w1: "setUniformImpl GLfloat 0 1 values_1_2_3_4 GL_FLOAT_VEC4 example_program = Inr st1"
    and r1: "getUniformImpl GetMatrixUniform 0 zero_mem GL_FLOAT st1 = Inr d1"
    and c1: "\<forall>j. 0 \<le> j \<and> j < 4 * componentCount (typeInfo color_uniform) \<longrightarrow>
               d1 j = values_1_2_3_4 j"
    by blast
  have c1': "\<forall>j. 0 \<le> j \<and> j < 16 \<longrightarrow> d1 j = values_1_2_3_4 j"
    using c1 by (simp add: uniform_fields)
  have l1: "load32 d1 0 = 1" "load32 d1 4 = 2" "load32 d1 8 = 3" "load32 d1 12 = 4"
    using load32_eqI [OF c1', of 0] load32_eqI [OF c1', of 4] load32_eqI [OF c1', of 8]
      load32_eqI [OF c1', of 12]
    by (simp_all add: load32_values)
  have layouts2: "\<forall>S\<in>set (getLinkedShaderStages example_program).
           \<exists>li. at_index (uniformLayout (mDefaultUniformBlocks example_program S)) 1 = Inr li \<and>
             (offset li \<noteq> - 1 \<longrightarrow>
                elementsInBlock li (arrayIndex \<lparr>arrayIndex = 0, index = 1, ignored = False\<rparr>) 1
                  (componentCount (typeInfo flags_uniform))
                  (uniformData (mDefaultUniformBlocks example_program S)))"
    using flags_facts(14) by blast
  have bools: "\<forall>k. 0 \<le> k \<and> k < componentCount (typeInfo flags_uniform) \<longrightarrow>
        load32 values_0_1_1_0 (4 * k) = 0 \<or> load32 values_0_1_1_0 (4 * k) = 1"
    using bool_values_are_bools by (simp add: uniform_fields)
  have "\<not> IsMatrixType (type flags_uniform) \<and>
        VariableBoolVectorType GL_INT_VEC4 \<noteq> GL_NONE \<and>
        type' (typeInfo flags_uniform) = VariableBoolVectorType GL_INT_VEC4 \<and>
        componentType (typeInfo flags_uniform) = GL_BOOL \<and>
        (GLint = GLint \<or> GLint = GLuint) \<and> (GL_INT = GL_INT \<or> GL_INT = GL_UNSIGNED_INT) \<and>
        0 < componentCount (typeInfo flags_uniform) \<and>
        componentCount (typeInfo flags_uniform) \<le> 4 \<and>
        (\<forall>S\<in>set (getLinkedShaderStages example_program).
           \<exists>li. at_index (uniformLayout (mDefaultUniformBlocks example_program S)) 1 = Inr li \<and>
             (offset li \<noteq> - 1 \<longrightarrow>
                elementsInBlock li (arrayIndex \<lparr>arrayIndex = 0, index = 1, ignored = False\<rparr>) 1
                  (componentCount (typeInfo flags_uniform))
                  (uniformData (mDefaultUniformBlocks example_program S)))) \<and>
        (\<forall>k. 0 \<le> k \<and> k < componentCount (typeInfo flags_uniform) \<longrightarrow>
           load32 values_0_1_1_0 (4 * k) = 0 \<or> load32 values_0_1_1_0 (4 * k) = 1)"
    using flags_facts(5-10) layouts2 bools by (intro conjI) simp_all
  with bvec obtain st2 d2 where
    w2: "setUniformImpl GLint 1 1 values_0_1_1_0 GL_INT_VEC4 example_program = Inr st2"
    and r2: "getUniformImpl GetMatrixUniform 1 zero_mem GL_INT st2 = Inr d2"
    and c2: "\<forall>j. 0 \<le> j \<and> j < 4 * componentCount (typeInfo flags_uniform) \<longrightarrow>
               d2 j = values_0_1_1_0 j"
    by blast
  have c2': "\<forall>j. 0 \<le> j \<and> j < 16 \<longrightarrow> d2 j = values_0_1_1_0 j"
    using c2 by (simp add: uniform_fields)
  have l2: "load32 d2 0 = 0" "load32 d2 4 = 1" "load32 d2 8 = 1" "load32 d2 12 = 0"
    using load32_eqI [OF c2', of 0] load32_eqI [OF c2', of 4] load32_eqI [OF c2', of 8]
      load32_eqI [OF c2', of 12]
    by (simp_all add: load32_bool_values)
  have "IsMatrixType (type transforms_uniform) \<and>
        componentType (typeInfo transforms_uniform) = GL_FLOAT \<and>
        2 = int (VariableColumnCount (type transforms_uniform)) \<and>
        2 = int (VariableRowCount (type transforms_uniform)) \<and>
        arrayIndex \<lparr>arrayIndex = 1, index = 0, ignored = False\<rparr> <
          getArraySizeProduct transforms_uniform \<and>
        (\<forall>S\<in>set (getLinkedShaderStages matrix_program).
           \<exists>li. at_index (uniformLayout (mDefaultUniformBlocks matrix_program S)) 1 = Inr li \<and>
             (offset li \<noteq> - 1 \<longrightarrow>
                elementsInBlock li (arrayIndex \<lparr>arrayIndex = 1, index = 0, ignored = False\<rparr>) 1
                  (4 * 2) (uniformData (mDefaultUniformBlocks matrix_program S)) \<and>
                (arrayStride li = 16 * 2 \<or>
                 arrayIndex \<lparr>arrayIndex = 1, index = 0, ignored = False\<rparr> = 0)))"
    using transforms_facts(7-10) unfolding transforms_facts(11,12) by (intro conjI) simp_all
  with mat obtain st3 d3 where
    w3: "setUniformMatrixfv (SetFloatUniformMatrixGLSL_Run 2 2) 1 1 False values_1_2_3_4
           matrix_program = Inr st3"
    and r3: "getUniformImpl GetMatrixUniform 1 zero_mem GL_FLOAT st3 = Inr d3"
    and c3: "\<forall>j. 0 \<le> j \<and> j < 4 * (2 * 2) \<longrightarrow> d3 j = values_1_2_3_4 j"
    by blast
  have c3': "\<forall>j. 0 \<le> j \<and> j < 16 \<longrightarrow> d3 j = values_1_2_3_4 j"
    using c3 by simp
  have l3: "load32 d3 0 = 1" "load32 d3 4 = 2" "load32 d3 8 = 3" "load32 d3 12 = 4"
    using load32_eqI [OF c3', of 0] load32_eqI [OF c3', of 4] load32_eqI [OF c3', of 8]
      load32_eqI [OF c3', of 12]
    by (simp_all add: load32_values)
  show ?thesis
    using w1 r1 l1 w2 r2 l2 w3 r3 l3
    by (simp add: setUniform4fv_def setUniform4iv_def setUniformMatrix2fv_def getUniformfv_def
        getUniformiv_def)
qed

section \<open>The unused sentinel\<close>

text \<open>
  C2, as stated, fails for reads: \<^verbatim>\<open>ReadFromDefaultUniformBlock\<close> asserts that the
  offset is not \<open>-1\<close>, so a read that meets the sentinel is an assertion failure
  and not a no-op.
\<close>

theorem read_of_unused_record_asserts:
  "offset kDefaultBlockMemberInfo = - 1
   \<and> ReadFromDefaultUniformBlock 4 0 zero_mem kDefaultBlockMemberInfo counting_buffer =
       Inl AssertionFailure"
  by (simp add: ReadFromDefaultUniformBlock_def kDefaultBlockMemberInfo_def)

text \<open>
  C2, amended: for every write accessor (the two paths of \<^verbatim>\<open>setUniformImpl\<close> and
  \<^verbatim>\<open>setUniformMatrixfv\<close>), a stage whose record for the location has offset \<open>-1\<close>
  is skipped: the body of the loop returns the state as it was, without error, and
  after a successful write the stage's block and dirty bit are unchanged. The
  non-matrix read primitive, given a record with offset \<open>-1\<close>, fails its assertion.
\<close>

theorem unused_record_skipped:
  assumes "at_index (uniformLayout (mDefaultUniformBlocks st S)) loc = Inr li"
    and "offset li = - 1"
  shows "setUniformImpl_matching loc n v locationInfo linkedUniform S st = Inr st
       \<and> setUniformImpl_coercing T loc n v entry locationInfo linkedUniform S st = Inr st
       \<and> setUniformMatrixfv_stage Run loc n tr val locationInfo linkedUniform S st = Inr st
       \<and> (\<forall>st'. setUniformImpl T loc n v entry st = Inr st' \<or>
                 setUniformMatrixfv Run loc n tr val st = Inr st' \<longrightarrow>
            mDefaultUniformBlocks st' S = mDefaultUniformBlocks st S \<and>
            (S \<in> mDefaultUniformBlocksDirty st' \<longleftrightarrow> S \<in> mDefaultUniformBlocksDirty st))
       \<and> ReadFromDefaultUniformBlock cc ai dst li buf = Inl AssertionFailure"
proof -
  have a: "setUniformImpl_matching loc n v locationInfo linkedUniform S st = Inr st"
    unfolding setUniformImpl_matching_updateStage using assms by (rule updateStage_skip)
  have b: "setUniformImpl_coercing T loc n v entry locationInfo linkedUniform S st = Inr st"
    unfolding setUniformImpl_coercing_updateStage using assms by (rule updateStage_skip)
  have c: "setUniformMatrixfv_stage Run loc n tr val locationInfo linkedUniform S st = Inr st"
    unfolding setUniformMatrixfv_stage_updateStage using assms by (rule updateStage_skip)
  have d: "\<forall>st'. setUniformImpl T loc n v entry st = Inr st' \<or>
                 setUniformMatrixfv Run loc n tr val st = Inr st' \<longrightarrow>
            mDefaultUniformBlocks st' S = mDefaultUniformBlocks st S \<and>
            (S \<in> mDefaultUniformBlocksDirty st' \<longleftrightarrow> S \<in> mDefaultUniformBlocksDirty st)"
  proof (intro allI impI)
    fix st'
    assume "setUniformImpl T loc n v entry st = Inr st' \<or>
            setUniformMatrixfv Run loc n tr val st = Inr st'"
    then obtain f where
      "for_each_stage (updateStage loc f) (getLinkedShaderStages st) st = Inr st'"
      using setUniformImpl_loop setUniformMatrixfv_loop by blast
    from stage_loop_dirty [OF this] assms
    show "mDefaultUniformBlocks st' S = mDefaultUniformBlocks st S \<and>
          (S \<in> mDefaultUniformBlocksDirty st' \<longleftrightarrow> S \<in> mDefaultUniformBlocksDirty st)"
      by blast
  qed
  have e: "ReadFromDefaultUniformBlock cc ai dst li buf = Inl AssertionFailure"
    using assms(2) by (simp add: ReadFromDefaultUniformBlock_def)
  show ?thesis using a b c d e by blast
qed

theorem unused_record_skipped_witness:
  "setUniformImpl_matching 1 1 values_0_5_m3_0 \<lparr>arrayIndex = 0, index = 1, ignored = False\<rparr>
     flags_uniform Vertex example_program = Inr example_program
   \<and> setUniformImpl_coercing GLint 1 1 values_0_5_m3_0 GL_INT_VEC4
       \<lparr>arrayIndex = 0, index = 1, ignored = False\<rparr> flags_uniform Vertex example_program =
       Inr example_program
   \<and> setUniformMatrixfv_stage no_matrix_writer 1 1 False values_0_5_m3_0
       \<lparr>arrayIndex = 0, index = 1, ignored = False\<rparr> flags_uniform Vertex example_program =
       Inr example_program
   \<and> ReadFromDefaultUniformBlock 4 0 zero_mem kDefaultBlockMemberInfo counting_buffer =
       Inl AssertionFailure"
proof -
  have h: "at_index (uniformLayout (mDefaultUniformBlocks example_program Vertex)) 1 =
             Inr kDefaultBlockMemberInfo"
    "offset kDefaultBlockMemberInfo = - 1"
    by (simp_all add: example_tables example_layout example_records)
  from unused_record_skipped [OF h] show ?thesis by blast
qed

section \<open>Array writes\<close>

text \<open>
  C3, as stated, fails for a stride of zero: two elements written to the record of
  a variable that is not an array land one after the other from the offset on, the
  second at \<open>offset + 16\<close> and not at \<open>offset + (arrayIndex + 1) * 0\<close>.
\<close>

theorem stride_zero_copies_contiguously:
  "\<not> isl (UpdateDefaultUniformBlock 2 0 4 values_two_elements color_record two_element_buffer)
   \<and> values_two_elements (1 * (4 * 4) + 0) = 2
   \<and> mData (projr (UpdateDefaultUniformBlock 2 0 4 values_two_elements color_record
                     two_element_buffer))
        (offset color_record + (uint (0 :: 32 word) + 1) * arrayStride color_record + 0) = 1
   \<and> mData (projr (UpdateDefaultUniformBlock 2 0 4 values_two_elements color_record
                     two_element_buffer)) 16 = 2"
  by (simp add: UpdateDefaultUniformBlock_def color_record_def two_element_buffer_def
      values_two_elements_def zero_mem_def elementSize_of_def sizeof_T_def to_int_def
      to_uint32_def to_size_t_def memcpy_def Let_def)

text \<open>
  C3, amended: for a type-matching write of \<open>n \<ge> 1\<close> elements of one to four
  components at an array index into a variable whose stride \<open>s\<close> is not negative
  and is at least the tight element size \<open>e\<close> (or when \<open>n = 1\<close>), the last element
  ending inside a buffer smaller than 2 GiB: the write succeeds, source element
  \<open>i\<close> is placed at the bytes from \<open>offset + (arrayIndex + i) * s\<close> on, every
  padding byte in \<open>[offset + k * s + e, offset + (k + 1) * s)\<close> of a written index
  \<open>k\<close> keeps its value, and so does every byte outside the written elements.
\<close>

theorem strided_write_places_elements:
  assumes cc: "0 < cc" "cc \<le> 4"
    and s: "0 \<le> arrayStride li"
    and sep: "4 * cc \<le> arrayStride li \<or> n = 1"
    and n: "0 < n"
    and off: "0 \<le> offset li"
    and fit: "offset li + (uint ai + n - 1) * arrayStride li + 4 * cc \<le> mSize buf"
    and small: "mSize buf < 2 ^ 31"
  shows "\<exists>buf'. UpdateDefaultUniformBlock n ai cc v li buf = Inr buf' \<and> mSize buf' = mSize buf \<and>
      (\<forall>i j. 0 \<le> i \<and> i < n \<and> 0 \<le> j \<and> j < 4 * cc \<longrightarrow>
         mData buf' (offset li + (uint ai + i) * arrayStride li + j) = v (i * (4 * cc) + j)) \<and>
      (\<forall>k a. uint ai \<le> k \<and> k < uint ai + n \<and>
         offset li + k * arrayStride li + 4 * cc \<le> a \<and> a < offset li + (k + 1) * arrayStride li
           \<longrightarrow> mData buf' a = mData buf a) \<and>
      (\<forall>a. (\<forall>i. 0 \<le> i \<and> i < n \<longrightarrow>
               a < offset li + (uint ai + i) * arrayStride li \<or>
               offset li + (uint ai + i) * arrayStride li + 4 * cc \<le> a)
           \<longrightarrow> mData buf' a = mData buf a)"
proof -
  let ?s = "arrayStride li"
  from UpdateDefaultUniformBlock_spec [OF cc s sep n off fit small, of v]
  obtain buf' where r: "UpdateDefaultUniformBlock n ai cc v li buf = Inr buf'"
    and sz: "mSize buf' = mSize buf"
    and place: "\<forall>i j. 0 \<le> i \<and> i < n \<and> 0 \<le> j \<and> j < 4 * cc \<longrightarrow>
         mData buf' (offset li + (uint ai + i) * ?s + j) = v (i * (4 * cc) + j)"
    and frame: "\<forall>a. (\<forall>i. 0 \<le> i \<and> i < n \<longrightarrow>
               a < offset li + (uint ai + i) * ?s \<or> offset li + (uint ai + i) * ?s + 4 * cc \<le> a)
           \<longrightarrow> mData buf' a = mData buf a"
    by blast
  have padding: "\<forall>k a. uint ai \<le> k \<and> k < uint ai + n \<and>
         offset li + k * ?s + 4 * cc \<le> a \<and> a < offset li + (k + 1) * ?s
           \<longrightarrow> mData buf' a = mData buf a"
  proof (intro allI impI)
    fix k a
    assume ka: "uint ai \<le> k \<and> k < uint ai + n \<and>
         offset li + k * ?s + 4 * cc \<le> a \<and> a < offset li + (k + 1) * ?s"
    have "\<forall>i. 0 \<le> i \<and> i < n \<longrightarrow>
               a < offset li + (uint ai + i) * ?s \<or> offset li + (uint ai + i) * ?s + 4 * cc \<le> a"
    proof (intro allI impI)
      fix i assume i: "0 \<le> i \<and> i < n"
      show "a < offset li + (uint ai + i) * ?s \<or> offset li + (uint ai + i) * ?s + 4 * cc \<le> a"
      proof (cases "uint ai + i \<le> k")
        case True
        then have "(uint ai + i) * ?s \<le> k * ?s" using s by (rule mult_right_mono)
        then show ?thesis using ka by linarith
      next
        case False
        then have "k + 1 \<le> uint ai + i" by simp
        then have "(k + 1) * ?s \<le> (uint ai + i) * ?s" using s by (rule mult_right_mono)
        then show ?thesis using ka by linarith
      qed
    qed
    with frame show "mData buf' a = mData buf a" by blast
  qed
  show ?thesis using r sz place padding frame by blast
qed

theorem strided_write_places_elements_witness:
  "\<exists>buf'. UpdateDefaultUniformBlock 3 1 4 values_three_elements stride32_record marked_buffer =
       Inr buf' \<and>
     mData buf' 32 = 7 \<and> mData buf' 47 = 7 \<and> mData buf' 48 = 0xEE \<and> mData buf' 63 = 0xEE \<and>
     mData buf' 64 = 7 \<and> mData buf' 0 = 0xEE"
proof -
  have h: "(0::int) < 4" "(4::int) \<le> 4" "0 \<le> arrayStride stride32_record"
    "4 * 4 \<le> arrayStride stride32_record \<or> (3::int) = 1" "(0::int) < 3"
    "0 \<le> offset stride32_record"
    "offset stride32_record + (uint (1 :: 32 word) + 3 - 1) * arrayStride stride32_record + 4 * 4
       \<le> mSize marked_buffer"
    "mSize marked_buffer < 2 ^ 31"
    by (simp_all add: stride32_record_def marked_buffer_def)
  from strided_write_places_elements [OF h, of values_three_elements]
  obtain buf' where
    r: "UpdateDefaultUniformBlock 3 1 4 values_three_elements stride32_record marked_buffer = Inr buf'"
    and place: "\<And>i j. 0 \<le> i \<and> i < 3 \<and> 0 \<le> j \<and> j < 4 * 4 \<Longrightarrow>
         mData buf' (offset stride32_record + (uint (1 :: 32 word) + i) * arrayStride stride32_record + j)
           = values_three_elements (i * (4 * 4) + j)"
    and padding: "\<And>k a. uint (1 :: 32 word) \<le> k \<and> k < uint (1 :: 32 word) + 3 \<and>
         offset stride32_record + k * arrayStride stride32_record + 4 * 4 \<le> a \<and>
         a < offset stride32_record + (k + 1) * arrayStride stride32_record
           \<Longrightarrow> mData buf' a = mData marked_buffer a"
    and frame: "\<And>a. (\<forall>i. 0 \<le> i \<and> i < 3 \<longrightarrow>
               a < offset stride32_record + (uint (1 :: 32 word) + i) * arrayStride stride32_record \<or>
               offset stride32_record + (uint (1 :: 32 word) + i) * arrayStride stride32_record + 4 * 4 \<le> a)
           \<Longrightarrow> mData buf' a = mData marked_buffer a"
    by blast
  have "mData buf' 32 = 7" using place [of 0 0]
    by (simp add: stride32_record_def values_three_elements_def)
  moreover have "mData buf' 47 = 7" using place [of 0 15]
    by (simp add: stride32_record_def values_three_elements_def)
  moreover have "mData buf' 64 = 7" using place [of 1 0]
    by (simp add: stride32_record_def values_three_elements_def)
  moreover have "mData buf' 48 = 0xEE" using padding [of 1 48]
    by (simp add: stride32_record_def marked_buffer_def)
  moreover have "mData buf' 63 = 0xEE" using padding [of 1 63]
    by (simp add: stride32_record_def marked_buffer_def)
  moreover have "mData buf' 0 = 0xEE" using frame [of 0]
    by (simp add: stride32_record_def marked_buffer_def)
  ultimately show ?thesis using r by simp
qed

section \<open>Boolean coercion\<close>

text \<open>
  C4: when a write of \<open>n\<close> integer, unsigned or float vectors arrives at a location
  declared as the boolean vector of the same arity, the write succeeds, and in
  every linked stage that holds the variable, component \<open>k\<close> of element \<open>i\<close>, at
  \<open>offset + (arrayIndex + i) * arrayStride + 4 * k\<close>, holds the integer 0 when the
  source component is zero (the word 0, and for a float also the negative zero
  \<open>0x80000000\<close>) and the integer 1 when it is anything else; every byte of the
  block outside the written elements, the size of the block, and the block of
  every stage that does not hold the variable stay as they were. Reading the
  location back as integers returns these 0 and 1 for its element and leaves the
  rest of the destination alone. The elements lie inside the block (smaller than
  2 GiB), and they are at least an element apart or there is one of them.
\<close>

theorem boolean_write_coerces:
  assumes loc: "at_index (getUniformLocations st) loc = Inr locationInfo"
    and uni: "at_index (getUniforms st) (uint (index locationInfo)) = Inr u"
    and plain: "\<not> isSampler (typeInfo u)" "\<not> isImageType (typeInfo u)" "\<not> IsMatrixType (type u)"
    and entry: "VariableBoolVectorType entry \<noteq> GL_NONE"
    and ty: "type' (typeInfo u) = VariableBoolVectorType entry"
    and cty: "componentType (typeInfo u) = GL_BOOL"
    and cc: "0 < componentCount (typeInfo u)" "componentCount (typeInfo u) \<le> 4"
    and n: "0 < n"
    and active: "getFirstShaderTypeWhereActive u \<in> set (getLinkedShaderStages st)"
    and used: "layoutUsed st loc (getFirstShaderTypeWhereActive u)"
    and layouts: "\<forall>S\<in>set (getLinkedShaderStages st).
        \<exists>li. at_index (uniformLayout (mDefaultUniformBlocks st S)) loc = Inr li \<and>
          (offset li \<noteq> - 1 \<longrightarrow>
             elementsInBlock li (arrayIndex locationInfo) n (componentCount (typeInfo u))
               (uniformData (mDefaultUniformBlocks st S)) \<and>
             (4 * componentCount (typeInfo u) \<le> arrayStride li \<or> n = 1))"
  shows "\<exists>st' dst'. setUniformImpl T loc n v entry st = Inr st' \<and>
           (\<forall>S li i k. S \<in> set (getLinkedShaderStages st) \<and>
               at_index (uniformLayout (mDefaultUniformBlocks st S)) loc = Inr li \<and>
               offset li \<noteq> - 1 \<and> 0 \<le> i \<and> i < n \<and> 0 \<le> k \<and> k < componentCount (typeInfo u) \<longrightarrow>
               load32 (mData (uniformData (mDefaultUniformBlocks st' S)))
                 (offset li + (uint (arrayIndex locationInfo) + i) * arrayStride li + 4 * k) =
               (if (case T of
                      GLfloat \<Rightarrow>
                        load32 v (4 * (i * componentCount (typeInfo u)) + 4 * k) = 0 \<or>
                        load32 v (4 * (i * componentCount (typeInfo u)) + 4 * k) = 0x80000000
                    | GLint \<Rightarrow> load32 v (4 * (i * componentCount (typeInfo u)) + 4 * k) = 0
                    | GLuint \<Rightarrow> load32 v (4 * (i * componentCount (typeInfo u)) + 4 * k) = 0)
                then 0 else 1)) \<and>
           (\<forall>S li a. S \<in> set (getLinkedShaderStages st) \<and>
               at_index (uniformLayout (mDefaultUniformBlocks st S)) loc = Inr li \<and>
               offset li \<noteq> - 1 \<and>
               (\<forall>i. 0 \<le> i \<and> i < n \<longrightarrow>
                  a < offset li + (uint (arrayIndex locationInfo) + i) * arrayStride li \<or>
                  offset li + (uint (arrayIndex locationInfo) + i) * arrayStride li +
                    4 * componentCount (typeInfo u) \<le> a) \<longrightarrow>
               mData (uniformData (mDefaultUniformBlocks st' S)) a =
               mData (uniformData (mDefaultUniformBlocks st S)) a) \<and>
           (\<forall>S. mSize (uniformData (mDefaultUniformBlocks st' S)) =
                mSize (uniformData (mDefaultUniformBlocks st S))) \<and>
           (\<forall>S. \<not> touchesStage st loc S \<longrightarrow>
                mDefaultUniformBlocks st' S = mDefaultUniformBlocks st S) \<and>
           getUniformImpl G loc dst GL_INT st' = Inr dst' \<and>
           (\<forall>k. 0 \<le> k \<and> k < componentCount (typeInfo u) \<longrightarrow>
               load32 dst' (4 * k) =
               (if (case T of
                      GLfloat \<Rightarrow> load32 v (4 * k) = 0 \<or> load32 v (4 * k) = 0x80000000
                    | GLint \<Rightarrow> load32 v (4 * k) = 0
                    | GLuint \<Rightarrow> load32 v (4 * k) = 0)
                then 0 else 1)) \<and>
           (\<forall>a. a < 0 \<or> 4 * componentCount (typeInfo u) \<le> a \<longrightarrow> dst' a = dst a)"
proof -
  have "componentType (typeInfo u) = VariableBoolVectorType GL_INT"
    using cty by simp
  from boolean_write_general [OF loc uni plain entry ty this cc n active used layouts, of T v G dst]
  obtain st' dst' where
    w: "setUniformImpl T loc n v entry st = Inr st'"
    and stored: "\<forall>S li i k. S \<in> set (getLinkedShaderStages st) \<and>
               at_index (uniformLayout (mDefaultUniformBlocks st S)) loc = Inr li \<and>
               offset li \<noteq> - 1 \<and> 0 \<le> i \<and> i < n \<and> 0 \<le> k \<and> k < componentCount (typeInfo u) \<longrightarrow>
               load32 (mData (uniformData (mDefaultUniformBlocks st' S)))
                 (offset li + (uint (arrayIndex locationInfo) + i) * arrayStride li + 4 * k) =
               (if equals_zero T (load32 v (4 * (i * componentCount (typeInfo u)) + 4 * k))
                then GL_FALSE else GL_TRUE)"
    and r: "getUniformImpl G loc dst GL_INT st' = Inr dst'"
    and rb: "\<forall>k. 0 \<le> k \<and> k < componentCount (typeInfo u) \<longrightarrow>
               load32 dst' (4 * k) =
               (if equals_zero T (load32 v (4 * k)) then GL_FALSE else GL_TRUE)"
    by blast
  note frame = boolean_write_frame [OF loc uni plain(1) entry ty cc(1) n layouts w]
  from setUniformImpl_loop [OF w] obtain f where
    "for_each_stage (updateStage loc f) (getLinkedShaderStages st) st = Inr st'" ..
  from for_each_stage_tables [OF this] have
    t: "getUniformLocations st' = getUniformLocations st" "getUniforms st' = getUniforms st"
    by simp_all
  have cc': "0 \<le> componentCount (typeInfo u)" "componentCount (typeInfo u) < 2 ^ 29"
    using cc by simp_all
  have rest: "\<forall>a. a < 0 \<or> 4 * componentCount (typeInfo u) \<le> a \<longrightarrow> dst' a = dst a"
    using getUniformImpl_frame [OF r _ _ plain(3) cc'] loc uni by (simp add: t)
  show ?thesis
    using w stored frame r rb rest unfolding coerced_literal
    by (intro exI [of _ st'] exI [of _ dst'] conjI) blast+
qed


theorem boolean_write_coerces_witness:
  "\<exists>sti di stf df stu du.
     load32 values_0_5_m3_0 0 = 0 \<and> load32 values_0_5_m3_0 4 = 5 \<and>
     load32 values_0_5_m3_0 8 = - 3 \<and> load32 values_0_5_m3_0 12 = 0 \<and>
     setUniform4iv 1 1 values_0_5_m3_0 example_program = Inr sti \<and>
     getUniformiv no_matrix_reader 1 zero_mem sti = Inr di \<and>
     load32 di 0 = 0 \<and> load32 di 4 = 1 \<and> load32 di 8 = 1 \<and> load32 di 12 = 0 \<and>
     mSize (uniformData (mDefaultUniformBlocks sti Fragment)) = 48 \<and>
     mDefaultUniformBlocks sti Vertex = mDefaultUniformBlocks example_program Vertex \<and>
     setUniform4fv 1 1 values_0f_5f_m3f_m0f example_program = Inr stf \<and>
     getUniformiv no_matrix_reader 1 zero_mem stf = Inr df \<and>
     load32 df 0 = 0 \<and> load32 df 4 = 1 \<and> load32 df 8 = 1 \<and> load32 df 12 = 0 \<and>
     setUniform4uiv 1 1 values_0_5_m3_0 example_program = Inr stu \<and>
     getUniformiv no_matrix_reader 1 zero_mem stu = Inr du \<and>
     load32 du 0 = 0 \<and> load32 du 4 = 1 \<and> load32 du 8 = 1 \<and> load32 du 12 = 0"
proof -
  have f: "VariableBoolVectorType GL_FLOAT_VEC4 \<noteq> GL_NONE"
    "type' (typeInfo flags_uniform) = VariableBoolVectorType GL_FLOAT_VEC4"
    and u: "VariableBoolVectorType GL_UNSIGNED_INT_VEC4 \<noteq> GL_NONE"
    "type' (typeInfo flags_uniform) = VariableBoolVectorType GL_UNSIGNED_INT_VEC4"
    by (simp_all add: uniform_fields)
  have k: "(0::int) \<le> 0 \<and> 0 < componentCount (typeInfo flags_uniform)"
    "(0::int) \<le> 1 \<and> 1 < componentCount (typeInfo flags_uniform)"
    "(0::int) \<le> 2 \<and> 2 < componentCount (typeInfo flags_uniform)"
    "(0::int) \<le> 3 \<and> 3 < componentCount (typeInfo flags_uniform)"
    by (simp_all add: uniform_fields)
  have v: "\<not> touchesStage example_program 1 Vertex" by (rule example_touched)
  from boolean_write_coerces [OF flags_facts, of GLint values_0_5_m3_0 no_matrix_reader zero_mem]
  obtain sti di where
    wi: "setUniformImpl GLint 1 1 values_0_5_m3_0 GL_INT_VEC4 example_program = Inr sti"
    and ri: "getUniformImpl no_matrix_reader 1 zero_mem GL_INT sti = Inr di"
    and ci: "\<And>k. 0 \<le> k \<and> k < componentCount (typeInfo flags_uniform) \<Longrightarrow>
               load32 di (4 * k) =
               (if (case GLint of
                      GLfloat \<Rightarrow> load32 values_0_5_m3_0 (4 * k) = 0 \<or>
                        load32 values_0_5_m3_0 (4 * k) = 0x80000000
                    | GLint \<Rightarrow> load32 values_0_5_m3_0 (4 * k) = 0
                    | GLuint \<Rightarrow> load32 values_0_5_m3_0 (4 * k) = 0)
                then 0 else 1)"
    and si: "\<And>S. mSize (uniformData (mDefaultUniformBlocks sti S)) =
                mSize (uniformData (mDefaultUniformBlocks example_program S))"
    and ui: "\<And>S. \<not> touchesStage example_program 1 S \<Longrightarrow>
                mDefaultUniformBlocks sti S = mDefaultUniformBlocks example_program S"
    by blast
  from boolean_write_coerces [OF flags_facts(1-5) f flags_facts(8-14),
      of GLfloat values_0f_5f_m3f_m0f no_matrix_reader zero_mem]
  obtain stf df where
    wf: "setUniformImpl GLfloat 1 1 values_0f_5f_m3f_m0f GL_FLOAT_VEC4 example_program = Inr stf"
    and rf: "getUniformImpl no_matrix_reader 1 zero_mem GL_INT stf = Inr df"
    and cf: "\<And>k. 0 \<le> k \<and> k < componentCount (typeInfo flags_uniform) \<Longrightarrow>
               load32 df (4 * k) =
               (if (case GLfloat of
                      GLfloat \<Rightarrow> load32 values_0f_5f_m3f_m0f (4 * k) = 0 \<or>
                        load32 values_0f_5f_m3f_m0f (4 * k) = 0x80000000
                    | GLint \<Rightarrow> load32 values_0f_5f_m3f_m0f (4 * k) = 0
                    | GLuint \<Rightarrow> load32 values_0f_5f_m3f_m0f (4 * k) = 0)
                then 0 else 1)"
    by blast
  from boolean_write_coerces [OF flags_facts(1-5) u flags_facts(8-14),
      of GLuint values_0_5_m3_0 no_matrix_reader zero_mem]
  obtain stu du where
    wu: "setUniformImpl GLuint 1 1 values_0_5_m3_0 GL_UNSIGNED_INT_VEC4 example_program = Inr stu"
    and ru: "getUniformImpl no_matrix_reader 1 zero_mem GL_INT stu = Inr du"
    and cu: "\<And>k. 0 \<le> k \<and> k < componentCount (typeInfo flags_uniform) \<Longrightarrow>
               load32 du (4 * k) =
               (if (case GLuint of
                      GLfloat \<Rightarrow> load32 values_0_5_m3_0 (4 * k) = 0 \<or>
                        load32 values_0_5_m3_0 (4 * k) = 0x80000000
                    | GLint \<Rightarrow> load32 values_0_5_m3_0 (4 * k) = 0
                    | GLuint \<Rightarrow> load32 values_0_5_m3_0 (4 * k) = 0)
                then 0 else 1)"
    by blast
  have i: "load32 di 0 = 0" "load32 di 4 = 1" "load32 di 8 = 1" "load32 di 12 = 0"
    using ci [OF k(1)] ci [OF k(2)] ci [OF k(3)] ci [OF k(4)] by (simp_all add: load32_values)
  have f': "load32 df 0 = 0" "load32 df 4 = 1" "load32 df 8 = 1" "load32 df 12 = 0"
    using cf [OF k(1)] cf [OF k(2)] cf [OF k(3)] cf [OF k(4)]
    by (simp_all add: load32_float_values)
  have u': "load32 du 0 = 0" "load32 du 4 = 1" "load32 du 8 = 1" "load32 du 12 = 0"
    using cu [OF k(1)] cu [OF k(2)] cu [OF k(3)] cu [OF k(4)] by (simp_all add: load32_values)
  have sz: "mSize (uniformData (mDefaultUniformBlocks sti Fragment)) = 48"
    by (simp add: si example_tables example_records)
  show ?thesis
    using wi ri i wf rf f' wu ru u' sz ui [OF v]
    by (simp add: setUniform4iv_def setUniform4fv_def setUniform4uiv_def getUniformiv_def
        load32_values)
qed

section \<open>Writes past the block\<close>

text \<open>
  C5 holds on the type-matching path and fails on the boolean path, which has no
  bounds check. In the example program \<^verbatim>\<open>flags\<close> is a \<^verbatim>\<open>bvec4\<close> array of two
  elements at offset 16 of the fragment stage's block of 48 bytes. Writing two
  integer vectors at \<^verbatim>\<open>flags[1]\<close> succeeds and stores \<^verbatim>\<open>GL_TRUE\<close> at address 48,
  the first byte past the block; the same write at \<^verbatim>\<open>offsets[1]\<close>, an \<^verbatim>\<open>ivec4\<close>
  array of the same layout in the vertex stage, fails its assertion.
\<close>

theorem boolean_write_past_block:
  "\<not> isl (setUniform4iv 2 2 values_eight example_program)
   \<and> mSize (uniformData (mDefaultUniformBlocks
              (projr (setUniform4iv 2 2 values_eight example_program)) Fragment)) = 48
   \<and> load32 (mData (uniformData (mDefaultUniformBlocks example_program Fragment))) 48 = 0
   \<and> load32 (mData (uniformData (mDefaultUniformBlocks
              (projr (setUniform4iv 2 2 values_eight example_program)) Fragment))) 48 = GL_TRUE
   \<and> setUniform4iv 6 2 values_eight example_program = Inl AssertionFailure"
proof -
  have z: "load32 zero_mem 48 = 0"
    by (simp add: load32_def zero_mem_def)
  show ?thesis
    by (simp add: setUniform4iv_def example_flags_write_two example_offsets_write_two
        setBlock_simps second_element_past_block example_tables example_records z)
qed

section \<open>Dirty tracking\<close>

text \<open>
  C6: after a successful write through \<^verbatim>\<open>setUniformImpl\<close> or
  \<^verbatim>\<open>setUniformMatrixfv\<close>, every stage whose block bytes changed has its dirty bit
  set, and so has every stage the write touches (a linked stage whose record for
  the location is not the \<open>-1\<close> sentinel); a dirty bit that was set stays set, so
  only the external clear resets it; and a stage the write does not touch keeps
  its block and its dirty bit, in particular a stage whose record has offset \<open>-1\<close>.
\<close>

theorem dirty_tracking:
  assumes "setUniformImpl T loc n v entry st = Inr st' \<or>
           setUniformMatrixfv Run loc n tr val st = Inr st'"
  shows "(\<forall>S. mData (uniformData (mDefaultUniformBlocks st' S)) \<noteq>
              mData (uniformData (mDefaultUniformBlocks st S)) \<longrightarrow>
              S \<in> mDefaultUniformBlocksDirty st')
       \<and> (\<forall>S. touchesStage st loc S \<longrightarrow> S \<in> mDefaultUniformBlocksDirty st')
       \<and> (\<forall>S. S \<in> mDefaultUniformBlocksDirty st \<longrightarrow> S \<in> mDefaultUniformBlocksDirty st')
       \<and> (\<forall>S. \<not> touchesStage st loc S \<longrightarrow>
              mDefaultUniformBlocks st' S = mDefaultUniformBlocks st S \<and>
              (S \<in> mDefaultUniformBlocksDirty st' \<longleftrightarrow> S \<in> mDefaultUniformBlocksDirty st))
       \<and> (\<forall>S li. at_index (uniformLayout (mDefaultUniformBlocks st S)) loc = Inr li \<and>
              offset li = - 1 \<longrightarrow>
              mDefaultUniformBlocks st' S = mDefaultUniformBlocks st S \<and>
              (S \<in> mDefaultUniformBlocksDirty st' \<longleftrightarrow> S \<in> mDefaultUniformBlocksDirty st))"
proof -
  from assms obtain f where
    "for_each_stage (updateStage loc f) (getLinkedShaderStages st) st = Inr st'"
    using setUniformImpl_loop setUniformMatrixfv_loop by blast
  then show ?thesis by (rule stage_loop_dirty)
qed

theorem dirty_tracking_witness:
  "\<exists>st'. setUniform4iv 1 1 values_0_5_m3_0 example_program = Inr st' \<and>
     touchesStage example_program 1 Fragment \<and> \<not> touchesStage example_program 1 Vertex \<and>
     Fragment \<in> mDefaultUniformBlocksDirty st' \<and> Vertex \<notin> mDefaultUniformBlocksDirty st' \<and>
     mDefaultUniformBlocks st' Vertex = mDefaultUniformBlocks example_program Vertex"
proof -
  from example_flags_write_one obtain st' where
    w: "setUniformImpl GLint 1 1 values_0_5_m3_0 GL_INT_VEC4 example_program = Inr st'" ..
  from dirty_tracking [OF disjI1 [OF w]] example_touched
  have "Fragment \<in> mDefaultUniformBlocksDirty st'"
    and "mDefaultUniformBlocks st' Vertex = mDefaultUniformBlocks example_program Vertex"
    and "Vertex \<in> mDefaultUniformBlocksDirty st' \<longleftrightarrow>
         Vertex \<in> mDefaultUniformBlocksDirty example_program"
    by blast+
  then show ?thesis
    using w example_touched by (simp add: setUniform4iv_def example_tables)
qed

section \<open>Layout lookup\<close>

text \<open>
  C7, as stated, fails: the guard of \<^verbatim>\<open>initDefaultUniformLayoutMapping\<close> has a
  fourth condition, \<^verbatim>\<open>!uniform.isFragmentInOut\<close>. A used, non-ignored location of a
  default-block variable that is neither opaque, sampler nor image, but is a
  fragment in/out variable, is not looked up at all: no assertion is made, and
  every linked stage gets the all \<open>-1\<close> record.
\<close>

theorem fragment_inout_gets_unused_record:
  "getUniformLocations inout_program = [\<lparr>arrayIndex = 0, index = 0, ignored = False\<rparr>]
   \<and> used \<lparr>arrayIndex = 0, index = 0, ignored = False\<rparr>
   \<and> at_index (getUniforms inout_program) 0 = Inr inout_uniform
   \<and> isInDefaultBlock inout_uniform
   \<and> \<not> isSampler (typeInfo inout_uniform)
   \<and> \<not> isImageType (typeInfo inout_uniform)
   \<and> \<not> IsOpaqueType (type inout_uniform)
   \<and> getLinkedShaderStages inout_program = [Fragment]
   \<and> no_layoutMap Fragment (lookupName inout_uniform) = None
   \<and> (\<exists>st'. initDefaultUniformLayoutMapping no_layoutMap inout_program = Inr st' \<and>
         uniformLayout (mDefaultUniformBlocks st' Fragment) = [kDefaultBlockMemberInfo])"
proof -
  have "used \<lparr>arrayIndex = 0, index = 0, ignored = False\<rparr>"
    by (simp add: used_def GL_INVALID_INDEX_def)
  moreover have "isInDefaultBlock inout_uniform \<and> \<not> isSampler (typeInfo inout_uniform) \<and>
      \<not> isImageType (typeInfo inout_uniform)"
    by (simp add: inout_uniform_def)
  ultimately show ?thesis
    using inout_layout
    by (simp add: inout_tables inout_stages variable_types at_index_def no_layoutMap_def)
qed

text \<open>
  C7, amended: a variable that is an array is looked up under its name without the
  last array index; and for every used, non-ignored location whose variable is in
  the default block, is neither sampler nor image, and is not a fragment in/out
  variable: if no linked stage has the name, the location fails the assertion and
  the whole mapping fails; and whenever the mapping succeeds, some linked stage has
  the name, and the record pushed for the location in each linked stage is the
  stage's record for the name, or the all \<open>-1\<close> record where the stage has none.
\<close>

theorem layout_lookup_must_succeed:
  assumes i: "i < length (getUniformLocations st)"
    and q: "used (getUniformLocations st ! i)" "\<not> ignored (getUniformLocations st ! i)"
    and uni: "at_index (getUniforms st) (uint (index (getUniformLocations st ! i))) = Inr u"
    and d: "isInDefaultBlock u" "\<not> isSampler (typeInfo u)" "\<not> isImageType (typeInfo u)"
      "\<not> isFragmentInOut u"
  shows "((\<forall>S\<in>set (getLinkedShaderStages st). lm S (lookupName u) = None) \<longrightarrow>
            initDefaultUniformLayoutMapping_location lm st (getUniformLocations st ! i) =
              Inl AssertionFailure \<and>
            (\<exists>e. initDefaultUniformLayoutMapping lm st = Inl e))
       \<and> (\<forall>st'. initDefaultUniformLayoutMapping lm st = Inr st' \<longrightarrow>
            (\<exists>S\<in>set (getLinkedShaderStages st). lm S (lookupName u) \<noteq> None) \<and>
            (\<forall>S\<in>set (getLinkedShaderStages st).
               uniformLayout (mDefaultUniformBlocks st' S) !
                 (length (uniformLayout (mDefaultUniformBlocks st S)) + i) =
               (case lm S (lookupName u) of
                  None \<Rightarrow> kDefaultBlockMemberInfo
                | Some info \<Rightarrow> info)))"
proof -
  let ?locs = "getUniformLocations st"
  let ?loc = "?locs ! i"
  let ?stages = "getLinkedShaderStages st"
  note look = location_lookup [OF q uni d, of lm, folded lookupName_def]
  have mem: "?loc \<in> set ?locs" using i by simp
  have fail: "(\<forall>S\<in>set ?stages. lm S (lookupName u) = None) \<longrightarrow>
            initDefaultUniformLayoutMapping_location lm st ?loc = Inl AssertionFailure \<and>
            (\<exists>e. initDefaultUniformLayoutMapping lm st = Inl e)"
  proof
    assume none: "\<forall>S\<in>set ?stages. lm S (lookupName u) = None"
    then have a: "initDefaultUniformLayoutMapping_location lm st ?loc = Inl AssertionFailure"
      unfolding look by simp
    have "\<exists>e. initDefaultUniformLayoutMapping lm st = Inl e"
    proof (cases "initDefaultUniformLayoutMapping lm st")
      case (Inl e)
      then show ?thesis by blast
    next
      case (Inr st')
      then have "initDefaultUniformLayoutMapping_locations lm ?locs st = Inr st'"
        by (simp add: initDefaultUniformLayoutMapping_def)
      from locations_spec [OF this] mem
      obtain li where "initDefaultUniformLayoutMapping_location lm st ?loc = Inr li" by blast
      with a show ?thesis by simp
    qed
    with a show "initDefaultUniformLayoutMapping_location lm st ?loc = Inl AssertionFailure \<and>
            (\<exists>e. initDefaultUniformLayoutMapping lm st = Inl e)" ..
  qed
  have ok: "\<forall>st'. initDefaultUniformLayoutMapping lm st = Inr st' \<longrightarrow>
            (\<exists>S\<in>set ?stages. lm S (lookupName u) \<noteq> None) \<and>
            (\<forall>S\<in>set ?stages.
               uniformLayout (mDefaultUniformBlocks st' S) !
                 (length (uniformLayout (mDefaultUniformBlocks st S)) + i) =
               (case lm S (lookupName u) of
                  None \<Rightarrow> kDefaultBlockMemberInfo
                | Some info \<Rightarrow> info))"
  proof (intro allI impI)
    fix st' assume "initDefaultUniformLayoutMapping lm st = Inr st'"
    then have run: "initDefaultUniformLayoutMapping_locations lm ?locs st = Inr st'"
      by (simp add: initDefaultUniformLayoutMapping_def)
    from locations_spec [OF run] mem obtain li where
      li: "initDefaultUniformLayoutMapping_location lm st ?loc = Inr li"
      and tab: "\<And>S. S \<in> set ?stages \<Longrightarrow>
        uniformLayout (mDefaultUniformBlocks st' S) =
          uniformLayout (mDefaultUniformBlocks st S) @
            map (\<lambda>location. projr (initDefaultUniformLayoutMapping_location lm st location) S) ?locs"
      by blast
    from li have found: "\<exists>S\<in>set ?stages. lm S (lookupName u) \<noteq> None"
      unfolding look by (auto split: if_splits)
    from li have rec: "li = (\<lambda>S. if S \<in> set ?stages \<and> lm S (lookupName u) \<noteq> None
                   then the (lm S (lookupName u)) else kDefaultBlockMemberInfo)"
      unfolding look by (auto split: if_splits)
    have "\<forall>S\<in>set ?stages.
               uniformLayout (mDefaultUniformBlocks st' S) !
                 (length (uniformLayout (mDefaultUniformBlocks st S)) + i) =
               (case lm S (lookupName u) of
                  None \<Rightarrow> kDefaultBlockMemberInfo
                | Some info \<Rightarrow> info)"
    proof
      fix S assume S: "S \<in> set ?stages"
      have "uniformLayout (mDefaultUniformBlocks st' S) !
                 (length (uniformLayout (mDefaultUniformBlocks st S)) + i) =
            projr (initDefaultUniformLayoutMapping_location lm st ?loc) S"
        using i by (simp add: tab [OF S] nth_append)
      also have "\<dots> = li S" using li by simp
      also have "\<dots> = (case lm S (lookupName u) of
                  None \<Rightarrow> kDefaultBlockMemberInfo
                | Some info \<Rightarrow> info)"
        using S by (simp add: rec split: option.splits)
      finally show "uniformLayout (mDefaultUniformBlocks st' S) !
                 (length (uniformLayout (mDefaultUniformBlocks st S)) + i) =
               (case lm S (lookupName u) of
                  None \<Rightarrow> kDefaultBlockMemberInfo
                | Some info \<Rightarrow> info)" .
    qed
    with found show "(\<exists>S\<in>set ?stages. lm S (lookupName u) \<noteq> None) \<and>
            (\<forall>S\<in>set ?stages.
               uniformLayout (mDefaultUniformBlocks st' S) !
                 (length (uniformLayout (mDefaultUniformBlocks st S)) + i) =
               (case lm S (lookupName u) of
                  None \<Rightarrow> kDefaultBlockMemberInfo
                | Some info \<Rightarrow> info))" ..
  qed
  show ?thesis using fail ok ..
qed

theorem layout_lookup_must_succeed_witness:
  "initDefaultUniformLayoutMapping_location no_layoutMap unlinked_program (example_locations ! 1) =
     Inl AssertionFailure
   \<and> (\<exists>e. initDefaultUniformLayoutMapping no_layoutMap unlinked_program = Inl e)
   \<and> (\<exists>st'. initDefaultUniformLayoutMapping example_layoutMap unlinked_program = Inr st' \<and>
         uniformLayout (mDefaultUniformBlocks st' Vertex) ! 1 = kDefaultBlockMemberInfo \<and>
         uniformLayout (mDefaultUniformBlocks st' Fragment) ! 1 = array_record)"
proof -
  have i: "1 < length (getUniformLocations unlinked_program)"
    by (simp add: unlinked_tables example_locations_nth)
  have q: "used (getUniformLocations unlinked_program ! 1)"
    "\<not> ignored (getUniformLocations unlinked_program ! 1)"
    by (simp_all add: unlinked_tables example_locations_nth used_def GL_INVALID_INDEX_def)
  have uni: "at_index (getUniforms unlinked_program)
      (uint (index (getUniformLocations unlinked_program ! 1))) = Inr flags_uniform"
    by (simp add: unlinked_tables example_locations_nth example_uniform)
  have d: "isInDefaultBlock flags_uniform" "\<not> isSampler (typeInfo flags_uniform)"
    "\<not> isImageType (typeInfo flags_uniform)" "\<not> isFragmentInOut flags_uniform"
    by (simp_all add: uniform_guards uniform_fields)
  note none = layout_lookup_must_succeed [OF i q uni d, of no_layoutMap]
  note some = layout_lookup_must_succeed [OF i q uni d, of example_layoutMap]
  from none have a: "initDefaultUniformLayoutMapping_location no_layoutMap unlinked_program
      (example_locations ! 1) = Inl AssertionFailure \<and>
      (\<exists>e. initDefaultUniformLayoutMapping no_layoutMap unlinked_program = Inl e)"
    by (simp add: no_layoutMap_def unlinked_tables)
  from unlinked_layout_built obtain st' where
    st': "initDefaultUniformLayoutMapping example_layoutMap unlinked_program = Inr st'" ..
  with some have "\<forall>S\<in>set (getLinkedShaderStages unlinked_program).
      uniformLayout (mDefaultUniformBlocks st' S) !
        (length (uniformLayout (mDefaultUniformBlocks unlinked_program S)) + 1) =
      (case example_layoutMap S (lookupName flags_uniform) of
         None \<Rightarrow> kDefaultBlockMemberInfo | Some info \<Rightarrow> info)"
    by blast
  then have "uniformLayout (mDefaultUniformBlocks st' Vertex) ! 1 = kDefaultBlockMemberInfo \<and>
      uniformLayout (mDefaultUniformBlocks st' Fragment) ! 1 = array_record"
    by (simp add: unlinked_stages unlinked_tables empty_block_def uniform_names
        example_layoutMap_flags)
  with a st' show ?thesis by simp
qed

section \<open>The layout encoder on opaque members\<close>

text \<open>
  C8: \<^verbatim>\<open>InitDefaultUniformBlock\<close> on an empty list of variables, or on a list
  whose members are all of opaque type, returns size 0 and leaves the empty name
  map empty; no error value exists for it. A member of opaque type never advances
  the cursor of \<^verbatim>\<open>VulkanDefaultBlockEncoder\<close>, and the encoding of a list is the
  encoding of the list without its opaque members.
\<close>

theorem encoder_empty_or_opaque:
  "InitDefaultUniformBlock [] Map.empty = (Map.empty, 0)
   \<and> (\<forall>uniforms. (\<forall>u\<in>set uniforms. IsOpaqueType (type u)) \<longrightarrow>
         InitDefaultUniformBlock uniforms Map.empty = (Map.empty, 0))
   \<and> (\<forall>t sizes rowMajor aStride mStride cur. IsOpaqueType t \<longrightarrow>
         VulkanDefaultBlockEncoder_advanceOffset t sizes rowMajor aStride mStride cur = cur)
   \<and> (\<forall>uniforms cur m. GetActiveUniformBlockInfo uniforms (cur, m) =
         GetActiveUniformBlockInfo (filter (\<lambda>u. \<not> IsOpaqueType (type u)) uniforms) (cur, m))"
proof -
  have a: "InitDefaultUniformBlock [] Map.empty = (Map.empty, 0)"
    by (simp add: InitDefaultUniformBlock_def)
  have b: "\<forall>uniforms. (\<forall>u\<in>set uniforms. IsOpaqueType (type u)) \<longrightarrow>
         InitDefaultUniformBlock uniforms Map.empty = (Map.empty, 0)"
  proof (intro allI impI)
    fix uniforms :: "ShaderVariable list"
    assume "\<forall>u\<in>set uniforms. IsOpaqueType (type u)"
    then have "filter (\<lambda>u. \<not> IsOpaqueType (type u)) uniforms = []" by (simp add: filter_empty_conv)
    then have "GetActiveUniformBlockInfo uniforms (0, Map.empty) = (0, Map.empty)"
      by (subst GetActiveUniformBlockInfo_skips_opaque) simp
    then show "InitDefaultUniformBlock uniforms Map.empty = (Map.empty, 0)"
      by (simp add: InitDefaultUniformBlock_def)
  qed
  have c: "\<forall>t sizes rowMajor aStride mStride cur. IsOpaqueType t \<longrightarrow>
         VulkanDefaultBlockEncoder_advanceOffset t sizes rowMajor aStride mStride cur = cur"
    by (simp add: VulkanDefaultBlockEncoder_advanceOffset_def)
  show ?thesis using a b c GetActiveUniformBlockInfo_skips_opaque by blast
qed

theorem encoder_empty_or_opaque_witness:
  "InitDefaultUniformBlock [tex_variable, img_variable] Map.empty = (Map.empty, 0)
   \<and> VulkanDefaultBlockEncoder_advanceOffset GL_SAMPLER_2D [] False 0 0 16 = 16
   \<and> GetActiveUniformBlockInfo [tex_variable, color_variable] (0, Map.empty) =
       GetActiveUniformBlockInfo [color_variable] (0, Map.empty)"
proof -
  have all: "\<forall>u\<in>set [tex_variable, img_variable]. IsOpaqueType (type u)"
    by (simp add: variable_types)
  have keep: "filter (\<lambda>u. \<not> IsOpaqueType (type u)) [tex_variable, color_variable] =
      [color_variable]"
    by (simp add: variable_types)
  from encoder_empty_or_opaque all have
    a: "InitDefaultUniformBlock [tex_variable, img_variable] Map.empty = (Map.empty, 0)"
    by blast
  from encoder_empty_or_opaque variable_types(5) have
    b: "VulkanDefaultBlockEncoder_advanceOffset GL_SAMPLER_2D [] False 0 0 16 = 16"
    by blast
  from encoder_empty_or_opaque have
    "GetActiveUniformBlockInfo [tex_variable, color_variable] (0, Map.empty) =
       GetActiveUniformBlockInfo
         (filter (\<lambda>u. \<not> IsOpaqueType (type u)) [tex_variable, color_variable]) (0, Map.empty)"
    by blast
  then have c: "GetActiveUniformBlockInfo [tex_variable, color_variable] (0, Map.empty) =
       GetActiveUniformBlockInfo [color_variable] (0, Map.empty)"
    unfolding keep .
  from a b c show ?thesis by (intro conjI)
qed

section \<open>Opaque locations\<close>

text \<open>
  C9 does not hold for a write to an image location. \<^verbatim>\<open>getUniformImpl\<close> asserts
  that the variable is neither a sampler nor an image; \<^verbatim>\<open>setUniformImpl\<close> asserts
  only that it is not a sampler. In the example program \<^verbatim>\<open>img\<close> is an image at
  location 4, and every stage holds the \<open>-1\<close> record for it.
  \<^verbatim>\<open>setUniform1iv\<close> at this location passes its sampler test and reaches
  \<^verbatim>\<open>setUniformImpl\<close>, which skips every stage and returns with the state as it
  was, with no assertion; the read of the same location fails its assertion.
\<close>

theorem image_write_not_asserted:
  "at_index (getUniformLocations example_program) 4 =
     Inr \<lparr>arrayIndex = 0, index = 3, ignored = False\<rparr>
   \<and> at_index (getUniforms example_program) 3 = Inr img_uniform
   \<and> isImageType (typeInfo img_uniform)
   \<and> setUniformImpl GLint 4 1 values_1_2_3_4 GL_INT example_program = Inr example_program
   \<and> setUniform1iv 4 1 values_1_2_3_4 example_program = Inr example_program
   \<and> getUniformiv no_matrix_reader 4 zero_mem example_program = Inl AssertionFailure"
  by (simp add: setUniform1iv_def getUniformiv_def getUniformImpl_def example_tables
      example_location example_uniform uniform_fields example_image_write)

section \<open>The two arms of the read\<close>

text \<open>
  C10, as stated, fails where the product of the array index and the stride does
  not fit a signed 32-bit integer: with array index \<open>2^27\<close> and stride 16 the
  product is \<open>2^31\<close>. The arm for a stride equal to the element size adds it to
  the pointer as an unsigned value and reads at \<open>offset + 2^31\<close>; the arm for any
  other stride first stores it in an \<^verbatim>\<open>int\<close>, where it is \<open>-2^31\<close>, and reads
  in front of the buffer. The two arms differ on the same arguments, and the read
  of a one-component element does not come from \<open>offset + arrayIndex * arrayStride\<close>.
\<close>

theorem ReadFromDefaultUniformBlock_arms_differ:
  "ReadFromDefaultUniformBlock_tight 1 0x8000000 zero_mem stride16_record huge_buffer \<noteq>
     ReadFromDefaultUniformBlock_strided 1 0x8000000 zero_mem stride16_record huge_buffer
   \<and> ReadFromDefaultUniformBlock 1 0x8000000 zero_mem stride16_record huge_buffer \<noteq>
       Inr (memcpy zero_mem 0 (mData huge_buffer)
              (offset stride16_record + uint (0x8000000 :: 32 word) * arrayStride stride16_record)
              (to_size_t (elementSize_of 1)))"
proof -
  have t: "ReadFromDefaultUniformBlock_tight 1 0x8000000 zero_mem stride16_record huge_buffer 0 = 0x55"
    by (simp add: ReadFromDefaultUniformBlock_tight_def stride16_record_def huge_buffer_def
        memcpy_def elementSize_of_def sizeof_T_def to_int_def to_uint32_def to_size_t_def)
  have s: "ReadFromDefaultUniformBlock_strided 1 0x8000000 zero_mem stride16_record huge_buffer 0 = 0xAA"
    by (simp add: ReadFromDefaultUniformBlock_strided_def stride16_record_def huge_buffer_def
        memcpy_def elementSize_of_def sizeof_T_def to_int_def to_uint32_def to_size_t_def)
  have m: "memcpy zero_mem 0 (mData huge_buffer)
              (offset stride16_record + uint (0x8000000 :: 32 word) * arrayStride stride16_record)
              (to_size_t (elementSize_of 1)) 0 = 0x55"
    by (simp add: stride16_record_def huge_buffer_def
        memcpy_def elementSize_of_def sizeof_T_def to_int_def to_size_t_def)
  have r: "ReadFromDefaultUniformBlock 1 0x8000000 zero_mem stride16_record huge_buffer =
             Inr (ReadFromDefaultUniformBlock_strided 1 0x8000000 zero_mem stride16_record huge_buffer)"
    by (simp add: ReadFromDefaultUniformBlock_def stride16_record_def elementSize_of_def
        sizeof_T_def to_int_def to_size_t_def)
  have "ReadFromDefaultUniformBlock_tight 1 0x8000000 zero_mem stride16_record huge_buffer \<noteq>
     ReadFromDefaultUniformBlock_strided 1 0x8000000 zero_mem stride16_record huge_buffer"
  proof
    assume "ReadFromDefaultUniformBlock_tight 1 0x8000000 zero_mem stride16_record huge_buffer =
      ReadFromDefaultUniformBlock_strided 1 0x8000000 zero_mem stride16_record huge_buffer"
    then have "ReadFromDefaultUniformBlock_tight 1 0x8000000 zero_mem stride16_record huge_buffer 0 =
      ReadFromDefaultUniformBlock_strided 1 0x8000000 zero_mem stride16_record huge_buffer 0"
      by simp
    then show False unfolding t s by simp
  qed
  moreover have "ReadFromDefaultUniformBlock_strided 1 0x8000000 zero_mem stride16_record huge_buffer \<noteq>
      memcpy zero_mem 0 (mData huge_buffer)
              (offset stride16_record + uint (0x8000000 :: 32 word) * arrayStride stride16_record)
              (to_size_t (elementSize_of 1))"
  proof
    assume "ReadFromDefaultUniformBlock_strided 1 0x8000000 zero_mem stride16_record huge_buffer =
      memcpy zero_mem 0 (mData huge_buffer)
              (offset stride16_record + uint (0x8000000 :: 32 word) * arrayStride stride16_record)
              (to_size_t (elementSize_of 1))"
    then have "ReadFromDefaultUniformBlock_strided 1 0x8000000 zero_mem stride16_record huge_buffer 0 =
      memcpy zero_mem 0 (mData huge_buffer)
              (offset stride16_record + uint (0x8000000 :: 32 word) * arrayStride stride16_record)
              (to_size_t (elementSize_of 1)) 0"
      by simp
    then show False unfolding m s by simp
  qed
  ultimately show ?thesis using r by simp
qed

text \<open>
  C10, amended: for a record whose offset is not \<open>-1\<close>, whose stride is not
  negative, and an array index whose product with the stride is below \<open>2^31\<close>
  (so for every element of a block smaller than 2 GiB), the two arms of
  \<^verbatim>\<open>ReadFromDefaultUniformBlock\<close> are equal: each copies the bytes of one
  element from \<open>offset + arrayIndex * arrayStride\<close> to the start of the
  destination, and the destination is unchanged outside these bytes.
\<close>

theorem ReadFromDefaultUniformBlock_stride_independent:
  assumes "offset li \<noteq> - 1" and "0 \<le> arrayStride li" and "uint ai * arrayStride li < 2 ^ 31"
  shows "ReadFromDefaultUniformBlock_tight cc ai dst li buf =
           ReadFromDefaultUniformBlock_strided cc ai dst li buf
         \<and> ReadFromDefaultUniformBlock cc ai dst li buf =
             Inr (memcpy dst 0 (mData buf) (offset li + uint ai * arrayStride li)
                    (to_size_t (elementSize_of cc)))
         \<and> (\<forall>dst'. ReadFromDefaultUniformBlock cc ai dst li buf = Inr dst' \<longrightarrow>
               (\<forall>a. a < 0 \<or> to_size_t (elementSize_of cc) \<le> a \<longrightarrow> dst' a = dst a))"
  using assms
  by (auto simp add: ReadFromDefaultUniformBlock_def ReadFromDefaultUniformBlock_arms memcpy_out)

theorem ReadFromDefaultUniformBlock_stride_independent_witness:
  "ReadFromDefaultUniformBlock_tight 1 3 zero_mem stride16_record counting_buffer =
     ReadFromDefaultUniformBlock_strided 1 3 zero_mem stride16_record counting_buffer
   \<and> ReadFromDefaultUniformBlock 1 3 zero_mem stride16_record counting_buffer =
       Inr (memcpy zero_mem 0 (mData counting_buffer) 48 4)"
  using ReadFromDefaultUniformBlock_stride_independent
          [of stride16_record 3 1 zero_mem counting_buffer]
  by (simp add: stride16_record_def elementSize_of_def sizeof_T_def to_int_def to_size_t_def)

end
